(* ===== verification/Prelude.thy ===== *)
theory Prelude
  imports Complex_Main "HOL-Library.AList" "HOL-Library.Word" "HOL-Library.Multiset"
begin

text \<open>
  Shared vocabulary of the development: Python strings as lists of code points, the
  exceptions the modelled code can raise, results as sums, ordered dictionaries as
  association lists with distinct keys, Python slices, floats that may be
  \<open>float('inf')\<close>, and \<open>random.sample\<close> driven by an explicit list of draws.
\<close>

named_theorems frame_simps \<open>fields an operation leaves alone\<close>
named_theorems wf_intros \<open>operations that keep an invariant\<close>

section \<open>Strings, exceptions and results\<close>

type_synonym pystr = "nat list"

definition lit :: "string \<Rightarrow> pystr" where
  "lit s = map of_char s"

datatype py_error =
    StructError | UnicodeEncodeError | UnicodeDecodeError | IndexError | ValueError
  | KeyError | OverflowError | ZeroDivisionError | TypeError | RuntimeError
  | FileNotFoundError | AttributeError

type_synonym 'a result = "py_error + 'a"

definition ebind :: "'a result \<Rightarrow> ('a \<Rightarrow> 'b result) \<Rightarrow> 'b result" where
  "ebind m f = (case m of Inl e \<Rightarrow> Inl e | Inr x \<Rightarrow> f x)"

lemma ebind_simps [simp]:
  "ebind (Inl e) f = Inl e"
  "ebind (Inr x) f = f x"
  by (simp_all add: ebind_def)

lemma ebind_Inr_iff:
  "ebind m f = Inr y \<longleftrightarrow> (\<exists>x. m = Inr x \<and> f x = Inr y)"
  by (cases m) simp_all

lemma ebind_split:
  "P (ebind m f) \<longleftrightarrow> (\<forall>e. m = Inl e \<longrightarrow> P (Inl e)) \<and> (\<forall>x. m = Inr x \<longrightarrow> P (f x))"
  by (cases m) simp_all

lemma ebind_assoc: "ebind (ebind m f) g = ebind m (\<lambda>x. ebind (f x) g)"
  by (cases m) simp_all

lemma ebind_cong [fundef_cong]:
  "m = m' \<Longrightarrow> (\<And>x. m' = Inr x \<Longrightarrow> f x = f' x) \<Longrightarrow> ebind m f = ebind m' f'"
  by (cases m') simp_all

text \<open>A list comprehension whose elements may raise: the first exception is the result.\<close>

fun results :: "'a result list \<Rightarrow> 'a list result" where
  "results [] = Inr []"
| "results (r # rs) = ebind r (\<lambda>x. ebind (results rs) (\<lambda>xs. Inr (x # xs)))"

lemma results_map: "(\<And>x. x \<in> set xs \<Longrightarrow> f x = Inr (g x)) \<Longrightarrow> results (map f xs) = Inr (map g xs)"
  by (induction xs) simp_all

section \<open>Values of a Python dictionary\<close>

datatype pyval = VNone | VInt int | VFloat real | VStr pystr

type_synonym pydict = "(pystr \<times> pyval) list"

section \<open>Ordered dictionaries\<close>

text \<open>
  A Python dictionary iterates in insertion order and assigning to an existing key keeps
  its position: this is \<^const>\<open>AList.update\<close>, which replaces in place or appends.
\<close>

lemma map_of_update [simp]: "map_of (AList.update k v d) = (map_of d)(k \<mapsto> v)"
  by (rule update_conv')

lemma map_of_delete [simp]: "map_of (AList.delete k d) = (map_of d)(k := None)"
  by (rule delete_conv')

lemma update_fresh:
  "map_of d k = None \<Longrightarrow> AList.update k v d = d @ [(k, v)]"
  by (induction d) (auto split: if_splits)

lemma keys_update_present:
  "map_of d k = Some v' \<Longrightarrow> map fst (AList.update k v d) = map fst d"
  by (induction d) auto

lemma in_set_update:
  "(k', v') \<in> set (AList.update k v d) \<Longrightarrow> k' = k \<and> v' = v \<or> (k', v') \<in> set d"
  by (induction d) (auto split: if_splits)

lemma length_update_le: "length (AList.update k v d) \<le> Suc (length d)"
  by (induction d) auto

lemma length_update_ge: "length d \<le> length (AList.update k v d)"
  by (induction d) auto

lemma map_of_is_None_iff: "map_of d k = None \<longleftrightarrow> k \<notin> fst ` set d"
  by (induction d) auto

section \<open>Python slices\<close>

text \<open>\<open>xs[:k]\<close> and \<open>xs[k:]\<close> for any integer \<open>k\<close>: a negative bound counts from the end.\<close>

definition slice_pos :: "'a list \<Rightarrow> int \<Rightarrow> nat" where
  "slice_pos xs k = (if k < 0 then nat (int (length xs) + k) else nat k)"

definition py_upto :: "'a list \<Rightarrow> int \<Rightarrow> 'a list" where
  "py_upto xs k = take (slice_pos xs k) xs"

definition py_from :: "'a list \<Rightarrow> int \<Rightarrow> 'a list" where
  "py_from xs k = drop (slice_pos xs k) xs"

lemma py_slices_partition: "py_upto xs k @ py_from xs k = xs"
  by (simp add: py_upto_def py_from_def)

section \<open>Floats that may be infinite\<close>

text \<open>
  Finite floats are reals (rounding is not modelled); \<open>float('inf')\<close> is \<open>PInf\<close>.
\<close>

datatype pyfloat = Fin real | PInf

instantiation pyfloat :: linorder
begin

fun less_eq_pyfloat :: "pyfloat \<Rightarrow> pyfloat \<Rightarrow> bool" where
  "less_eq_pyfloat (Fin a) (Fin b) = (a \<le> b)"
| "less_eq_pyfloat (Fin a) PInf = True"
| "less_eq_pyfloat PInf (Fin b) = False"
| "less_eq_pyfloat PInf PInf = True"

definition less_pyfloat :: "pyfloat \<Rightarrow> pyfloat \<Rightarrow> bool" where
  "less_pyfloat a b = (a \<le> b \<and> \<not> b \<le> a)"

instance
proof
  fix a b c :: pyfloat
  show "(a < b) = (a \<le> b \<and> \<not> b \<le> a)" by (rule less_pyfloat_def)
  show "a \<le> a" by (cases a) simp_all
  show "a \<le> b \<Longrightarrow> b \<le> c \<Longrightarrow> a \<le> c" by (cases a; cases b; cases c) simp_all
  show "a \<le> b \<Longrightarrow> b \<le> a \<Longrightarrow> a = b" by (cases a; cases b) simp_all
  show "a \<le> b \<or> b \<le> a" by (cases a; cases b) auto
qed

end

lemma pyfloat_less_simps [simp]:
  "Fin a < Fin b \<longleftrightarrow> a < b" "Fin a < PInf" "\<not> PInf < x"
  by (auto simp: less_pyfloat_def) (cases x; simp)

section \<open>Rounding\<close>

text \<open>\<open>np.round\<close> rounds halves to even.\<close>

definition np_round :: "real \<Rightarrow> int" where
  "np_round x =
     (let f = \<lfloor>x\<rfloor>; d = x - of_int f in
      if d < 1 / 2 then f else if d > 1 / 2 then f + 1 else if even f then f else f + 1)"

lemma np_round_error: "\<bar>of_int (np_round x) - x\<bar> \<le> 1 / 2"
  unfolding np_round_def Let_def by (auto simp: abs_le_iff)

section \<open>Sums, clipping, grids and indices\<close>

text \<open>\<open>a + b\<close> for flat arrays: one of them may have a single element, which is repeated.\<close>

definition np_add :: "real list \<Rightarrow> real list \<Rightarrow> real list result" where
  "np_add a b =
     (if length a = length b then Inr (map2 (+) a b)
      else if length b = 1 then Inr (map (\<lambda>x. x + b ! 0) a)
      else if length a = 1 then Inr (map (\<lambda>y. a ! 0 + y) b)
      else Inl ValueError)"

text \<open>\<open>np.clip(x, lo, hi)\<close> is \<open>min(max(x, lo), hi)\<close>.\<close>

definition np_clip :: "real \<Rightarrow> real \<Rightarrow> real \<Rightarrow> real" where
  "np_clip lo hi x = min (max x lo) hi"

text \<open>\<open>np.linspace(lo, hi, n)\<close>.\<close>

definition linspace :: "real \<Rightarrow> real \<Rightarrow> nat \<Rightarrow> real list" where
  "linspace lo hi n =
     (if n = 1 then [lo] else map (\<lambda>i. lo + real i * ((hi - lo) / (real n - 1))) [0..<n])"

text \<open>\<open>xs[i]\<close>: negative indices count from the end.\<close>

definition py_index :: "'a list \<Rightarrow> int \<Rightarrow> 'a result" where
  "py_index xs i =
     (if 0 \<le> i \<and> i < int (length xs) then Inr (xs ! nat i)
      else if - int (length xs) \<le> i \<and> i < 0 then Inr (xs ! nat (int (length xs) + i))
      else Inl IndexError)"

lemma np_clip_range: "lo \<le> hi \<Longrightarrow> lo \<le> np_clip lo hi x \<and> np_clip lo hi x \<le> hi"
  by (simp add: np_clip_def)

lemma linspace_length [simp]: "length (linspace lo hi n) = n"
  by (simp add: linspace_def)

lemma linspace_between:
  assumes "lo \<le> hi" and "x \<in> set (linspace hi lo n)"
  shows "lo \<le> x \<and> x \<le> hi"
proof (cases "n = 1")
  case False
  with assms(2) obtain i where i: "i < n" "x = hi + real i * ((lo - hi) / (real n - 1))"
    by (auto simp: linspace_def)
  with False have n: "0 < real n - 1" "real i \<le> real n - 1" by auto
  have x: "x = hi - (real i / (real n - 1)) * (hi - lo)" using n(1) by (simp add: i(2) field_simps)
  have f: "0 \<le> real i / (real n - 1)" "real i / (real n - 1) \<le> 1" using n by simp_all
  have "0 \<le> (real i / (real n - 1)) * (hi - lo)" using f(1) assms(1) by (intro mult_nonneg_nonneg) simp_all
  moreover have "(real i / (real n - 1)) * (hi - lo) \<le> 1 * (hi - lo)"
    using f(2) assms(1) by (intro mult_right_mono) simp_all
  ultimately show ?thesis unfolding x by simp
qed (use assms in \<open>simp add: linspace_def\<close>)

section \<open>Random choices\<close>

text \<open>
  \<open>random.sample(pool, k)\<close> with the outcomes of \<open>randbelow\<close> as an argument: the
  \<open>i\<close>-th draw, reduced below the number of elements left, selects the next element,
  whose place is taken by the last element of the pool. Every sequence of
  \<open>randbelow\<close> outcomes is such a list of draws. More elements than the pool holds
  raise \<open>ValueError\<close>.
\<close>

definition draw :: "nat list \<Rightarrow> nat" where
  "draw ds = (case ds of [] \<Rightarrow> 0 | d # _ \<Rightarrow> d)"

fun sample_pool :: "nat list \<Rightarrow> nat \<Rightarrow> 'a list \<Rightarrow> 'a list" where
  "sample_pool ds 0 pool = []"
| "sample_pool ds (Suc k) pool =
     (let j = draw ds mod length pool
      in pool ! j # sample_pool (tl ds) k (butlast (pool[j := last pool])))"

definition py_sample :: "nat list \<Rightarrow> 'a list \<Rightarrow> int \<Rightarrow> 'a list result" where
  "py_sample ds pool k =
     (if 0 \<le> k \<and> k \<le> int (length pool) then Inr (sample_pool ds (nat k) pool)
      else Inl ValueError)"

text \<open>\<open>random.choice(xs)\<close> on a non-empty list.\<close>

definition py_choice :: "nat list \<Rightarrow> 'a list \<Rightarrow> 'a" where
  "py_choice ds xs = xs ! (draw ds mod length xs)"

lemma py_choice_in: "xs \<noteq> [] \<Longrightarrow> py_choice ds xs \<in> set xs"
  by (simp add: py_choice_def)

lemma mset_swap_last:
  assumes "j < length pool"
  shows "add_mset (pool ! j) (mset (butlast (pool[j := last pool]))) = mset pool"
proof -
  obtain xs x where pool: "pool = xs @ [x]"
    using assms by (cases pool rule: rev_cases) auto
  show ?thesis
  proof (cases "j = length xs")
    case True
    then show ?thesis by (simp add: pool)
  next
    case False
    with assms have j: "j < length xs" by (simp add: pool)
    then have "butlast (pool[j := last pool]) = xs[j := x]"
      by (simp add: pool list_update_append)
    with j show ?thesis
      by (simp add: pool nth_append mset_update insert_DiffM)
  qed
qed

lemma sample_pool_length [simp]: "length (sample_pool ds k pool) = k"
  by (induction ds k pool rule: sample_pool.induct) (simp_all add: Let_def)

lemma sample_pool_mset: "k \<le> length pool \<Longrightarrow> mset (sample_pool ds k pool) \<subseteq># mset pool"
proof (induction ds k pool rule: sample_pool.induct)
  case (1 ds pool)
  then show ?case by simp
next
  case (2 ds k pool)
  define j where "j = draw ds mod length pool"
  have j: "j < length pool" using "2.prems" unfolding j_def by (intro mod_less_divisor) auto
  have "mset (sample_pool (tl ds) k (butlast (pool[j := last pool])))
          \<subseteq># mset (butlast (pool[j := last pool]))"
    using "2.IH" [OF j_def] "2.prems" by simp
  then have "add_mset (pool ! j) (mset (sample_pool (tl ds) k (butlast (pool[j := last pool]))))
          \<subseteq># mset pool"
    using mset_swap_last [OF j] by (metis mset_subset_eq_add_mset_cancel)
  then show ?case by (simp add: Let_def j_def)
qed

lemma distinct_mset_subset:
  assumes "mset ys \<subseteq># mset xs" and "distinct xs"
  shows "distinct ys"
proof (unfold distinct_count_atmost_1, intro allI)
  fix a
  have le: "count (mset ys) a \<le> count (mset xs) a"
    using assms(1) by (rule mset_subset_eq_count)
  have "count (mset xs) a \<le> 1"
    using assms(2) by (simp add: distinct_count_atmost_1)
  with le have "count (mset ys) a \<le> 1" by simp
  moreover have "count (mset ys) a = 0 \<longleftrightarrow> a \<notin> set ys" by simp
  ultimately show "count (mset ys) a = (if a \<in> set ys then 1 else 0)"
    by (metis le_less less_one)
qed

text \<open>What the callers rely on: the interface of a sampler and its consequences.\<close>

locale sampler =
  fixes sample :: "'a list \<Rightarrow> int \<Rightarrow> 'a list result"
  assumes sample_ok: "0 \<le> k \<Longrightarrow> k \<le> int (length xs) \<Longrightarrow> \<exists>ys. sample xs k = Inr ys"
    and sample_length: "sample xs k = Inr ys \<Longrightarrow> int (length ys) = k"
    and sample_sub: "sample xs k = Inr ys \<Longrightarrow> mset ys \<subseteq># mset xs"
begin

lemma sample_subset: "sample xs k = Inr ys \<Longrightarrow> set ys \<subseteq> set xs"
  using sample_sub by (metis set_mset_mono set_mset_mset)

lemma sample_distinct: "sample xs k = Inr ys \<Longrightarrow> distinct xs \<Longrightarrow> distinct ys"
  using sample_sub by (rule distinct_mset_subset)

lemma sample_distinct_map:
  assumes "sample xs k = Inr ys" and "distinct (map f xs)"
  shows "distinct (map f ys)"
proof -
  have "mset (map f ys) \<subseteq># mset (map f xs)"
    using sample_sub [OF assms(1)] by (simp add: image_mset_subseteq_mono)
  then show ?thesis using assms(2) by (rule distinct_mset_subset)
qed

lemma sample_length_le: "sample xs k = Inr ys \<Longrightarrow> length ys \<le> length xs"
  using sample_sub by (metis size_mset size_mset_mono)

end

interpretation py: sampler "py_sample ds" for ds
proof unfold_locales
  fix k :: int and xs ys :: "'a list"
  show "0 \<le> k \<Longrightarrow> k \<le> int (length xs) \<Longrightarrow> \<exists>ys. py_sample ds xs k = Inr ys"
    by (simp add: py_sample_def)
  assume ok: "py_sample ds xs k = Inr ys"
  then show "int (length ys) = k"
    by (auto simp: py_sample_def split: if_splits)
  from ok have "nat k \<le> length xs" and "ys = sample_pool ds (nat k) xs"
    by (auto simp: py_sample_def split: if_splits)
  then show "mset ys \<subseteq># mset xs" by (simp add: sample_pool_mset)
qed

end
