(* ===== verification/Wire.thy ===== *)
theory Wire
  imports Prelude
begin

unbundle bit_operations_syntax

text \<open>
  The byte layer under \<open>GossipMessage.pack\<close> and \<open>unpack\<close>: the formats of Python's
  \<open>struct\<close> that the code uses, strict UTF-8, and the buffers of numpy arrays as
  \<open>tobytes\<close> and \<open>frombuffer\<close> see them. Readers take the whole message and an offset,
  as \<open>struct.unpack_from\<close> does.
\<close>

type_synonym byte = "8 word"
type_synonym bytes = "byte list"

section \<open>Fixed-width integers\<close>

definition byte_of :: "nat \<Rightarrow> byte" where
  "byte_of n = of_nat n"

lemma unat_byte_of [simp]: "n < 256 \<Longrightarrow> unat (byte_of n) = n"
  by (simp add: byte_of_def unat_of_nat)

lemma byte_of_unat [simp]: "byte_of (unat b) = b"
  by (simp add: byte_of_def)

lemma unat_byte_less [simp]: "unat (b :: byte) < 256"
  using unsigned_less [of b] by simp

fun le_bytes :: "nat \<Rightarrow> nat \<Rightarrow> bytes" where
  "le_bytes 0 n = []"
| "le_bytes (Suc k) n = byte_of (n mod 256) # le_bytes k (n div 256)"

fun le_val :: "bytes \<Rightarrow> nat" where
  "le_val [] = 0"
| "le_val (b # bs) = unat b + 256 * le_val bs"

definition be_bytes :: "nat \<Rightarrow> nat \<Rightarrow> bytes" where
  "be_bytes k n = rev (le_bytes k n)"

definition be_val :: "bytes \<Rightarrow> nat" where
  "be_val bs = le_val (rev bs)"

lemma le_bytes_numeral:
  "le_bytes (numeral w) n = byte_of (n mod 256) # le_bytes (pred_numeral w) (n div 256)"
  by (subst numeral_eq_Suc) (rule le_bytes.simps(2))

lemma length_le_bytes [simp]: "length (le_bytes k n) = k"
  by (induction k arbitrary: n) simp_all

lemma length_be_bytes [simp]: "length (be_bytes k n) = k"
  by (simp add: be_bytes_def)

lemma le_val_le_bytes [simp]: "n < 256 ^ k \<Longrightarrow> le_val (le_bytes k n) = n"
proof (induction k arbitrary: n)
  case 0
  then show ?case by simp
next
  case (Suc k)
  then have "n div 256 < 256 ^ k" by (simp add: less_mult_imp_div_less mult.commute)
  then show ?case by (simp add: Suc.IH)
qed

lemma be_val_be_bytes [simp]: "n < 256 ^ k \<Longrightarrow> be_val (be_bytes k n) = n"
  by (simp add: be_val_def be_bytes_def)

text \<open>
  \<open>struct.pack\<close> with an unsigned format of \<open>k\<close> bytes, big-endian: a value out of range
  raises \<open>struct.error\<close>. \<open>struct.unpack_from\<close> raises it when the buffer is too short,
  and \<open>OverflowError\<close> when the offset does not fit a \<open>Py_ssize_t\<close>.
\<close>

definition pack_uint :: "nat \<Rightarrow> int \<Rightarrow> bytes result" where
  "pack_uint k v = (if 0 \<le> v \<and> v < 256 ^ k then Inr (be_bytes k (nat v)) else Inl StructError)"

definition unpack_uint :: "nat \<Rightarrow> bytes \<Rightarrow> nat \<Rightarrow> int result" where
  "unpack_uint k data off =
     (if 2 ^ 63 \<le> off then Inl OverflowError
      else if off + k \<le> length data then Inr (int (be_val (take k (drop off data))))
      else Inl StructError)"

text \<open>The format \<open>d\<close>: an IEEE-754 double, carried as its 64 bits.\<close>

definition pack_f64 :: "64 word \<Rightarrow> bytes" where
  "pack_f64 x = be_bytes 8 (unat x)"

definition unpack_f64 :: "bytes \<Rightarrow> nat \<Rightarrow> 64 word result" where
  "unpack_f64 data off = ebind (unpack_uint 8 data off) (\<lambda>v. Inr (of_int v))"

text \<open>\<open>data[i]\<close> for a non-negative index.\<close>

definition byte_at :: "bytes \<Rightarrow> nat \<Rightarrow> byte result" where
  "byte_at data off = (if off < length data then Inr (data ! off) else Inl IndexError)"

text \<open>\<open>data[a:a + n]\<close>: slices are clipped to the buffer.\<close>

definition slice :: "bytes \<Rightarrow> nat \<Rightarrow> nat \<Rightarrow> bytes" where
  "slice data off n = take n (drop off data)"

lemma pack_uint_Inr_iff:
  "pack_uint k v = Inr bs \<longleftrightarrow> 0 \<le> v \<and> v < 256 ^ k \<and> bs = be_bytes k (nat v)"
  by (auto simp: pack_uint_def)

lemma length_pack_uint: "pack_uint k v = Inr bs \<Longrightarrow> length bs = k"
  by (auto simp: pack_uint_Inr_iff)

lemma length_pack_f64 [simp]: "length (pack_f64 x) = 8"
  by (simp add: pack_f64_def)

lemma slice_append [simp]: "slice (pre @ bs @ post) (length pre) (length bs) = bs"
  by (simp add: slice_def)

lemma byte_at_append [simp]: "byte_at (pre @ b # post) (length pre) = Inr b"
  by (simp add: byte_at_def)

lemma unpack_pack_uint:
  assumes "pack_uint k v = Inr bs" and "length pre < 2 ^ 63"
  shows "unpack_uint k (pre @ bs @ post) (length pre) = Inr v"
proof -
  from assms(1) have v: "0 \<le> v" "v < 256 ^ k" and bs: "bs = be_bytes k (nat v)"
    by (auto simp: pack_uint_Inr_iff)
  from v have "nat v < 256 ^ k" by (simp add: nat_less_iff)
  then show ?thesis using assms(2) v(1) by (simp add: unpack_uint_def bs)
qed

lemma unpack_pack_f64:
  assumes "length pre < 2 ^ 63"
  shows "unpack_f64 (pre @ pack_f64 x @ post) (length pre) = Inr x"
proof -
  have "uint x < 256 ^ 8" using uint_bounded [of x] by simp
  then have "pack_uint 8 (int (unat x)) = Inr (pack_f64 x)"
    by (simp add: pack_uint_def pack_f64_def)
  then have "unpack_uint 8 (pre @ pack_f64 x @ post) (length pre) = Inr (int (unat x))"
    using assms by (rule unpack_pack_uint)
  then show ?thesis by (simp add: unpack_f64_def)
qed

section \<open>UTF-8\<close>

text \<open>
  \<open>str.encode('utf-8')\<close> raises \<open>UnicodeEncodeError\<close> on a surrogate.
  \<open>bytes.decode('utf-8')\<close> is strict: stray or missing continuation bytes, overlong
  forms, surrogates and values above 0x10FFFF raise \<open>UnicodeDecodeError\<close>.
\<close>

definition scalar :: "nat \<Rightarrow> bool" where
  "scalar c \<longleftrightarrow> c < 0x110000 \<and> \<not> (0xD800 \<le> c \<and> c < 0xE000)"

definition utf8_cp :: "nat \<Rightarrow> bytes" where
  "utf8_cp c =
     (if c < 0x80 then [byte_of c]
      else if c < 0x800 then [byte_of (192 + c div 64), byte_of (128 + c mod 64)]
      else if c < 0x10000 then
        [byte_of (224 + c div 4096), byte_of (128 + c div 64 mod 64), byte_of (128 + c mod 64)]
      else
        [byte_of (240 + c div 262144), byte_of (128 + c div 4096 mod 64),
         byte_of (128 + c div 64 mod 64), byte_of (128 + c mod 64)])"

definition utf8_encode :: "pystr \<Rightarrow> bytes result" where
  "utf8_encode s =
     (if list_all scalar s then Inr (concat (map utf8_cp s)) else Inl UnicodeEncodeError)"

definition cont :: "byte \<Rightarrow> bool" where
  "cont b \<longleftrightarrow> 128 \<le> unat b \<and> unat b < 192"

definition econs :: "nat \<Rightarrow> pystr result \<Rightarrow> pystr result" where
  "econs c r = ebind r (\<lambda>s. Inr (c # s))"

fun utf8_decode :: "bytes \<Rightarrow> pystr result" where
  "utf8_decode [] = Inr []"
| "utf8_decode (b # bs) =
     (let n = unat b in
      if n < 128 then econs n (utf8_decode bs)
      else if 192 \<le> n \<and> n < 224 then
        (case bs of
           b1 # r \<Rightarrow>
             (let c = (n - 192) * 64 + (unat b1 - 128) in
              if cont b1 \<and> 0x80 \<le> c then econs c (utf8_decode r)
              else Inl UnicodeDecodeError)
         | _ \<Rightarrow> Inl UnicodeDecodeError)
      else if 224 \<le> n \<and> n < 240 then
        (case bs of
           b1 # b2 # r \<Rightarrow>
             (let c = (n - 224) * 4096 + (unat b1 - 128) * 64 + (unat b2 - 128) in
              if cont b1 \<and> cont b2 \<and> 0x800 \<le> c \<and> scalar c then econs c (utf8_decode r)
              else Inl UnicodeDecodeError)
         | _ \<Rightarrow> Inl UnicodeDecodeError)
      else if 240 \<le> n \<and> n < 248 then
        (case bs of
           b1 # b2 # b3 # r \<Rightarrow>
             (let c = (n - 240) * 262144 + (unat b1 - 128) * 4096
                      + (unat b2 - 128) * 64 + (unat b3 - 128) in
              if cont b1 \<and> cont b2 \<and> cont b3 \<and> 0x10000 \<le> c \<and> scalar c
              then econs c (utf8_decode r)
              else Inl UnicodeDecodeError)
         | _ \<Rightarrow> Inl UnicodeDecodeError)
      else Inl UnicodeDecodeError)"

declare utf8_decode.simps(2) [simp del]

lemma base64_digits:
  fixes c :: nat
  shows "c div 4096 * 4096 + c div 64 mod 64 * 64 + c mod 64 = c"
    and "c div 262144 * 262144 + c div 4096 mod 64 * 4096 + c div 64 mod 64 * 64 + c mod 64 = c"
proof -
  have split: "n div 64 * 64 + n mod 64 = n" for n :: nat by (rule div_mult_mod_eq)
  have d: "c div 4096 = c div 64 div 64" "c div 262144 = c div 4096 div 64"
    by (simp_all add: div_mult2_eq [symmetric])
  have two: "c div 4096 * 4096 + c div 64 mod 64 * 64 = c div 64 * 64"
    using split [of "c div 64"] unfolding d(1) by linarith
  with split [of c] show "c div 4096 * 4096 + c div 64 mod 64 * 64 + c mod 64 = c" by simp
  moreover have "c div 262144 * 262144 + c div 4096 mod 64 * 4096 = c div 4096 * 4096"
    using split [of "c div 4096"] unfolding d(2) by linarith
  ultimately show
    "c div 262144 * 262144 + c div 4096 mod 64 * 4096 + c div 64 mod 64 * 64 + c mod 64 = c"
    by simp
qed

lemma utf8_decode_cp:
  assumes "scalar c"
  shows "utf8_decode (utf8_cp c @ bs) = econs c (utf8_decode bs)"
proof -
  have lim: "c < 0x110000" using assms by (simp add: scalar_def)
  have m: "c div 4096 mod 64 < 64" "c div 64 mod 64 < 64" "c mod 64 < 64" by simp_all
  consider (one) "c < 0x80" | (two) "0x80 \<le> c" "c < 0x800" | (three) "0x800 \<le> c" "c < 0x10000"
    | (four) "0x10000 \<le> c" by linarith
  then show ?thesis
  proof cases
    case one
    then show ?thesis by (simp add: utf8_cp_def utf8_decode.simps(2))
  next
    case two
    then have d: "c div 64 < 32" by simp
    then have cp: "utf8_cp c = [byte_of (192 + c div 64), byte_of (128 + c mod 64)]"
      using two by (simp add: utf8_cp_def)
    show ?thesis unfolding cp
      using two(1) d m by (simp add: utf8_decode.simps(2) cont_def Let_def)
  next
    case three
    then have d: "c div 4096 < 16" by simp
    have cp: "utf8_cp c = [byte_of (224 + c div 4096), byte_of (128 + c div 64 mod 64),
        byte_of (128 + c mod 64)]"
      using three by (simp add: utf8_cp_def)
    show ?thesis unfolding cp
      using three(1) d m assms base64_digits(1) [of c]
      by (simp add: utf8_decode.simps(2) cont_def Let_def)
  next
    case four
    then have d: "c div 262144 < 8" using lim by simp
    have cp: "utf8_cp c = [byte_of (240 + c div 262144), byte_of (128 + c div 4096 mod 64),
        byte_of (128 + c div 64 mod 64), byte_of (128 + c mod 64)]"
      using four by (simp add: utf8_cp_def)
    show ?thesis unfolding cp
      using four d m assms base64_digits(2) [of c]
      by (simp add: utf8_decode.simps(2) cont_def Let_def)
  qed
qed

lemma utf8_decode_encode:
  assumes "utf8_encode s = Inr bs"
  shows "utf8_decode bs = Inr s"
proof -
  from assms have "list_all scalar s" and bs: "bs = concat (map utf8_cp s)"
    by (auto simp: utf8_encode_def split: if_splits)
  then have "utf8_decode (concat (map utf8_cp s)) = Inr s"
    by (induction s arbitrary: bs) (simp_all add: utf8_decode_cp econs_def)
  then show ?thesis by (simp add: bs)
qed

section \<open>Array buffers\<close>

text \<open>
  The element types whose buffers reach the wire, by their bit patterns, in C order and
  little-endian (the native order of the supported platforms): \<open>tobytes\<close> concatenates
  the elements, \<open>np.frombuffer\<close> splits the bytes again and raises \<open>ValueError\<close> when
  their number is not a multiple of the element size.
\<close>

datatype npbuf =
    F32 "32 word list" | F64 "64 word list" | I32 "32 word list" | I64 "64 word list"

record 'b ndarray =
  nd_shape :: "nat list"
  nd_data :: 'b

definition words_le :: "nat \<Rightarrow> 'a::len word list \<Rightarrow> bytes" where
  "words_le k ws = concat (map (\<lambda>w. le_bytes k (unat w)) ws)"

fun chunk_words :: "nat \<Rightarrow> nat \<Rightarrow> bytes \<Rightarrow> 'a::len word list" where
  "chunk_words k 0 bs = []"
| "chunk_words k (Suc n) bs = of_nat (le_val (take k bs)) # chunk_words k n (drop k bs)"

definition frombuffer :: "nat \<Rightarrow> bytes \<Rightarrow> 'a::len word list result" where
  "frombuffer k bs =
     (if length bs mod k \<noteq> 0 then Inl ValueError else Inr (chunk_words k (length bs div k) bs))"

fun tobytes :: "npbuf \<Rightarrow> bytes" where
  "tobytes (F32 ws) = words_le 4 ws"
| "tobytes (F64 ws) = words_le 8 ws"
| "tobytes (I32 ws) = words_le 4 ws"
| "tobytes (I64 ws) = words_le 8 ws"

lemma length_words_le [simp]: "length (words_le k ws) = k * length ws"
  by (induction ws) (simp_all add: words_le_def)

lemma words_le_simps [simp]:
  "words_le k [] = []" "words_le k (w # ws) = le_bytes k (unat w) @ words_le k ws"
  by (simp_all add: words_le_def)

lemma chunk_words_le:
  fixes ws :: "'a::len word list"
  assumes "(2::nat) ^ LENGTH('a) \<le> 256 ^ k"
  shows "chunk_words k (length ws) (words_le k ws) = ws"
proof (induction ws)
  case Nil
  show ?case by simp
next
  case (Cons w ws)
  have "unat w < 2 ^ LENGTH('a)" by (rule unsigned_less)
  with assms have "unat w < 256 ^ k" by linarith
  with Cons.IH show ?case by simp
qed

lemma frombuffer_words_le:
  fixes ws :: "'a::len word list"
  assumes "(2::nat) ^ LENGTH('a) \<le> 256 ^ k" and "0 < k"
  shows "frombuffer k (words_le k ws) = Inr ws"
  using assms by (simp add: frombuffer_def chunk_words_le)

lemma length_chunk_words [simp]: "length (chunk_words k n bs) = n"
  by (induction k n bs rule: chunk_words.induct) simp_all

end
