(* ===== verification/Message.thy ===== *)
theory Message
  imports Wire
begin

text \<open>
  \<open>gossip/message.py\<close>: the message types, the message record, its factories and its
  binary codec. Messages are polymorphic in the representation of time stamps, gradient
  arrays and index arrays: on the wire these are bit patterns, in the protocol they are
  numbers.
\<close>

section \<open>Message types\<close>

datatype message_type =
    PING | PING_REQ | ACK | SUSPECT | ALIVE | DEAD
  | PUSH_GRADIENT | PULL_GRADIENT | PUSH_PULL_GRADIENT
  | AGGREGATE_REQUEST | AGGREGATE_RESPONSE
  | MODEL_SYNC | MODEL_REQUEST | MODEL_RESPONSE

fun mt_value :: "message_type \<Rightarrow> int" where
  "mt_value PING = 1"
| "mt_value PING_REQ = 2"
| "mt_value ACK = 3"
| "mt_value SUSPECT = 4"
| "mt_value ALIVE = 5"
| "mt_value DEAD = 6"
| "mt_value PUSH_GRADIENT = 10"
| "mt_value PULL_GRADIENT = 11"
| "mt_value PUSH_PULL_GRADIENT = 12"
| "mt_value AGGREGATE_REQUEST = 20"
| "mt_value AGGREGATE_RESPONSE = 21"
| "mt_value MODEL_SYNC = 30"
| "mt_value MODEL_REQUEST = 31"
| "mt_value MODEL_RESPONSE = 32"

definition all_message_types :: "message_type list" where
  "all_message_types =
     [PING, PING_REQ, ACK, SUSPECT, ALIVE, DEAD, PUSH_GRADIENT, PULL_GRADIENT,
      PUSH_PULL_GRADIENT, AGGREGATE_REQUEST, AGGREGATE_RESPONSE, MODEL_SYNC,
      MODEL_REQUEST, MODEL_RESPONSE]"

text \<open>\<open>MessageType(v)\<close> raises \<open>ValueError\<close> for a value that no member has.\<close>

definition MessageType_of :: "int \<Rightarrow> message_type result" where
  "MessageType_of v =
     (case find (\<lambda>t. mt_value t = v) all_message_types of
        None \<Rightarrow> Inl ValueError | Some t \<Rightarrow> Inr t)"

lemma MessageType_of_value [simp]: "MessageType_of (mt_value t) = Inr t"
  by (cases t) (simp_all add: MessageType_of_def all_message_types_def)

lemma mt_value_range: "0 \<le> mt_value t \<and> mt_value t < 256"
  by (cases t) simp_all

section \<open>Messages and their factories\<close>

record ('t, 'g, 'i) gossip_message =
  msg_type :: message_type
  sender_id :: pystr
  msg_sequence :: int
  msg_timestamp :: 't
  payload :: "bytes option"
  msg_metadata :: pydict
  gradient_data :: "'g option"
  msg_indices :: "'i option"
  msg_model_version :: int
  msg_step :: int
  target_id :: "pystr option"
  msg_incarnation :: int

text \<open>The constructor with its defaults; \<open>now\<close> is \<open>time.time()\<close>.\<close>

definition new_message ::
  "message_type \<Rightarrow> pystr \<Rightarrow> int \<Rightarrow> 't \<Rightarrow> ('t, 'g, 'i) gossip_message" where
  "new_message ty sender sequence now =
     \<lparr>msg_type = ty, sender_id = sender, msg_sequence = sequence, msg_timestamp = now,
      payload = None, msg_metadata = [], gradient_data = None, msg_indices = None,
      msg_model_version = 0, msg_step = 0, target_id = None, msg_incarnation = 0\<rparr>"

definition create_ping :: "'t \<Rightarrow> pystr \<Rightarrow> int \<Rightarrow> pystr \<Rightarrow> ('t, 'g, 'i) gossip_message" where
  "create_ping now sender sequence target =
     (new_message PING sender sequence now)\<lparr>target_id := Some target\<rparr>"

definition create_ack :: "'t \<Rightarrow> pystr \<Rightarrow> int \<Rightarrow> pystr \<Rightarrow> ('t, 'g, 'i) gossip_message" where
  "create_ack now sender sequence target =
     (new_message ACK sender sequence now)\<lparr>target_id := Some target\<rparr>"

text \<open>\<open>astype\<close> is the conversion to \<open>np.float32\<close> for the representation in use.\<close>

definition create_push_gradient ::
  "('a \<Rightarrow> 'g) \<Rightarrow> 't \<Rightarrow> pystr \<Rightarrow> int \<Rightarrow> 'a \<Rightarrow> int \<Rightarrow> int \<Rightarrow> 'i option \<Rightarrow> ('t, 'g, 'i) gossip_message"
where
  "create_push_gradient astype now sender sequence gradients version step indices =
     (new_message PUSH_GRADIENT sender sequence now)
       \<lparr>gradient_data := Some (astype gradients), msg_indices := indices,
        msg_model_version := version, msg_step := step\<rparr>"

definition create_push_pull_gradient ::
  "('a \<Rightarrow> 'g) \<Rightarrow> 't \<Rightarrow> pystr \<Rightarrow> int \<Rightarrow> 'a \<Rightarrow> int \<Rightarrow> int \<Rightarrow> 'i option \<Rightarrow> ('t, 'g, 'i) gossip_message"
where
  "create_push_pull_gradient astype now sender sequence gradients version step indices =
     (new_message PUSH_PULL_GRADIENT sender sequence now)
       \<lparr>gradient_data := Some (astype gradients), msg_indices := indices,
        msg_model_version := version, msg_step := step\<rparr>"

section \<open>Serialisation\<close>

type_synonym wire_array = "npbuf ndarray"
type_synonym wire_message = "(64 word, wire_array, wire_array) gossip_message"

definition pack_header :: "wire_message \<Rightarrow> bytes result" where
  "pack_header m =
     ebind (utf8_encode (sender_id m)) (\<lambda>sender_bytes.
     ebind (pack_uint 1 (mt_value (msg_type m))) (\<lambda>ty.
     ebind (pack_uint 2 (int (length sender_bytes))) (\<lambda>len.
     ebind (pack_uint 8 (msg_sequence m)) (\<lambda>seq.
     Inr (ty @ len @ sender_bytes @ seq @ pack_f64 (msg_timestamp m))))))"

definition pack_target :: "wire_message \<Rightarrow> byte \<times> bytes \<Rightarrow> (byte \<times> bytes) result" where
  "pack_target m st =
     (case target_id m of
        None \<Rightarrow> Inr st
      | Some target \<Rightarrow>
          ebind (utf8_encode target) (\<lambda>target_bytes.
          ebind (pack_uint 2 (int (length target_bytes))) (\<lambda>len.
          Inr (fst st OR 1, snd st @ len @ target_bytes))))"

text \<open>A length of eight bytes and the bytes.\<close>

definition pack_block :: "bytes \<Rightarrow> bytes result" where
  "pack_block bs = ebind (pack_uint 8 (int (length bs))) (\<lambda>len. Inr (len @ bs))"

definition pack_indices :: "wire_message \<Rightarrow> byte \<times> bytes \<Rightarrow> (byte \<times> bytes) result" where
  "pack_indices m st =
     (case msg_indices m of
        None \<Rightarrow> Inr st
      | Some idx \<Rightarrow>
          ebind (pack_block (tobytes (nd_data idx))) (\<lambda>block.
          Inr (fst st OR 4, snd st @ block)))"

definition pack_gradient :: "wire_message \<Rightarrow> byte \<times> bytes \<Rightarrow> (byte \<times> bytes) result" where
  "pack_gradient m st =
     (case gradient_data m of
        None \<Rightarrow> Inr st
      | Some grad \<Rightarrow>
          ebind (pack_uint 8 (msg_model_version m)) (\<lambda>version.
          ebind (pack_uint 8 (msg_step m)) (\<lambda>step.
          ebind (pack_block (tobytes (nd_data grad))) (\<lambda>block.
          pack_indices m (fst st OR 2, snd st @ version @ step @ block)))))"

definition payload_bytes :: "wire_message \<Rightarrow> bytes" where
  "payload_bytes m = (case payload m of None \<Rightarrow> [] | Some p \<Rightarrow> p)"

definition pack :: "wire_message \<Rightarrow> bytes result" where
  "pack m =
     ebind (pack_header m) (\<lambda>header.
     ebind (pack_target m (0, [])) (\<lambda>st.
     ebind (pack_gradient m st) (\<lambda>(flags, metadata_bytes).
     ebind (pack_uint 4 (msg_incarnation m)) (\<lambda>inc.
     ebind (pack_uint 4 (int (length (payload_bytes m)))) (\<lambda>len.
     Inr (header @ [flags] @ (metadata_bytes @ inc) @ len @ payload_bytes m))))))"

section \<open>Deserialisation\<close>

text \<open>Readers return the value and the offset behind it.\<close>

definition read_uint :: "nat \<Rightarrow> bytes \<Rightarrow> nat \<Rightarrow> (int \<times> nat) result" where
  "read_uint k data off = ebind (unpack_uint k data off) (\<lambda>v. Inr (v, off + k))"

definition read_f64 :: "bytes \<Rightarrow> nat \<Rightarrow> (64 word \<times> nat) result" where
  "read_f64 data off = ebind (unpack_f64 data off) (\<lambda>v. Inr (v, off + 8))"

definition read_str :: "bytes \<Rightarrow> nat \<Rightarrow> (pystr \<times> nat) result" where
  "read_str data off =
     ebind (read_uint 2 data off) (\<lambda>(len, off).
     ebind (utf8_decode (slice data off (nat len))) (\<lambda>s.
     Inr (s, off + nat len)))"

definition read_array :: "nat \<Rightarrow> bytes \<Rightarrow> nat \<Rightarrow> ('a::len word list \<times> nat) result" where
  "read_array k data off =
     ebind (read_uint 8 data off) (\<lambda>(len, off).
     ebind (frombuffer k (slice data off (nat len))) (\<lambda>ws.
     Inr (ws, off + nat len)))"

definition unpack_header ::
  "bytes \<Rightarrow> nat \<Rightarrow> ((int \<times> pystr \<times> int \<times> 64 word) \<times> nat) result" where
  "unpack_header data off =
     ebind (read_uint 1 data off) (\<lambda>(ty, off).
     ebind (read_str data off) (\<lambda>(sender, off).
     ebind (read_uint 8 data off) (\<lambda>(sequence, off).
     ebind (read_f64 data off) (\<lambda>(timestamp, off).
     Inr ((ty, sender, sequence, timestamp), off)))))"

definition unpack_target :: "byte \<Rightarrow> bytes \<Rightarrow> nat \<Rightarrow> (pystr option \<times> nat) result" where
  "unpack_target flags data off =
     (if flags AND 1 \<noteq> 0
      then ebind (read_str data off) (\<lambda>(s, off). Inr (Some s, off))
      else Inr (None, off))"

definition flat :: "nat \<Rightarrow> npbuf \<Rightarrow> wire_array" where
  "flat n buf = \<lparr>nd_shape = [n], nd_data = buf\<rparr>"

definition unpack_indices :: "byte \<Rightarrow> bytes \<Rightarrow> nat \<Rightarrow> (wire_array option \<times> nat) result" where
  "unpack_indices flags data off =
     (if flags AND 4 \<noteq> 0
      then ebind (read_array 8 data off) (\<lambda>(ws, off). Inr (Some (flat (length ws) (I64 ws)), off))
      else Inr (None, off))"

definition unpack_gradient ::
  "byte \<Rightarrow> bytes \<Rightarrow> nat \<Rightarrow>
     ((int \<times> int \<times> wire_array option \<times> wire_array option) \<times> nat) result" where
  "unpack_gradient flags data off =
     (if flags AND 2 \<noteq> 0
      then
        ebind (read_uint 8 data off) (\<lambda>(version, off).
        ebind (read_uint 8 data off) (\<lambda>(step, off).
        ebind (read_array 4 data off) (\<lambda>(ws, off).
        ebind (unpack_indices flags data off) (\<lambda>(idx, off).
        Inr ((version, step, Some (flat (length ws) (F32 ws)), idx), off)))))
      else Inr ((0, 0, None, None), off))"

definition unpack_payload :: "bytes \<Rightarrow> nat \<Rightarrow> bytes option result" where
  "unpack_payload data off =
     ebind (read_uint 4 data off) (\<lambda>(len, off).
     Inr (if len > 0 then Some (slice data off (nat len)) else None))"

definition unpack :: "bytes \<Rightarrow> wire_message result" where
  "unpack data =
     ebind (unpack_header data 0) (\<lambda>((ty, sender, sequence, timestamp), off).
     ebind (byte_at data off) (\<lambda>flags.
     ebind (unpack_target flags data (off + 1)) (\<lambda>(target, off).
     ebind (unpack_gradient flags data off) (\<lambda>((version, step, grad, idx), off).
     ebind (read_uint 4 data off) (\<lambda>(incarnation, off).
     ebind (unpack_payload data off) (\<lambda>pl.
     ebind (MessageType_of ty) (\<lambda>t.
     Inr \<lparr>msg_type = t, sender_id = sender, msg_sequence = sequence,
          msg_timestamp = timestamp, payload = pl, msg_metadata = [],
          gradient_data = grad, msg_indices = idx, msg_model_version = version,
          msg_step = step, target_id = target, msg_incarnation = incarnation\<rparr>)))))))"

end
