(* ===== verification/Message_Codec.thy ===== *)
theory Message_Codec
  imports Message
begin

unbundle bit_operations_syntax

text \<open>
  Correctness of \<open>GossipMessage.pack\<close> and \<open>unpack\<close>. The codec is proved through two
  interfaces: \<open>codec\<close> says that a reader at the right offset returns what the writer wrote
  and the offset behind it, \<open>reader\<close> that a read which stays inside the message does not
  depend on what follows. The first gives the round trip, the second what happens to a
  message that is cut short.
\<close>

section \<open>Round trip of the codec\<close>

text \<open>\<open>at_off data off rest\<close>: what is left of the message at an offset.\<close>

definition at_off :: "bytes \<Rightarrow> nat \<Rightarrow> bytes \<Rightarrow> bool" where
  "at_off data off rest \<longleftrightarrow> off \<le> length data \<and> drop off data = rest"

lemma at_off_start: "at_off data 0 data"
  by (simp add: at_off_def)

lemma at_off_append:
  assumes "at_off data off (bs @ rest)"
  shows "at_off data (off + length bs) rest"
proof -
  from assms have off: "off \<le> length data" and d: "drop off data = bs @ rest"
    by (auto simp: at_off_def)
  from d have "length data - off = length bs + length rest"
    by (metis length_append length_drop)
  moreover have "drop (off + length bs) data = drop (length bs) (drop off data)"
    by (simp add: add.commute)
  ultimately show ?thesis using off d by (simp add: at_off_def)
qed

lemma at_off_split:
  assumes "at_off data off rest"
  shows "\<exists>pre. data = pre @ rest \<and> off = length pre"
proof (intro exI conjI)
  show "data = take off data @ rest" and "off = length (take off data)"
    using assms by (auto simp: at_off_def)
qed

text \<open>
  The interface of one field of the message: what \<open>wr\<close> writes, \<open>rd\<close> reads back (up to
  \<open>norm\<close>), wherever the field stands in the message and whatever follows it.
\<close>

locale codec =
  fixes wr :: "'a \<Rightarrow> bytes result"
    and rd :: "bytes \<Rightarrow> nat \<Rightarrow> ('b \<times> nat) result"
    and norm :: "'a \<Rightarrow> 'b"
  assumes rd_wr: "wr x = Inr bs \<Longrightarrow> length data < 2 ^ 63 \<Longrightarrow> at_off data off (bs @ rest) \<Longrightarrow>
    rd data off = Inr (norm x, off + length bs)"
begin

lemma rd_last: "wr x = Inr bs \<Longrightarrow> length bs < 2 ^ 63 \<Longrightarrow> rd bs 0 = Inr (norm x, length bs)"
  using rd_wr [of x bs bs 0 "[]"] by (simp add: at_off_def)

lemma wr_inj:
  assumes "wr x = Inr bs" and "wr y = Inr bs" and "length bs < 2 ^ 63"
  shows "norm x = norm y"
  using rd_last [OF assms(1,3)] rd_last [OF assms(2,3)] by simp

end

text \<open>Two fields one after the other are again such an interface.\<close>

locale codec_pair = fst: codec wr1 rd1 norm1 + snd: codec wr2 rd2 norm2
  for wr1 :: "'a \<Rightarrow> bytes result" and rd1 :: "bytes \<Rightarrow> nat \<Rightarrow> ('b \<times> nat) result" and norm1
    and wr2 :: "'c \<Rightarrow> bytes result" and rd2 :: "bytes \<Rightarrow> nat \<Rightarrow> ('d \<times> nat) result" and norm2
begin

lemma rd_pair:
  assumes "wr1 x = Inr bs" and "wr2 y = Inr cs" and "length data < 2 ^ 63"
    and "at_off data off (bs @ cs @ rest)"
  shows "rd1 data off = Inr (norm1 x, off + length bs)"
    and "rd2 data (off + length bs) = Inr (norm2 y, off + length bs + length cs)"
    and "at_off data (off + length bs + length cs) rest"
proof -
  from assms(4) have at2: "at_off data (off + length bs) (cs @ rest)" by (rule at_off_append)
  show "rd1 data off = Inr (norm1 x, off + length bs)"
    using assms(1,3,4) by (rule fst.rd_wr)
  show "rd2 data (off + length bs) = Inr (norm2 y, off + length bs + length cs)"
    using assms(2,3) at2 by (rule snd.rd_wr)
  show "at_off data (off + length bs + length cs) rest"
    using at2 by (rule at_off_append)
qed

end

definition wr_f64 :: "64 word \<Rightarrow> bytes result" where
  "wr_f64 x = Inr (pack_f64 x)"

definition wr_str :: "pystr \<Rightarrow> bytes result" where
  "wr_str s =
     ebind (utf8_encode s) (\<lambda>b. ebind (pack_uint 2 (int (length b))) (\<lambda>len. Inr (len @ b)))"

interpretation uint: codec "pack_uint k" "read_uint k" "\<lambda>v. v" for k
proof unfold_locales
  fix v :: int and bs data rest :: bytes and off :: nat
  assume w: "pack_uint k v = Inr bs" and len: "length data < 2 ^ 63"
    and at: "at_off data off (bs @ rest)"
  obtain pre where pre: "data = pre @ bs @ rest" "off = length pre"
    using at_off_split [OF at] by blast
  with w len show "read_uint k data off = Inr (v, off + length bs)"
    by (simp add: read_uint_def unpack_pack_uint length_pack_uint)
qed

interpretation f64: codec wr_f64 read_f64 "\<lambda>v. v"
proof unfold_locales
  fix v :: "64 word" and bs data rest :: bytes and off :: nat
  assume w: "wr_f64 v = Inr bs" and len: "length data < 2 ^ 63"
    and at: "at_off data off (bs @ rest)"
  obtain pre where pre: "data = pre @ bs @ rest" "off = length pre"
    using at_off_split [OF at] by blast
  with w len show "read_f64 data off = Inr (v, off + length bs)"
    by (auto simp: read_f64_def wr_f64_def unpack_pack_f64)
qed

lemma slice_at: "at_off data off (bs @ rest) \<Longrightarrow> slice data off (length bs) = bs"
  by (simp add: at_off_def slice_def)

interpretation str: codec wr_str read_str "\<lambda>s. s"
proof unfold_locales
  fix s :: pystr and bs data rest :: bytes and off :: nat
  assume w: "wr_str s = Inr bs" and len: "length data < 2 ^ 63"
    and at: "at_off data off (bs @ rest)"
  from w obtain b l where b: "utf8_encode s = Inr b" and l: "pack_uint 2 (int (length b)) = Inr l"
    and bs: "bs = l @ b"
    by (auto simp: wr_str_def ebind_Inr_iff)
  from at have at: "at_off data off (l @ b @ rest)" by (simp add: bs)
  from at have "at_off data (off + length l) (b @ rest)" by (rule at_off_append)
  then have "slice data (off + length l) (length b) = b" by (rule slice_at)
  with uint.rd_wr [OF l len at] show "read_str data off = Inr (s, off + length bs)"
    by (simp add: read_str_def utf8_decode_encode [OF b] bs)
qed

text \<open>Arrays: a block of \<open>k\<close>-byte elements.\<close>

definition wr_array :: "nat \<Rightarrow> 'a::len word list \<Rightarrow> bytes result" where
  "wr_array k ws = pack_block (words_le k ws)"

lemma rd_wr_array:
  fixes ws :: "'a::len word list"
  assumes k: "(2::nat) ^ LENGTH('a) \<le> 256 ^ k" "0 < k"
    and w: "wr_array k ws = Inr bs" and len: "length data < 2 ^ 63"
    and at: "at_off data off (bs @ rest)"
  shows "read_array k data off = Inr (ws, off + length bs)"
proof -
  from w obtain l where l: "pack_uint 8 (int (length (words_le k ws))) = Inr l"
    and bs: "bs = l @ words_le k ws"
    by (auto simp: wr_array_def pack_block_def ebind_Inr_iff)
  from at have at: "at_off data off (l @ words_le k ws @ rest)" by (simp add: bs)
  from at have "at_off data (off + length l) (words_le k ws @ rest)" by (rule at_off_append)
  then have "slice data (off + length l) (length (words_le k ws)) = words_le k ws" by (rule slice_at)
  moreover have "frombuffer k (words_le k ws) = Inr ws" using k by (rule frombuffer_words_le)
  ultimately show ?thesis
    using uint.rd_wr [OF l len at] unfolding read_array_def bs
    by (simp del: length_words_le)
qed

interpretation f32s: codec "wr_array 4" "read_array 4" "\<lambda>ws :: 32 word list. ws"
  by unfold_locales (rule rd_wr_array; simp)

interpretation i64s: codec "wr_array 8" "read_array 8" "\<lambda>ws :: 64 word list. ws"
  by unfold_locales (rule rd_wr_array; simp)

interpretation two_uints: codec_pair "pack_uint k" "read_uint k" "\<lambda>v. v"
  "pack_uint l" "read_uint l" "\<lambda>v. v" for k l
  by unfold_locales


section \<open>The message comes back\<close>

fun is_F32 :: "npbuf \<Rightarrow> bool" where
  "is_F32 (F32 ws) = True"
| "is_F32 _ = False"

fun is_I64 :: "npbuf \<Rightarrow> bool" where
  "is_I64 (I64 ws) = True"
| "is_I64 _ = False"

text \<open>The dtypes \<open>unpack\<close> assumes: single-precision gradients and 64-bit indices.\<close>

definition wire_typed :: "wire_message \<Rightarrow> bool" where
  "wire_typed m \<longleftrightarrow>
     pred_option (\<lambda>g. is_F32 (nd_data g)) (gradient_data m) \<and>
     pred_option (\<lambda>i. is_I64 (nd_data i)) (msg_indices m)"

fun npbuf_len :: "npbuf \<Rightarrow> nat" where
  "npbuf_len (F32 ws) = length ws"
| "npbuf_len (F64 ws) = length ws"
| "npbuf_len (I32 ws) = length ws"
| "npbuf_len (I64 ws) = length ws"

definition flatten :: "wire_array \<Rightarrow> wire_array" where
  "flatten a = flat (npbuf_len (nd_data a)) (nd_data a)"

text \<open>
  What is left of a message after the wire: arrays lose their shape, an empty payload is
  no payload, the metadata dictionary is not sent, and without a gradient neither indices
  nor version nor step are sent.
\<close>

definition wire_image :: "wire_message \<Rightarrow> wire_message" where
  "wire_image m =
     m\<lparr>payload := (if payload_bytes m = [] then None else payload m),
       msg_metadata := [],
       gradient_data := map_option flatten (gradient_data m),
       msg_indices := (if gradient_data m = None then None else map_option flatten (msg_indices m)),
       msg_model_version := (if gradient_data m = None then 0 else msg_model_version m),
       msg_step := (if gradient_data m = None then 0 else msg_step m)\<rparr>"

lemma unpack_header_pack:
  assumes "pack_header m = Inr h" and len: "length data < 2 ^ 63" and at: "at_off data 0 (h @ rest)"
  shows "unpack_header data 0 =
    Inr ((mt_value (msg_type m), sender_id m, msg_sequence m, msg_timestamp m), length h)"
proof -
  from assms(1) obtain sb ty l q where
    sb: "utf8_encode (sender_id m) = Inr sb" and ty: "pack_uint 1 (mt_value (msg_type m)) = Inr ty"
    and l: "pack_uint 2 (int (length sb)) = Inr l" and q: "pack_uint 8 (msg_sequence m) = Inr q"
    and h: "h = ty @ (l @ sb) @ q @ pack_f64 (msg_timestamp m)"
    by (auto simp: pack_header_def ebind_Inr_iff)
  have str: "wr_str (sender_id m) = Inr (l @ sb)" by (simp add: wr_str_def sb l)
  have f: "wr_f64 (msg_timestamp m) = Inr (pack_f64 (msg_timestamp m))" by (simp add: wr_f64_def)
  note at1 = at [unfolded h append_assoc]
  note at2 = at_off_append [OF at1]
  note at3 = at_off_append [OF at2 [folded append_assoc [of l sb]]]
  note at4 = at_off_append [OF at3]
  show ?thesis
    using uint.rd_wr [OF ty len at1] str.rd_wr [OF str len at2 [folded append_assoc [of l sb]]]
      uint.rd_wr [OF q len at3] f64.rd_wr [OF f len at4]
    by (simp add: unpack_header_def h)
qed

definition target_field :: "wire_message \<Rightarrow> bytes \<Rightarrow> bool" where
  "target_field m t \<longleftrightarrow> (case target_id m of None \<Rightarrow> t = [] | Some s \<Rightarrow> wr_str s = Inr t)"

lemma pack_target_Inr:
  assumes "pack_target m (f, b) = Inr st"
  shows "\<exists>t. st = (if target_id m = None then f else f OR 1, b @ t) \<and> target_field m t"
  using assms
  by (auto simp: pack_target_def target_field_def wr_str_def ebind_Inr_iff split: option.splits)

lemma unpack_target_ok:
  assumes "target_field m t" and "(flags AND 1 \<noteq> 0) = (target_id m \<noteq> None)"
    and "length data < 2 ^ 63" and "at_off data off (t @ rest)"
  shows "unpack_target flags data off = Inr (target_id m, off + length t)"
  using assms str.rd_wr [of _ t data off rest]
  by (auto simp: target_field_def unpack_target_def split: option.splits)

definition index_field :: "wire_message \<Rightarrow> bytes \<Rightarrow> bool" where
  "index_field m t \<longleftrightarrow>
     (case msg_indices m of None \<Rightarrow> t = [] | Some a \<Rightarrow> pack_block (tobytes (nd_data a)) = Inr t)"

lemma pack_indices_Inr:
  assumes "pack_indices m (f, b) = Inr st"
  shows "\<exists>t. st = (if msg_indices m = None then f else f OR 4, b @ t) \<and> index_field m t"
  using assms by (auto simp: pack_indices_def index_field_def ebind_Inr_iff split: option.splits)

lemma unpack_indices_ok:
  assumes t: "index_field m t" and f: "(flags AND 4 \<noteq> 0) = (msg_indices m \<noteq> None)"
    and len: "length data < 2 ^ 63" and at: "at_off data off (t @ rest)" and ty: "wire_typed m"
  shows "unpack_indices flags data off = Inr (map_option flatten (msg_indices m), off + length t)"
proof (cases "msg_indices m")
  case None
  with t f show ?thesis by (simp add: index_field_def unpack_indices_def)
next
  case (Some a)
  with ty obtain ws where ws: "nd_data a = I64 ws"
    by (cases "nd_data a") (auto simp: wire_typed_def)
  with t Some have "wr_array 8 ws = Inr t" by (simp add: index_field_def wr_array_def)
  then have "read_array 8 data off = Inr (ws, off + length t)"
    using len at by (rule i64s.rd_wr)
  with Some f show ?thesis by (simp add: unpack_indices_def flatten_def ws)
qed

definition gradient_field :: "wire_message \<Rightarrow> wire_array \<Rightarrow> bytes \<Rightarrow> bytes \<Rightarrow> bytes \<Rightarrow> bytes \<Rightarrow> bool"
where
  "gradient_field m a v s g i \<longleftrightarrow>
     pack_uint 8 (msg_model_version m) = Inr v \<and> pack_uint 8 (msg_step m) = Inr s \<and>
     pack_block (tobytes (nd_data a)) = Inr g \<and> index_field m i"

lemma pack_gradient_Inr:
  assumes "pack_gradient m (f, b) = Inr st" and "gradient_data m = Some a"
  shows "\<exists>v s g i. st = (if msg_indices m = None then f OR 2 else (f OR 2) OR 4,
                          b @ v @ s @ g @ i) \<and> gradient_field m a v s g i"
  using assms
  by (fastforce simp: pack_gradient_def gradient_field_def ebind_Inr_iff dest!: pack_indices_Inr)

lemma unpack_gradient_ok:
  assumes field: "gradient_field m a v s g i" and a: "gradient_data m = Some a"
    and f: "flags AND 2 \<noteq> 0" "(flags AND 4 \<noteq> 0) = (msg_indices m \<noteq> None)"
    and len: "length data < 2 ^ 63" and at: "at_off data off (v @ s @ g @ i @ rest)"
    and ty: "wire_typed m"
  shows "unpack_gradient flags data off =
    Inr ((msg_model_version m, msg_step m, Some (flatten a), map_option flatten (msg_indices m)),
         off + length v + length s + length g + length i)"
proof -
  from field have v: "pack_uint 8 (msg_model_version m) = Inr v"
    and s: "pack_uint 8 (msg_step m) = Inr s" and g: "pack_block (tobytes (nd_data a)) = Inr g"
    and i: "index_field m i" by (auto simp: gradient_field_def)
  from ty a obtain ws where ws: "nd_data a = F32 ws"
    by (cases "nd_data a") (auto simp: wire_typed_def)
  with g have g: "wr_array 4 ws = Inr g" by (simp add: wr_array_def)
  note vs = two_uints.rd_pair [OF v s len at]
  note at4 = at_off_append [OF vs(3)]
  show ?thesis
    using vs(1,2) f32s.rd_wr [OF g len vs(3)] unpack_indices_ok [OF i f(2) len at4 ty] f(1)
    by (simp add: unpack_gradient_def flatten_def ws)
qed

text \<open>The gradient section of the message and its reading, with or without a gradient.\<close>

definition gradient_reads :: "wire_message \<Rightarrow> byte \<Rightarrow> bytes \<Rightarrow> bool" where
  "gradient_reads m flags gr \<longleftrightarrow>
     (\<forall>data off rest. length data < 2 ^ 63 \<longrightarrow> at_off data off (gr @ rest) \<longrightarrow>
        unpack_gradient flags data off =
          Inr ((msg_model_version (wire_image m), msg_step (wire_image m),
                gradient_data (wire_image m), msg_indices (wire_image m)), off + length gr))"

lemma pack_gradient_section:
  assumes "pack_gradient m (f, b) = Inr (flags, meta)" and "wire_typed m"
    and f: "f = 0 \<or> f = 1"
  shows "\<exists>gr. meta = b @ gr \<and> (flags AND 1 \<noteq> 0) = (f = 1) \<and> gradient_reads m flags gr"
proof (cases "gradient_data m")
  case None
  with assms(1) have "flags = f" and "meta = b" by (simp_all add: pack_gradient_def)
  with f None show ?thesis
    by (auto simp: unpack_gradient_def wire_image_def gradient_reads_def)
next
  case (Some a)
  from pack_gradient_Inr [OF assms(1) Some] obtain v s g i where
    flags: "flags = (if msg_indices m = None then f OR 2 else (f OR 2) OR 4)"
    and meta: "meta = b @ v @ s @ g @ i" and field: "gradient_field m a v s g i"
    by blast
  have fl: "flags AND 2 \<noteq> 0" "(flags AND 4 \<noteq> 0) = (msg_indices m \<noteq> None)"
    "(flags AND 1 \<noteq> 0) = (f = 1)"
    using f by (auto simp: flags)
  have "gradient_reads m flags (v @ s @ g @ i)"
    unfolding gradient_reads_def
    using unpack_gradient_ok [OF field Some fl(1,2) _ _ assms(2)]
    by (simp add: wire_image_def Some add.assoc)
  with meta fl(3) show ?thesis by blast
qed

lemma unpack_payload_ok:
  assumes "pack_uint 4 (int (length p)) = Inr l" and "length data < 2 ^ 63"
    and at: "at_off data off (l @ rest)"
  shows "unpack_payload data off = Inr (if p = [] then None else Some (take (length p) rest))"
proof -
  have "slice data (off + length l) (length p) = take (length p) rest"
    using at_off_append [OF at] by (simp add: at_off_def slice_def)
  with uint.rd_wr [OF assms] show ?thesis by (simp add: unpack_payload_def)
qed

lemma pack_layout:
  assumes "pack m = Inr bs" and "wire_typed m"
  obtains h flags t gr inc l where "pack_header m = Inr h"
    and "target_field m t" and "(flags AND 1 \<noteq> 0) = (target_id m \<noteq> None)"
    and "pack_uint 4 (msg_incarnation m) = Inr inc"
    and "pack_uint 4 (int (length (payload_bytes m))) = Inr l"
    and "bs = h @ [flags] @ t @ gr @ inc @ l @ payload_bytes m"
    and "gradient_reads m flags gr"
proof -
  from assms(1) obtain h st flags meta inc l where h: "pack_header m = Inr h"
    and st: "pack_target m (0, []) = Inr st" and gr: "pack_gradient m st = Inr (flags, meta)"
    and inc: "pack_uint 4 (msg_incarnation m) = Inr inc"
    and l: "pack_uint 4 (int (length (payload_bytes m))) = Inr l"
    and bs: "bs = h @ [flags] @ (meta @ inc) @ l @ payload_bytes m"
    by (auto simp: pack_def ebind_Inr_iff)
  from pack_target_Inr [OF st] obtain t where
    st': "st = (if target_id m = None then 0 else 1, t)" and t: "target_field m t"
    by auto
  from pack_gradient_section [OF gr [unfolded st'] assms(2)] obtain g where
    "meta = t @ g" and "(flags AND 1 \<noteq> 0) = (target_id m \<noteq> None)" and "gradient_reads m flags g"
    by (cases "target_id m") auto
  with that [OF h t _ inc l, of flags g] bs show thesis by auto
qed

lemma wire_image_keeps:
  "msg_type (wire_image m) = msg_type m" "sender_id (wire_image m) = sender_id m"
  "msg_sequence (wire_image m) = msg_sequence m" "msg_timestamp (wire_image m) = msg_timestamp m"
  "target_id (wire_image m) = target_id m" "msg_incarnation (wire_image m) = msg_incarnation m"
  "msg_metadata (wire_image m) = []"
  by (simp_all add: wire_image_def)

text \<open>
  A packed message is a body and the payload; the body alone determines everything that
  \<open>unpack\<close> returns except the payload, which is cut out of whatever follows the body.
\<close>

lemma unpack_body:
  assumes "pack m = Inr bs" and ty: "wire_typed m"
  shows "\<exists>body. bs = body @ payload_bytes m \<and>
    (\<forall>rest. length (body @ rest) < 2 ^ 63 \<longrightarrow>
       unpack (body @ rest) = Inr ((wire_image m)
         \<lparr>payload := if payload_bytes m = [] then None
                     else Some (take (length (payload_bytes m)) rest)\<rparr>))"
proof -
  from pack_layout [OF assms(1,2)] obtain h flags t gr inc l where h: "pack_header m = Inr h"
    and t: "target_field m t" and f: "(flags AND 1 \<noteq> 0) = (target_id m \<noteq> None)"
    and inc: "pack_uint 4 (msg_incarnation m) = Inr inc"
    and l: "pack_uint 4 (int (length (payload_bytes m))) = Inr l"
    and bs: "bs = h @ [flags] @ t @ gr @ inc @ l @ payload_bytes m"
    and gr: "gradient_reads m flags gr"
    by metis
  define body where "body = h @ [flags] @ t @ gr @ inc @ l"
  have "unpack (body @ rest) = Inr ((wire_image m)
         \<lparr>payload := if payload_bytes m = [] then None
                     else Some (take (length (payload_bytes m)) rest)\<rparr>)"
    if "length (body @ rest) < 2 ^ 63" for rest
  proof -
    define data where "data = body @ rest"
    have len: "length data < 2 ^ 63" using that by (simp add: data_def)
    have at0: "at_off data 0 (h @ [flags] @ t @ gr @ inc @ l @ rest)"
      using at_off_start by (simp add: data_def body_def)
    note at1 = at_off_append [OF at0]
    note at2 = at_off_append [OF at1]
    note at3 = at_off_append [OF at2]
    note at4 = at_off_append [OF at3]
    note at5 = at_off_append [OF at4]
    have fl: "byte_at data (length h) = Inr flags" by (simp add: data_def body_def)
    show ?thesis
      using unpack_header_pack [OF h len at0] fl unpack_target_ok [OF t f len at2]
        gr [unfolded gradient_reads_def, rule_format, OF len at3]
        uint.rd_wr [OF inc len at4] unpack_payload_ok [OF l len at5]
      by (simp add: unpack_def data_def [symmetric] wire_image_keeps)
  qed
  moreover have "bs = body @ payload_bytes m" by (simp add: bs body_def)
  ultimately show ?thesis by blast
qed

section \<open>Truncated messages\<close>

text \<open>
  A reader never moves backwards, and what it returned without running past the end of
  the message it also returns when more bytes follow.
\<close>

locale reader =
  fixes rd :: "bytes \<Rightarrow> nat \<Rightarrow> ('a \<times> nat) result"
  assumes forward: "rd data off = Inr (x, off') \<Longrightarrow> off \<le> off'"
    and extend: "rd data off = Inr (x, off') \<Longrightarrow> off' \<le> length data \<Longrightarrow>
      rd (data @ extra) off = Inr (x, off')"
begin

text \<open>A successful read of a proper prefix ends where the read of the whole message ends.\<close>

lemma prefix_agrees:
  assumes "rd (data @ extra) off = Inr (x, off')" and "rd data off = Inr (y, off'')"
    and "off'' \<le> length data"
  shows "y = x \<and> off'' = off'"
  using assms extend [OF assms(2,3), of extra] by simp

end

lemma reader_return: "reader (\<lambda>data off. Inr (x, off))"
  by unfold_locales simp_all

lemma reader_fail: "reader (\<lambda>data off. Inl e)"
  by unfold_locales simp_all

lemma reader_bind:
  assumes "reader rd" and "\<And>x. reader (f x)"
  shows "reader (\<lambda>data off. ebind (rd data off) (\<lambda>(x, off). f x data off))"
proof unfold_locales
  fix data extra :: bytes and off off' :: nat and y
  assume r: "ebind (rd data off) (\<lambda>(x, off). f x data off) = Inr (y, off')"
  then obtain x o1 where x: "rd data off = Inr (x, o1)" and y: "f x data o1 = Inr (y, off')"
    by (auto simp: ebind_Inr_iff)
  have le: "off \<le> o1" "o1 \<le> off'"
    using reader.forward [OF assms(1) x] reader.forward [OF assms(2) y] by auto
  then show "off \<le> off'" by simp
  assume "off' \<le> length data"
  with le x y show "ebind (rd (data @ extra) off) (\<lambda>(x, off). f x (data @ extra) off) = Inr (y, off')"
    using reader.extend [OF assms(1) x] reader.extend [OF assms(2) y] by simp
qed

lemma reader_if: "reader r1 \<Longrightarrow> reader r2 \<Longrightarrow> reader (\<lambda>data off. if b then r1 data off else r2 data off)"
  by (cases b) simp_all

lemma slice_more [simp]: "off + n \<le> length data \<Longrightarrow> slice (data @ extra) off n = slice data off n"
  by (simp add: slice_def)

lemma reader_uint: "reader (read_uint k)"
  by unfold_locales (auto simp: read_uint_def unpack_uint_def split: if_splits)

lemma reader_f64: "reader read_f64"
  by unfold_locales (auto simp: read_f64_def unpack_f64_def unpack_uint_def split: if_splits)

text \<open>A length-prefixed slice that a function decodes.\<close>

lemma reader_sliced: "reader (\<lambda>data off. ebind (dec (slice data off n)) (\<lambda>x. Inr (x, off + n)))"
  by unfold_locales (auto simp: ebind_Inr_iff)

lemma reader_str: "reader read_str"
  unfolding read_str_def [abs_def] by (rule reader_bind [OF reader_uint reader_sliced])

lemma reader_array: "reader (read_array k)"
  unfolding read_array_def [abs_def] by (rule reader_bind [OF reader_uint reader_sliced])

definition read_byte :: "bytes \<Rightarrow> nat \<Rightarrow> (byte \<times> nat) result" where
  "read_byte data off = ebind (byte_at data off) (\<lambda>b. Inr (b, off + 1))"

lemma reader_byte: "reader read_byte"
  by unfold_locales (auto simp: read_byte_def byte_at_def nth_append split: if_splits)

lemmas reader_intros = reader_return reader_fail reader_bind reader_if reader_uint reader_f64
  reader_str reader_array reader_byte

text \<open>\<open>unpack\<close> up to and including the length of the payload, as one reader.\<close>

definition unpack_fields ::
  "bytes \<Rightarrow> nat \<Rightarrow> (((int \<times> pystr \<times> int \<times> 64 word) \<times> pystr option \<times>
     (int \<times> int \<times> wire_array option \<times> wire_array option) \<times> int \<times> int) \<times> nat) result" where
  "unpack_fields data off =
     ebind (unpack_header data off) (\<lambda>(hdr, off).
     ebind (read_byte data off) (\<lambda>(flags, off).
     ebind (unpack_target flags data off) (\<lambda>(target, off).
     ebind (unpack_gradient flags data off) (\<lambda>(grad, off).
     ebind (read_uint 4 data off) (\<lambda>(incarnation, off).
     ebind (read_uint 4 data off) (\<lambda>(len, off).
     Inr ((hdr, target, grad, incarnation, len), off)))))))"

lemma unpack_needs_fields:
  "unpack data = Inr m \<Longrightarrow> \<exists>x off. unpack_fields data 0 = Inr (x, off)"
  by (fastforce simp: unpack_def unpack_fields_def unpack_payload_def read_byte_def ebind_Inr_iff)

lemma unpack_fields_end: "unpack_fields data 0 = Inr (x, off) \<Longrightarrow> off \<le> length data"
  by (auto simp: unpack_fields_def ebind_Inr_iff read_uint_def unpack_uint_def split: if_splits)

lemma reader_header: "reader unpack_header"
  unfolding unpack_header_def [abs_def] by (intro reader_intros)

lemma reader_target: "reader (unpack_target flags)"
  unfolding unpack_target_def [abs_def] by (intro reader_intros)

lemma reader_gradient: "reader (unpack_gradient flags)"
  unfolding unpack_gradient_def [abs_def] unpack_indices_def [abs_def] by (intro reader_intros)

lemma reader_fields: "reader unpack_fields"
  unfolding unpack_fields_def [abs_def]
  by (intro reader_intros reader_header reader_target reader_gradient)

interpretation fields: reader unpack_fields
  by (rule reader_fields)

lemma unpack_fields_body:
  assumes "pack m = Inr bs" and ty: "wire_typed m" and "length bs < 2 ^ 63"
  shows "\<exists>body x. bs = body @ payload_bytes m \<and> unpack_fields body 0 = Inr (x, length body)"
proof -
  from pack_layout [OF assms(1,2)] obtain h flags t gr inc l where h: "pack_header m = Inr h"
    and t: "target_field m t" and f: "(flags AND 1 \<noteq> 0) = (target_id m \<noteq> None)"
    and inc: "pack_uint 4 (msg_incarnation m) = Inr inc"
    and l: "pack_uint 4 (int (length (payload_bytes m))) = Inr l"
    and bs: "bs = h @ [flags] @ t @ gr @ inc @ l @ payload_bytes m"
    and gr: "gradient_reads m flags gr"
    by metis
  define body where "body = h @ [flags] @ t @ gr @ inc @ l"
  have len: "length body < 2 ^ 63" using assms(3) by (simp add: bs body_def)
  have at0: "at_off body 0 (h @ [flags] @ t @ gr @ inc @ l @ [])"
    using at_off_start by (simp add: body_def)
  note at1 = at_off_append [OF at0]
  note at2 = at_off_append [OF at1]
  note at3 = at_off_append [OF at2]
  note at4 = at_off_append [OF at3]
  note at5 = at_off_append [OF at4]
  have fl: "read_byte body (length h) = Inr (flags, length h + 1)"
    by (simp add: read_byte_def body_def)
  have "\<exists>x. unpack_fields body 0 = Inr (x, 0 + length h + length [flags] + length t + length gr
      + length inc + length l)"
    using unpack_header_pack [OF h len at0] fl unpack_target_ok [OF t f len at2]
      gr [unfolded gradient_reads_def, rule_format, OF len at3]
      uint.rd_wr [OF inc len at4] uint.rd_wr [OF l len at5]
    by (simp add: unpack_fields_def)
  moreover have "0 + length h + length [flags] + length t + length gr + length inc + length l
      = length body" by (simp add: body_def)
  moreover have "bs = body @ payload_bytes m" by (simp add: bs body_def)
  ultimately show ?thesis by metis
qed

lemma unpack_cut_body:
  assumes "pack m = Inr bs" and "wire_typed m" and "length bs < 2 ^ 63"
    and k: "k + length (payload_bytes m) < length bs"
  shows "\<exists>e. unpack (take k bs) = Inl e"
proof (rule ccontr)
  assume "\<not> ?thesis"
  then obtain m' where "unpack (take k bs) = Inr m'" by (cases "unpack (take k bs)") auto
  then obtain y off where y: "unpack_fields (take k bs) 0 = Inr (y, off)"
    using unpack_needs_fields by blast
  from unpack_fields_body [OF assms(1-3)] obtain body x where
    bs: "bs = body @ payload_bytes m" and x: "unpack_fields body 0 = Inr (x, length body)"
    by blast
  have cut: "take k bs @ drop k body = body" and short: "length (take k bs) < length body"
    using k by (simp_all add: bs)
  have le: "off \<le> length (take k bs)" by (rule unpack_fields_end [OF y])
  have "off = length body"
    using fields.prefix_agrees [of "take k bs" "drop k body", unfolded cut, OF x y le]
    by (rule conjunct2)
  with le short show False by linarith
qed

section \<open>When packing succeeds\<close>

definition str_ok :: "pystr \<Rightarrow> bool" where
  "str_ok s \<longleftrightarrow> list_all scalar s \<and> length (concat (map utf8_cp s)) < 2 ^ 16"

definition block_ok :: "wire_array \<Rightarrow> bool" where
  "block_ok a \<longleftrightarrow> length (tobytes (nd_data a)) < 2 ^ 64"

definition pack_ok :: "wire_message \<Rightarrow> bool" where
  "pack_ok m \<longleftrightarrow>
     str_ok (sender_id m) \<and> 0 \<le> msg_sequence m \<and> msg_sequence m < 2 ^ 64 \<and>
     pred_option str_ok (target_id m) \<and>
     pred_option (\<lambda>g. 0 \<le> msg_model_version m \<and> msg_model_version m < 2 ^ 64 \<and>
        0 \<le> msg_step m \<and> msg_step m < 2 ^ 64 \<and> block_ok g \<and>
        pred_option block_ok (msg_indices m)) (gradient_data m) \<and>
     0 \<le> msg_incarnation m \<and> msg_incarnation m < 2 ^ 32 \<and> length (payload_bytes m) < 2 ^ 32"

definition succeeds :: "'a result \<Rightarrow> bool" where
  "succeeds r \<longleftrightarrow> (\<exists>x. r = Inr x)"

lemma succeeds_simps [simp]:
  "succeeds (Inr x)" "\<not> succeeds (Inl e)"
  by (simp_all add: succeeds_def)

lemma succeeds_ebind: "succeeds (ebind r f) \<longleftrightarrow> (\<exists>x. r = Inr x \<and> succeeds (f x))"
  by (cases r) simp_all

lemma ex_Inr [simp]: "(\<exists>x. r = Inr x) \<longleftrightarrow> succeeds r"
  by (simp add: succeeds_def)

lemma succeeds_uint: "succeeds (pack_uint k v) \<longleftrightarrow> 0 \<le> v \<and> v < 256 ^ k"
  by (auto simp: pack_uint_def)

lemma succeeds_str:
  "(\<exists>b. utf8_encode s = Inr b \<and> int (length b) < 65536) \<longleftrightarrow> str_ok s"
  by (auto simp: utf8_encode_def str_ok_def simp del: length_concat split: if_splits)

lemmas succeeds_intros = succeeds_ebind succeeds_uint succeeds_str

lemma succeeds_header:
  "succeeds (pack_header m) \<longleftrightarrow>
     str_ok (sender_id m) \<and> 0 \<le> msg_sequence m \<and> msg_sequence m < 2 ^ 64"
  using mt_value_range [of "msg_type m"] succeeds_str [of "sender_id m"]
  by (auto simp: pack_header_def succeeds_ebind succeeds_uint)

lemma succeeds_block: "succeeds (pack_block (tobytes (nd_data a))) \<longleftrightarrow> block_ok a"
  by (simp add: pack_block_def succeeds_intros block_ok_def)

lemma succeeds_target: "succeeds (pack_target m st) \<longleftrightarrow> pred_option str_ok (target_id m)"
proof (cases "target_id m")
  case None
  then show ?thesis by (simp add: pack_target_def)
next
  case (Some s)
  then show ?thesis
    using succeeds_str [of s] by (auto simp: pack_target_def succeeds_ebind succeeds_uint)
qed

lemma succeeds_indices: "succeeds (pack_indices m st) \<longleftrightarrow> pred_option block_ok (msg_indices m)"
  by (cases "msg_indices m") (simp_all add: pack_indices_def succeeds_intros succeeds_block)

lemma succeeds_gradient:
  "succeeds (pack_gradient m st) \<longleftrightarrow>
     pred_option (\<lambda>g. 0 \<le> msg_model_version m \<and> msg_model_version m < 2 ^ 64 \<and>
        0 \<le> msg_step m \<and> msg_step m < 2 ^ 64 \<and> block_ok g \<and>
        pred_option block_ok (msg_indices m)) (gradient_data m)"
  by (cases "gradient_data m")
    (simp_all add: pack_gradient_def succeeds_ebind succeeds_uint succeeds_block
      succeeds_indices)

lemma succeeds_pack: "succeeds (pack m) \<longleftrightarrow> pack_ok m"
  by (simp add: pack_def pack_ok_def succeeds_ebind succeeds_uint succeeds_header
      succeeds_gradient succeeds_target case_prod_beta del: split_paired_Ex cong: conj_cong)

lemma unpack_pack_exact:
  assumes "pack m = Inr bs" and "wire_typed m" and len: "length (bs @ junk) < 2 ^ 63"
  shows "unpack (bs @ junk) = Inr (wire_image m)"
proof -
  from unpack_body [OF assms(1,2)] obtain body where bs: "bs = body @ payload_bytes m"
    and u: "\<And>rest. length (body @ rest) < 2 ^ 63 \<Longrightarrow> unpack (body @ rest) = Inr ((wire_image m)
         \<lparr>payload := if payload_bytes m = [] then None
                     else Some (take (length (payload_bytes m)) rest)\<rparr>)"
    by blast
  have same: "x = payload x' \<Longrightarrow> x'\<lparr>payload := x\<rparr> = x'" for x and x' :: wire_message by simp
  have img: "payload_bytes m = [] \<Longrightarrow> (wire_image m)\<lparr>payload := None\<rparr> = wire_image m"
    "payload_bytes m \<noteq> [] \<Longrightarrow> (wire_image m)\<lparr>payload := Some (payload_bytes m)\<rparr> = wire_image m"
    by (rule same; cases "payload m"; simp add: wire_image_def payload_bytes_def)+
  show ?thesis
    using u [of "payload_bytes m @ junk"] len by (cases "payload_bytes m = []") (simp_all add: bs img)
qed

text \<open>The length of a packed message, up to the identifiers and the fixed fields.\<close>

definition array_bytes :: "wire_array option \<Rightarrow> nat" where
  "array_bytes a = (case a of None \<Rightarrow> 0 | Some x \<Rightarrow> length (tobytes (nd_data x)))"

lemma length_pack_str:
  assumes "str_ok s" and "utf8_encode s = Inr b"
  shows "length b < 2 ^ 16"
  using assms by (auto simp: str_ok_def utf8_encode_def simp del: length_concat)

lemma length_pack_gradient:
  assumes "pack_gradient m st = Inr (flags, meta)"
  shows "length meta \<le> length (snd st) + 32 + array_bytes (gradient_data m) + array_bytes (msg_indices m)"
  using assms
  by (auto simp: pack_gradient_def pack_indices_def pack_block_def ebind_Inr_iff array_bytes_def
      dest!: length_pack_uint split: option.splits)

lemma length_pack:
  assumes "pack m = Inr bs"
  shows "length bs < 2 ^ 18 + array_bytes (gradient_data m) + array_bytes (msg_indices m) +
    length (payload_bytes m)"
proof -
  have "pack_ok m" using assms succeeds_pack [of m] by (simp add: succeeds_def)
  then have ok: "str_ok (sender_id m)" "pred_option str_ok (target_id m)" by (simp_all add: pack_ok_def)
  from assms obtain h st flags meta inc l where h: "pack_header m = Inr h"
    and st: "pack_target m (0, []) = Inr st" and gr: "pack_gradient m st = Inr (flags, meta)"
    and inc: "pack_uint 4 (msg_incarnation m) = Inr inc"
    and l: "pack_uint 4 (int (length (payload_bytes m))) = Inr l"
    and bs: "bs = h @ [flags] @ (meta @ inc) @ l @ payload_bytes m"
    by (auto simp: pack_def ebind_Inr_iff)
  have "length h < 2 ^ 17"
    using h length_pack_str [OF ok(1)] by (auto simp: pack_header_def ebind_Inr_iff dest!: length_pack_uint)
  moreover have "length (snd st) < 2 ^ 16 + 3"
    using st ok(2) length_pack_str
    by (cases "target_id m") (fastforce simp: pack_target_def ebind_Inr_iff dest!: length_pack_uint)+
  ultimately show ?thesis
    using length_pack_gradient [OF gr] length_pack_uint [OF inc] length_pack_uint [OF l]
    by (simp add: bs)
qed

lemma control_message_bytes:
  assumes "pack m = Inr bs" and "gradient_data m = None" and "payload m = None"
    and "msg_indices m = None"
  shows "length bs < 2 ^ 63"
  using length_pack [OF assms(1)] assms(2-4) by (simp add: array_bytes_def payload_bytes_def)

section \<open>A concrete message\<close>

definition demo_message :: wire_message where
  "demo_message =
     \<lparr>msg_type = PUSH_GRADIENT, sender_id = [97], msg_sequence = 7, msg_timestamp = 0,
      payload = Some [1, 2], msg_metadata = [], gradient_data = Some (flat 1 (F32 [0x3F800000])),
      msg_indices = Some (flat 1 (I64 [5])), msg_model_version = 3, msg_step = 4,
      target_id = None, msg_incarnation = 1\<rparr>"

definition demo_bytes :: bytes where
  "demo_bytes =
     [10, 0, 1, 97, 0, 0, 0, 0, 0, 0, 0, 7, 0, 0, 0, 0, 0, 0, 0, 0, 6,
      0, 0, 0, 0, 0, 0, 0, 3, 0, 0, 0, 0, 0, 0, 0, 4, 0, 0, 0, 0, 0, 0, 0, 4, 0, 0, 128, 63,
      0, 0, 0, 0, 0, 0, 0, 8, 5, 0, 0, 0, 0, 0, 0, 0, 0, 0, 0, 1, 0, 0, 0, 2, 1, 2]"

lemma demo_packed: "pack demo_message = Inr demo_bytes"
  by (simp add: demo_message_def demo_bytes_def pack_def pack_header_def utf8_encode_def scalar_def
      utf8_cp_def pack_uint_def be_bytes_def pack_f64_def pack_target_def pack_gradient_def
      pack_indices_def pack_block_def flat_def payload_bytes_def byte_of_def le_bytes_numeral)

lemma demo_typed: "wire_typed demo_message"
  by (simp add: demo_message_def wire_typed_def flat_def)

lemma demo_lengths: "length demo_bytes = 75" "payload_bytes demo_message = [1, 2]"
  by (simp_all add: demo_bytes_def demo_message_def payload_bytes_def)

section \<open>Properties\<close>

text \<open>
  C31. Every message whose identifiers are encodable and whose numbers fit their fields is
  packed, and no other: the outcome of \<open>pack\<close> is decided by these ranges alone.
\<close>

theorem pack_succeeds_iff: "(\<exists>bs. pack m = Inr bs) \<longleftrightarrow> pack_ok m"
  by (simp add: succeeds_pack)

text \<open>
  C4. Unpacking a packed message returns the message, up to what the format does not carry
  (\<open>wire_image\<close>), whatever bytes follow it, provided the gradient is single precision and
  the indices are 64 bit, as \<open>unpack\<close> assumes.
\<close>

theorem unpack_pack:
  assumes "pack m = Inr bs" and "wire_typed m" and "length (bs @ junk) < 2 ^ 63"
  shows "unpack (bs @ junk) = Inr (wire_image m)"
  using assms by (rule unpack_pack_exact)

theorem unpack_pack_witness:
  "pack demo_message = Inr demo_bytes \<and> unpack (demo_bytes @ [9]) = Inr (wire_image demo_message)"
proof
  show "unpack (demo_bytes @ [9]) = Inr (wire_image demo_message)"
    by (rule unpack_pack [OF demo_packed demo_typed]) (simp add: demo_lengths)
qed (rule demo_packed)

text \<open>
  C32. What \<open>unpack\<close> makes of a message of which only the first \<open>k\<close> bytes arrived: a cut
  before the payload is always an error, a cut inside the payload is not noticed and
  returns the message with a shorter payload.
\<close>

theorem unpack_truncated:
  assumes "pack m = Inr bs" and "wire_typed m" and "length bs < 2 ^ 63" and "k \<le> length bs"
  shows "if k + length (payload_bytes m) < length bs
    then \<exists>e. unpack (take k bs) = Inl e
    else unpack (take k bs) = Inr ((wire_image m)
      \<lparr>payload := if payload_bytes m = [] then None
         else Some (take (k + length (payload_bytes m) - length bs) (payload_bytes m))\<rparr>)"
proof (cases "k + length (payload_bytes m) < length bs")
  case True
  with unpack_cut_body [OF assms(1-3)] show ?thesis by simp
next
  case False
  from unpack_body [OF assms(1,2)] obtain body where bs: "bs = body @ payload_bytes m"
    and u: "\<And>rest. length (body @ rest) < 2 ^ 63 \<Longrightarrow> unpack (body @ rest) = Inr ((wire_image m)
         \<lparr>payload := if payload_bytes m = [] then None
                     else Some (take (length (payload_bytes m)) rest)\<rparr>)"
    by blast
  have "take k bs = body @ take (k + length (payload_bytes m) - length bs) (payload_bytes m)"
    using False by (simp add: bs)
  with u assms(3,4) False show ?thesis by (simp add: bs)
qed

theorem unpack_truncated_witness:
  "(\<exists>e. unpack (take 40 demo_bytes) = Inl e) \<and>
   unpack (take 74 demo_bytes) = Inr ((wire_image demo_message)\<lparr>payload := Some [1]\<rparr>)"
  using unpack_truncated [OF demo_packed demo_typed, of 40]
    unpack_truncated [OF demo_packed demo_typed, of 74]
  by (simp add: demo_lengths)

text \<open>
  The control messages built by the factories survive the wire unchanged: packing
  succeeds and unpacking returns exactly the message.
\<close>

lemma control_message_roundtrip:
  assumes "str_ok sender" and "str_ok target" and "0 \<le> sequence" and "sequence < 2 ^ 64"
    and "m = create_ping now sender sequence target \<or> m = create_ack now sender sequence target"
  shows "\<exists>bs. pack m = Inr bs \<and> unpack bs = Inr m"
proof -
  from assms(5) obtain ty where
    m: "m = (new_message ty sender sequence now)\<lparr>target_id := Some target\<rparr>"
    by (auto simp: create_ping_def create_ack_def)
  have fields: "sender_id m = sender" "target_id m = Some target" "gradient_data m = None"
    "payload m = None" "msg_indices m = None" "msg_metadata m = []" "msg_model_version m = 0"
    "msg_step m = 0" "msg_incarnation m = 0" "msg_sequence m = sequence"
    by (simp_all add: m new_message_def)
  have m: "str_ok (sender_id m)" "pred_option str_ok (target_id m)" "gradient_data m = None"
    "payload m = None" "pack_ok m" "wire_typed m"
    using assms(1-4) by (simp_all add: fields pack_ok_def wire_typed_def payload_bytes_def)
  have img: "wire_image m = m"
    by (rule gossip_message.equality) (simp_all add: wire_image_def fields payload_bytes_def)
  obtain bs where bs: "pack m = Inr bs"
    using succeeds_pack [of m] m(5) unfolding succeeds_def by blast
  from img unpack_pack_exact [OF bs m(6), of "[]"] control_message_bytes [OF bs m(3,4) fields(5)]
  have "unpack bs = Inr m" by simp
  with bs show ?thesis by blast
qed


lemma control_message_roundtrip_witness:
  "\<exists>bs. pack (create_ping 5 [97] 1 [98, 233]) = Inr bs \<and>
        unpack bs = Inr (create_ping 5 [97] 1 [98, 233])"
  by (rule control_message_roundtrip [where now = 5 and sender = "[97]" and target = "[98, 233]" and sequence = 1])
    (simp_all add: str_ok_def scalar_def utf8_cp_def)

end
