(* ===== verification/Peer.thy ===== *)
theory Peer
  imports Prelude
begin

text \<open>
  \<open>gossip/peer.py\<close>: the health states of a peer, the peer record, the three marking
  operations with their incarnation guards, the latency average, locality, and the
  conversion to and from dictionaries. \<open>time.time()\<close> is an argument \<open>now\<close>.
\<close>

section \<open>State and record\<close>

datatype peer_state = PS_ALIVE | PS_SUSPECT | PS_DEAD | PS_LEFT

definition peer_state_value :: "peer_state \<Rightarrow> pystr" where
  "peer_state_value s =
     (case s of PS_ALIVE \<Rightarrow> lit ''alive'' | PS_SUSPECT \<Rightarrow> lit ''suspect''
      | PS_DEAD \<Rightarrow> lit ''dead'' | PS_LEFT \<Rightarrow> lit ''left'')"

text \<open>\<open>PeerState(v)\<close> raises \<open>ValueError\<close> for an unknown value.\<close>

definition peer_state_of :: "pystr \<Rightarrow> peer_state result" where
  "peer_state_of v =
     (case find (\<lambda>s. peer_state_value s = v) [PS_ALIVE, PS_SUSPECT, PS_DEAD, PS_LEFT] of
        None \<Rightarrow> Inl ValueError | Some s \<Rightarrow> Inr s)"

record peer =
  p_id :: pystr
  p_host :: pystr
  p_port :: int
  p_state :: peer_state
  p_incarnation :: int
  p_last_seen :: real
  p_metadata :: pydict
  p_model_version :: int
  p_gradient_timestamp :: real
  p_datacenter :: "pystr option"
  p_rack :: "pystr option"
  p_latency_ms :: pyfloat

text \<open>The constructor with its defaults.\<close>

definition new_peer :: "real \<Rightarrow> pystr \<Rightarrow> pystr \<Rightarrow> int \<Rightarrow> peer" where
  "new_peer now i host port =
     \<lparr>p_id = i, p_host = host, p_port = port, p_state = PS_ALIVE, p_incarnation = 0,
      p_last_seen = now, p_metadata = [], p_model_version = 0, p_gradient_timestamp = 0,
      p_datacenter = None, p_rack = None, p_latency_ms = PInf\<rparr>"

definition is_alive :: "peer \<Rightarrow> bool" where
  "is_alive p \<longleftrightarrow> p_state p = PS_ALIVE"

definition is_suspect :: "peer \<Rightarrow> bool" where
  "is_suspect p \<longleftrightarrow> p_state p = PS_SUSPECT"

definition is_dead :: "peer \<Rightarrow> bool" where
  "is_dead p \<longleftrightarrow> p_state p \<in> {PS_DEAD, PS_LEFT}"

section \<open>Address\<close>

text \<open>The decimal digits of a port, as an f-string prints an integer.\<close>

fun nat_digits :: "nat \<Rightarrow> pystr" where
  "nat_digits n = (if n < 10 then [48 + n] else nat_digits (n div 10) @ [48 + n mod 10])"

declare nat_digits.simps [simp del]

definition int_str :: "int \<Rightarrow> pystr" where
  "int_str i = (if i < 0 then 45 # nat_digits (nat (- i)) else nat_digits (nat i))"

definition host_port :: "pystr \<Rightarrow> int \<Rightarrow> pystr" where
  "host_port host port = host @ [58] @ int_str port"

definition address :: "peer \<Rightarrow> pystr" where
  "address p = host_port (p_host p) (p_port p)"

section \<open>Marking\<close>

definition mark_alive :: "real \<Rightarrow> int option \<Rightarrow> peer \<Rightarrow> peer \<times> bool" where
  "mark_alive now inc p =
     (if (case inc of None \<Rightarrow> False | Some i \<Rightarrow> i \<le> p_incarnation p) then (p, False)
      else
        let p1 = (case inc of None \<Rightarrow> p | Some i \<Rightarrow> p\<lparr>p_incarnation := i\<rparr>);
            old_state = p_state p1
        in (p1\<lparr>p_state := PS_ALIVE, p_last_seen := now\<rparr>, old_state \<noteq> PS_ALIVE))"

definition mark_suspect :: "int option \<Rightarrow> peer \<Rightarrow> peer \<times> bool" where
  "mark_suspect inc p =
     (if (case inc of None \<Rightarrow> False | Some i \<Rightarrow> i < p_incarnation p) then (p, False)
      else if p_state p = PS_ALIVE then (p\<lparr>p_state := PS_SUSPECT\<rparr>, True)
      else (p, False))"

definition mark_dead :: "int option \<Rightarrow> peer \<Rightarrow> peer \<times> bool" where
  "mark_dead inc p =
     (if (case inc of None \<Rightarrow> False | Some i \<Rightarrow> i < p_incarnation p) then (p, False)
      else if p_state p \<noteq> PS_DEAD then (p\<lparr>p_state := PS_DEAD\<rparr>, True)
      else (p, False))"

section \<open>Latency and locality\<close>

definition update_latency :: "real \<Rightarrow> real \<Rightarrow> peer \<Rightarrow> peer" where
  "update_latency latency_ms alpha p =
     (case p_latency_ms p of
        PInf \<Rightarrow> p\<lparr>p_latency_ms := Fin latency_ms\<rparr>
      | Fin old \<Rightarrow> p\<lparr>p_latency_ms := Fin (alpha * latency_ms + (1 - alpha) * old)\<rparr>)"

definition is_local :: "peer \<Rightarrow> peer \<Rightarrow> bool" where
  "is_local p q \<longleftrightarrow>
     (if p_datacenter p = None \<or> p_datacenter q = None then False
      else p_datacenter p = p_datacenter q)"

definition is_same_rack :: "peer \<Rightarrow> peer \<Rightarrow> bool" where
  "is_same_rack p q \<longleftrightarrow> is_local p q \<and> p_rack p = p_rack q"

text \<open>\<open>__eq__\<close> compares identifiers.\<close>

definition peer_eq :: "peer \<Rightarrow> peer \<Rightarrow> bool" where
  "peer_eq p q \<longleftrightarrow> p_id p = p_id q"

section \<open>Dictionaries\<close>

definition val_opt :: "pystr option \<Rightarrow> pyval" where
  "val_opt x = (case x of None \<Rightarrow> VNone | Some s \<Rightarrow> VStr s)"

definition to_dict :: "peer \<Rightarrow> pydict" where
  "to_dict p =
     [(lit ''id'', VStr (p_id p)), (lit ''host'', VStr (p_host p)), (lit ''port'', VInt (p_port p)),
      (lit ''state'', VStr (peer_state_value (p_state p))),
      (lit ''incarnation'', VInt (p_incarnation p)), (lit ''last_seen'', VFloat (p_last_seen p)),
      (lit ''model_version'', VInt (p_model_version p)),
      (lit ''datacenter'', val_opt (p_datacenter p)), (lit ''rack'', val_opt (p_rack p))]"

text \<open>
  Reading a dictionary: \<open>data[k]\<close> raises \<open>KeyError\<close>, \<open>data.get(k, d)\<close> does not. The
  dataclass does not check types; dictionaries whose values have other types than
  \<open>to_dict\<close> writes would give a peer the record cannot represent and are \<open>TypeError\<close> here.
\<close>

definition item :: "pydict \<Rightarrow> pystr \<Rightarrow> pyval result" where
  "item d k = (case map_of d k of None \<Rightarrow> Inl KeyError | Some v \<Rightarrow> Inr v)"

definition item_or :: "pydict \<Rightarrow> pystr \<Rightarrow> pyval \<Rightarrow> pyval" where
  "item_or d k v = (case map_of d k of None \<Rightarrow> v | Some w \<Rightarrow> w)"

fun as_str :: "pyval \<Rightarrow> pystr result" where
  "as_str (VStr s) = Inr s"
| "as_str _ = Inl TypeError"

fun as_int :: "pyval \<Rightarrow> int result" where
  "as_int (VInt i) = Inr i"
| "as_int _ = Inl TypeError"

fun as_float :: "pyval \<Rightarrow> real result" where
  "as_float (VFloat x) = Inr x"
| "as_float _ = Inl TypeError"

fun as_opt :: "pyval \<Rightarrow> pystr option result" where
  "as_opt VNone = Inr None"
| "as_opt (VStr s) = Inr (Some s)"
| "as_opt _ = Inl TypeError"

definition from_dict :: "real \<Rightarrow> pydict \<Rightarrow> peer result" where
  "from_dict now d =
     ebind (ebind (item d (lit ''id'')) as_str) (\<lambda>i.
     ebind (ebind (item d (lit ''host'')) as_str) (\<lambda>host.
     ebind (ebind (item d (lit ''port'')) as_int) (\<lambda>port.
     ebind (ebind (as_str (item_or d (lit ''state'') (VStr (lit ''alive'')))) peer_state_of) (\<lambda>state.
     ebind (as_int (item_or d (lit ''incarnation'') (VInt 0))) (\<lambda>incarnation.
     ebind (as_float (item_or d (lit ''last_seen'') (VFloat now))) (\<lambda>last_seen.
     ebind (as_int (item_or d (lit ''model_version'') (VInt 0))) (\<lambda>model_version.
     ebind (as_opt (item_or d (lit ''datacenter'') VNone)) (\<lambda>datacenter.
     ebind (as_opt (item_or d (lit ''rack'') VNone)) (\<lambda>rack.
     Inr ((new_peer now i host port)
       \<lparr>p_state := state, p_incarnation := incarnation, p_last_seen := last_seen,
        p_model_version := model_version, p_datacenter := datacenter, p_rack := rack\<rparr>))))))))))"

section \<open>Facts about the marks\<close>

text \<open>Only the marks' own fields change.\<close>

lemma mark_frame [frame_simps, simp]:
  "p_id (fst (mark_alive now inc p)) = p_id p"
  "p_id (fst (mark_suspect inc p)) = p_id p"
  "p_id (fst (mark_dead inc p)) = p_id p"
  "p_incarnation (fst (mark_suspect inc p)) = p_incarnation p"
  "p_incarnation (fst (mark_dead inc p)) = p_incarnation p"
  "p_id (update_latency l a p) = p_id p"
  "p_state (update_latency l a p) = p_state p"
  "p_incarnation (update_latency l a p) = p_incarnation p"
  "p_datacenter (fst (mark_alive now inc p)) = p_datacenter p"
  by (simp_all add: mark_alive_def mark_suspect_def mark_dead_def update_latency_def Let_def
      split: option.splits pyfloat.splits)

lemma mark_alive_incarnation:
  "p_incarnation (fst (mark_alive now inc p)) =
     (case inc of None \<Rightarrow> p_incarnation p | Some i \<Rightarrow> max i (p_incarnation p))"
  by (auto simp: mark_alive_def Let_def split: option.splits)

lemma mark_alive_state:
  "p_state (fst (mark_alive now inc p)) =
     (if (case inc of None \<Rightarrow> True | Some i \<Rightarrow> p_incarnation p < i) then PS_ALIVE else p_state p)"
  by (auto simp: mark_alive_def Let_def split: option.splits)

lemma mark_suspect_state:
  "p_state (fst (mark_suspect inc p)) =
     (if p_state p = PS_ALIVE \<and> (case inc of None \<Rightarrow> True | Some i \<Rightarrow> p_incarnation p \<le> i)
      then PS_SUSPECT else p_state p)"
  by (auto simp: mark_suspect_def split: option.splits)

lemma mark_dead_state:
  "p_state (fst (mark_dead inc p)) =
     (if (case inc of None \<Rightarrow> True | Some i \<Rightarrow> p_incarnation p \<le> i) then PS_DEAD else p_state p)"
  by (auto simp: mark_dead_def split: option.splits)

lemmas mark_states = mark_alive_state mark_suspect_state mark_dead_state mark_alive_incarnation

lemma mark_reports_change:
  "snd (mark_alive now inc p) \<longleftrightarrow> p_state (fst (mark_alive now inc p)) \<noteq> p_state p"
  "snd (mark_suspect inc p) \<longleftrightarrow> p_state (fst (mark_suspect inc p)) \<noteq> p_state p"
  "snd (mark_dead inc p) \<longleftrightarrow> p_state (fst (mark_dead inc p)) \<noteq> p_state p"
  by (auto simp: mark_alive_def mark_suspect_def mark_dead_def Let_def split: option.splits)

section \<open>Life of a peer\<close>

text \<open>
  The three operations with their arguments: the time, for a confirmation of life, and the
  incarnation, which callers may leave out.
\<close>

datatype mark = MAlive real "int option" | MSuspect "int option" | MDead "int option"

fun apply_mark :: "mark \<Rightarrow> peer \<Rightarrow> peer" where
  "apply_mark (MAlive now inc) p = fst (mark_alive now inc p)"
| "apply_mark (MSuspect inc) p = fst (mark_suspect inc p)"
| "apply_mark (MDead inc) p = fst (mark_dead inc p)"

definition apply_marks :: "mark list \<Rightarrow> peer \<Rightarrow> peer" where
  "apply_marks ms p = fold apply_mark ms p"

text \<open>
  A mark is stale for a peer when it speaks of an earlier incarnation; a confirmation of life
  also when it speaks of the present one. A bare confirmation carries no incarnation.
\<close>

fun stale_mark :: "int \<Rightarrow> mark \<Rightarrow> bool" where
  "stale_mark j (MAlive now inc) \<longleftrightarrow> (case inc of None \<Rightarrow> False | Some i \<Rightarrow> i \<le> j)"
| "stale_mark j (MSuspect inc) \<longleftrightarrow> (case inc of None \<Rightarrow> False | Some i \<Rightarrow> i < j)"
| "stale_mark j (MDead inc) \<longleftrightarrow> (case inc of None \<Rightarrow> False | Some i \<Rightarrow> i < j)"

fun bare :: "mark \<Rightarrow> bool" where
  "bare (MAlive now inc) \<longleftrightarrow> inc = None"
| "bare (MSuspect inc) \<longleftrightarrow> False"
| "bare (MDead inc) \<longleftrightarrow> False"

text \<open>The incarnations that a mark confirms to be alive.\<close>

fun confirms :: "mark \<Rightarrow> int list" where
  "confirms (MAlive now (Some i)) = [i]"
| "confirms _ = []"

text \<open>
  Precedence in the sense of SWIM: first the incarnation, then the severity of the state.
\<close>

fun severity :: "peer_state \<Rightarrow> nat" where
  "severity PS_ALIVE = 0"
| "severity PS_SUSPECT = 1"
| "severity PS_LEFT = 2"
| "severity PS_DEAD = 3"

definition outranks :: "peer \<Rightarrow> peer \<Rightarrow> bool" where
  "outranks q p \<longleftrightarrow>
     p_incarnation p < p_incarnation q \<or>
     (p_incarnation p = p_incarnation q \<and> severity (p_state p) \<le> severity (p_state q))"

lemma outranks_refl: "outranks p p"
  by (simp add: outranks_def)

lemma outranks_trans: "outranks r q \<Longrightarrow> outranks q p \<Longrightarrow> outranks r p"
  by (auto simp: outranks_def)

lemma severity_le_dead: "severity s \<le> 3"
  by (cases s) simp_all

lemma outranks_mark: "\<not> bare m \<Longrightarrow> outranks (apply_mark m p) p"
proof (cases m)
  case (MAlive now inc)
  assume "\<not> bare m"
  with MAlive obtain i where "inc = Some i" by auto
  with MAlive show ?thesis by (auto simp: outranks_def mark_states)
next
  case (MSuspect inc)
  then show ?thesis by (auto simp: outranks_def mark_states)
next
  case (MDead inc)
  then show ?thesis by (auto simp: outranks_def mark_states severity_le_dead)
qed

lemma apply_marks_Nil: "apply_marks [] p = p"
  by (simp add: apply_marks_def)

lemma apply_marks_Cons: "apply_marks (m # ms) p = apply_marks ms (apply_mark m p)"
  by (simp add: apply_marks_def)

lemma outranks_marks: "\<not> list_ex bare ms \<Longrightarrow> outranks (apply_marks ms p) p"
proof (induction ms arbitrary: p)
  case Nil
  show ?case by (simp add: apply_marks_def outranks_refl)
next
  case (Cons m ms)
  with outranks_mark [of m p] show ?case
    by (auto simp: apply_marks_Cons intro: outranks_trans)
qed

lemma mark_incarnation:
  "p_incarnation (apply_mark m p) = fold max (confirms m) (p_incarnation p)"
  by (cases m) (auto simp: mark_states split: option.split)

lemma marks_incarnation:
  "p_incarnation (apply_marks ms p) = fold max (concat (map confirms ms)) (p_incarnation p)"
  by (induction ms arbitrary: p) (simp_all add: apply_marks_Nil apply_marks_Cons mark_incarnation)

lemma fold_max_ge: "j \<le> fold max is (j :: int)"
proof (induction "is" arbitrary: j)
  case (Cons i "is")
  have "j \<le> max i j" by simp
  also have "\<dots> \<le> fold max is (max i j)" by (rule Cons)
  finally show ?case by simp
qed simp

lemma stale_mark_ignored: "stale_mark (p_incarnation p) m \<Longrightarrow> apply_mark m p = p"
  by (cases m) (auto simp: mark_alive_def mark_suspect_def mark_dead_def split: option.splits)

lemma stale_mark_mono: "stale_mark j m \<Longrightarrow> j \<le> j' \<Longrightarrow> stale_mark j' m"
  by (cases m) (auto split: option.splits)

lemma stale_marks_ignored:
  "j \<le> p_incarnation p \<Longrightarrow> apply_marks (filter (\<lambda>m. \<not> stale_mark j m) ms) p = apply_marks ms p"
proof (induction ms arbitrary: p)
  case (Cons m ms)
  show ?case
  proof (cases "stale_mark j m")
    case True
    then have "apply_mark m p = p"
      by (rule stale_mark_ignored [OF stale_mark_mono [OF _ Cons.prems]])
    with True Cons show ?thesis by (simp add: apply_marks_Cons)
  next
    case False
    have "j \<le> p_incarnation (apply_mark m p)"
      using Cons.prems fold_max_ge [of "p_incarnation p" "confirms m"] by (simp add: mark_incarnation)
    with False Cons.IH show ?thesis by (simp add: apply_marks_Cons)
  qed
qed simp

lemma is_dead_severity: "is_dead p \<longleftrightarrow> 2 \<le> severity (p_state p)"
  by (cases "p_state p") (auto simp: is_dead_def)

section \<open>Addresses\<close>

lemma nat_digits_range: "d \<in> set (nat_digits n) \<Longrightarrow> 48 \<le> d \<and> d < 58"
proof (induction n rule: nat_digits.induct)
  case (1 n)
  then show ?case by (subst (asm) nat_digits.simps) (auto split: if_splits)
qed

lemma nat_digits_nonempty: "nat_digits n \<noteq> []"
  by (subst nat_digits.simps) simp

definition digits_val :: "pystr \<Rightarrow> nat" where
  "digits_val ds = foldl (\<lambda>v d. 10 * v + (d - 48)) 0 ds"

lemma digits_val_nat_digits: "digits_val (nat_digits n) = n"
proof (induction n rule: nat_digits.induct)
  case (1 n)
  show ?case
  proof (cases "n < 10")
    case True
    then show ?thesis by (subst nat_digits.simps) (simp add: digits_val_def)
  next
    case False
    with "1.IH" have "digits_val (nat_digits (n div 10)) = n div 10" by simp
    then show ?thesis using False
      by (subst nat_digits.simps) (simp add: digits_val_def)
  qed
qed

lemma nat_digits_inj: "nat_digits m = nat_digits n \<Longrightarrow> m = n"
  by (metis digits_val_nat_digits)

lemma nat_digits_no_sign: "45 # ds \<noteq> nat_digits n"
  using nat_digits_range [of 45 n] by (metis list.set_intros(1) numeral_le_iff semiring_norm)

lemma int_str_inj: "int_str i = int_str j \<Longrightarrow> i = j"
  using nat_digits_no_sign nat_digits_no_sign [symmetric]
  by (auto simp: int_str_def dest!: nat_digits_inj split: if_splits)

lemma int_str_no_colon: "58 \<notin> set (int_str i)"
  using nat_digits_range [of 58] by (auto simp: int_str_def)

lemma append_last_separator:
  assumes "xs @ c # ys = xs' @ c # ys'" and "c \<notin> set ys" and "c \<notin> set ys'"
  shows "xs = xs' \<and> ys = ys'"
proof -
  from assms(1) have "rev ys @ c # rev xs = rev ys' @ c # rev xs'"
    by (metis append.assoc append_Cons append_Nil rev.simps(2) rev_append)
  moreover have "takeWhile (\<lambda>x. x \<noteq> c) (rev zs @ c # ws) = rev zs" if "c \<notin> set zs" for zs ws
    using that by (induction zs rule: rev_induct) auto
  ultimately have "rev ys = rev ys'" using assms(2,3) by metis
  with assms(1) show ?thesis by simp
qed

section \<open>Properties\<close>

text \<open>
  C22. Along any sequence of calls of \<open>mark_alive\<close>, \<open>mark_suspect\<close> and \<open>mark_dead\<close>: the
  incarnation becomes the largest one confirmed alive and never decreases; calls with an
  incarnation that is stale at the beginning (older than recorded, for \<open>mark_alive\<close> not newer)
  have no effect wherever they come; unless \<open>mark_alive\<close> is called without an incarnation the
  peer only moves up in SWIM's precedence, incarnation first, then severity; so a dead peer
  that is no longer dead has a strictly higher incarnation or has had such a call.
\<close>

theorem marks_monotone:
  "p_incarnation (apply_marks ms p) = fold max (concat (map confirms ms)) (p_incarnation p) \<and>
   p_incarnation p \<le> p_incarnation (apply_marks ms p) \<and>
   apply_marks (filter (\<lambda>m. \<not> stale_mark (p_incarnation p) m) ms) p = apply_marks ms p \<and>
   (\<not> list_ex bare ms \<longrightarrow> outranks (apply_marks ms p) p) \<and>
   (is_dead p \<and> \<not> is_dead (apply_marks ms p) \<longrightarrow>
      p_incarnation p < p_incarnation (apply_marks ms p) \<or> list_ex bare ms)"
  using outranks_marks [of ms p] fold_max_ge stale_marks_ignored
  by (auto simp: marks_incarnation outranks_def is_dead_severity)

theorem marks_monotone_witness:
  "let p = (new_peer 0 (lit ''a'') (lit ''h'') 1)\<lparr>p_state := PS_DEAD, p_incarnation := 3\<rparr>;
       q = apply_marks [MAlive 1 (Some 3), MSuspect None, MAlive 2 (Some 5)] p
   in is_dead p \<and> \<not> is_dead q \<and> p_incarnation p < p_incarnation q \<and>
      apply_marks [MSuspect (Some 2), MDead (Some 1), MAlive 1 (Some 3)] (p\<lparr>p_state := PS_ALIVE\<rparr>) =
        p\<lparr>p_state := PS_ALIVE\<rparr>"
proof -
  define p where "p = (new_peer 0 (lit ''a'') (lit ''h'') 1)\<lparr>p_state := PS_DEAD, p_incarnation := 3\<rparr>"
  define ms where "ms = [MAlive 1 (Some 3), MSuspect None, MAlive 2 (Some 5)]"
  have "is_dead p" and "\<not> is_dead (apply_marks ms p)" and "\<not> list_ex bare ms"
    by (simp_all add: p_def ms_def new_peer_def is_dead_def apply_marks_def mark_alive_def
        mark_suspect_def)
  then have "p_incarnation p < p_incarnation (apply_marks ms p)"
    using marks_monotone [of ms p] by blast
  moreover have "apply_marks [MSuspect (Some 2), MDead (Some 1), MAlive 1 (Some 3)] (p\<lparr>p_state := PS_ALIVE\<rparr>) =
      p\<lparr>p_state := PS_ALIVE\<rparr>"
    using marks_monotone [of "[MSuspect (Some 2), MDead (Some 1), MAlive 1 (Some 3)]" "p\<lparr>p_state := PS_ALIVE\<rparr>"]
    by (simp add: p_def) (simp add: apply_marks_def)
  ultimately show ?thesis
    using \<open>is_dead p\<close> \<open>\<not> is_dead (apply_marks ms p)\<close>
    unfolding Let_def p_def [symmetric] ms_def [symmetric] by blast
qed

text \<open>
  The order in which updates arrive decides the outcome: a suspicion of incarnation
  \<open>j\<close> and a confirmation of an older incarnation \<open>i\<close> leave a live peer alive when the
  suspicion comes first and suspected when it comes last, because \<open>mark_suspect\<close> does not
  record the incarnation it accepts.
\<close>

lemma marks_do_not_commute:
  assumes "p_state p = PS_ALIVE" and "p_incarnation p < i" and "i \<le> j"
  shows "p_state (apply_marks [MSuspect (Some j), MAlive now (Some i)] p) = PS_ALIVE \<and>
    p_state (apply_marks [MAlive now (Some i), MSuspect (Some j)] p) = PS_SUSPECT"
  using assms by (simp_all add: apply_marks_def mark_states)

lemma marks_do_not_commute_witness:
  "p_state (apply_marks [MSuspect (Some 5), MAlive 1 (Some 3)] (new_peer 0 [97] [98] 1)) = PS_ALIVE \<and>
   p_state (apply_marks [MAlive 1 (Some 3), MSuspect (Some 5)] (new_peer 0 [97] [98] 1)) = PS_SUSPECT"
  using marks_do_not_commute [of "new_peer 0 [97] [98] 1" 3 5 1] by (simp add: new_peer_def)

text \<open>
  A peer written to a dictionary is read back with every field the dictionary holds;
  metadata, gradient time stamp and latency return to their defaults.
\<close>

lemma from_dict_to_dict:
  "from_dict now (to_dict p) =
     Inr (p\<lparr>p_metadata := [], p_gradient_timestamp := 0, p_latency_ms := PInf\<rparr>)"
proof -
  have state: "peer_state_of (peer_state_value s) = Inr s" for s
    by (cases s) (simp_all add: peer_state_of_def peer_state_value_def lit_def)
  have opt: "as_opt (val_opt x) = Inr x" for x
    by (cases x) (simp_all add: val_opt_def)
  show ?thesis
    by (simp add: from_dict_def to_dict_def item_def item_or_def lit_def state opt new_peer_def)
qed

text \<open>
  Addresses determine host and port: the identifiers that \<open>Agent.add_peer\<close> makes up
  from them never collide, even if a host contains colons.
\<close>

lemma address_injective:
  assumes "address p = address q"
  shows "p_host p = p_host q \<and> p_port p = p_port q"
  using assms append_last_separator [of "p_host p" 58 "int_str (p_port p)" "p_host q" "int_str (p_port q)"]
  by (auto simp: address_def host_port_def int_str_no_colon dest: int_str_inj)

lemma address_injective_witness:
  "address ((new_peer 0 [97] [58] 8)\<lparr>p_rack := Some [99]\<rparr>) = address (new_peer 1 [98] [58] 8) \<and>
   p_port ((new_peer 0 [97] [58] 8)\<lparr>p_rack := Some [99]\<rparr>) = p_port (new_peer 1 [98] [58] 8)"
proof -
  have "address ((new_peer 0 [97] [58] 8)\<lparr>p_rack := Some [99]\<rparr>) = address (new_peer 1 [98] [58] 8)"
    by (simp add: address_def new_peer_def)
  with address_injective [OF this] show ?thesis by simp
qed

text \<open>
  Repeating the same latency \<open>l\<close> moves the average towards it geometrically: after
  \<open>n\<close> updates the distance has shrunk by the factor \<open>(1 - alpha) ^ n\<close>.
\<close>

lemma latency_converges:
  assumes "p_latency_ms p = Fin x"
  shows "p_latency_ms ((update_latency l alpha ^^ n) p) = Fin (l + (1 - alpha) ^ n * (x - l))"
proof (induction n)
  case 0
  show ?case using assms by simp
next
  case (Suc n)
  then show ?case by (simp add: update_latency_def algebra_simps)
qed

lemma latency_converges_witness:
  "p_latency_ms ((update_latency 50 (1/2) ^^ 2) ((new_peer 0 [97] [98] 1)\<lparr>p_latency_ms := Fin 100\<rparr>))
     = Fin (50 + (1 - 1/2) ^ 2 * (100 - 50))"
  by (rule latency_converges) simp

end
