(* ===== verification/Directory.thy ===== *)
theory Directory
  imports Peer
begin

text \<open>
  The interface between the membership manager and its clients (the gossip protocol and
  the probe): a listing of references to live peers with pairwise different identifiers.
  The lemmas say what a client may conclude about the selections it makes from a listing.
\<close>

type_synonym ref = nat

locale peer_directory =
  fixes inv :: "'s \<Rightarrow> bool"
    and listing :: "'s \<Rightarrow> ref list"
    and peer_at :: "'s \<Rightarrow> ref \<Rightarrow> peer"
  assumes listed_alive: "inv s \<Longrightarrow> r \<in> set (listing s) \<Longrightarrow> is_alive (peer_at s r)"
    and listed_ids: "inv s \<Longrightarrow> distinct (map (\<lambda>r. p_id (peer_at s r)) (listing s))"
begin

abbreviation ident :: "'s \<Rightarrow> ref \<Rightarrow> pystr" where
  "ident s r \<equiv> p_id (peer_at s r)"

lemma listed_distinct: "inv s \<Longrightarrow> distinct (listing s)"
  using listed_ids [of s] by (simp add: distinct_map)

lemma same_id_same_ref:
  "inv s \<Longrightarrow> r \<in> set (listing s) \<Longrightarrow> r' \<in> set (listing s) \<Longrightarrow> ident s r = ident s r' \<Longrightarrow> r = r'"
  using listed_ids [of s] by (auto simp: distinct_map dest: inj_onD)

lemma filtered_ids: "inv s \<Longrightarrow> distinct (map (ident s) (filter P (listing s)))"
  using listed_ids [of s] by (simp add: distinct_map_filter)

text \<open>A sample of a part of the listing: different live peers of that part.\<close>

lemma sampled:
  assumes "inv s" and "py_sample ds (filter P (listing s)) k = Inr rs"
  shows "distinct (map (ident s) rs)" and "set rs \<subseteq> set (filter P (listing s))"
    and "int (length rs) = k" and "\<forall>r \<in> set rs. is_alive (peer_at s r)"
proof -
  show "distinct (map (ident s) rs)"
    using assms(2) filtered_ids [OF assms(1)] by (rule py.sample_distinct_map)
  show sub: "set rs \<subseteq> set (filter P (listing s))"
    using assms(2) by (rule py.sample_subset)
  show "int (length rs) = k" using assms(2) by (rule py.sample_length)
  show "\<forall>r \<in> set rs. is_alive (peer_at s r)"
    using sub listed_alive [OF assms(1)] by auto
qed

text \<open>Excluding peers by identifier is the same as excluding the references.\<close>

lemma exclude_by_id:
  assumes "inv s" and "set sel \<subseteq> set (listing s)" and "r \<in> set (listing s)"
  shows "(\<exists>q \<in> set sel. peer_eq (peer_at s r) (peer_at s q)) \<longleftrightarrow> r \<in> set sel"
proof
  assume "\<exists>q \<in> set sel. peer_eq (peer_at s r) (peer_at s q)"
  then obtain q where q: "q \<in> set sel" "ident s r = ident s q" by (auto simp: peer_eq_def)
  from q(1) assms(2) have "q \<in> set (listing s)" by (rule set_mp [rotated])
  then have "r = q" by (rule same_id_same_ref [OF assms(1,3) _ q(2)])
  with q(1) show "r \<in> set sel" by simp
qed (auto simp: peer_eq_def)

end

end
