(* ===== verification/Membership.thy ===== *)
theory Membership
  imports Directory Message
begin

text \<open>
  \<open>gossip/membership.py\<close>: the state of \<open>MembershipManager\<close> and its operations, each as a
  function on the state. Peers are mutable objects that the dictionary and running
  coroutines share, so the state has a heap of peers and everything else refers to them by
  reference. Between two suspension points a coroutine runs without interruption; the
  functions here are these pieces, \<open>Membership_Run\<close> puts them together. \<open>time.time()\<close> is
  an argument \<open>now\<close>, the outcomes of \<open>random\<close> are an argument \<open>ds\<close>. The optional
  callbacks are observed: a call appends a notice with the peer as it was passed.
\<close>

section \<open>State\<close>

type_synonym rarray = "real list ndarray"
type_synonym iarray = "int list ndarray"
type_synonym gmsg = "(real, rarray, iarray) gossip_message"


record probe_state =
  pr_target_id :: pystr
  pr_sequence :: int
  pr_start_time :: real
  pr_indirect_targets :: "pystr list"
  pr_acked :: bool

datatype notice = OnAlive peer | OnSuspect peer | OnDead peer

text \<open>
  The last three fields are not attributes of the class: the timers the event loop has
  armed (handle, peer, deadline), the next timer handle, and the callbacks made.
\<close>

record membership =
  heap :: "ref \<Rightarrow> peer"
  local_ref :: ref
  probe_interval_ms :: int
  probe_timeout_ms :: int
  indirect_probes :: int
  suspicion_mult :: int
  has_on_alive :: bool
  has_on_suspect :: bool
  has_on_dead :: bool
  peers :: "(pystr \<times> ref) list"
  sequence_num :: int
  pending_probes :: "(int \<times> probe_state) list"
  updates_queue :: "gmsg list"
  suspicion_timers :: "(pystr \<times> nat) list"
  armed :: "(nat \<times> pystr \<times> real) list"
  next_handle :: nat
  notices :: "notice list"

text \<open>
  The constructor: dictionaries and queue empty, no sequence number used. \<open>cb\<close> says which
  of the three callbacks are given.
\<close>

definition new_membership ::
  "(ref \<Rightarrow> peer) \<Rightarrow> ref \<Rightarrow> int \<Rightarrow> int \<Rightarrow> int \<Rightarrow> int \<Rightarrow> bool \<times> bool \<times> bool \<Rightarrow> membership" where
  "new_membership h local_peer interval timeout indirect susp cb =
     \<lparr>heap = h, local_ref = local_peer, probe_interval_ms = interval,
      probe_timeout_ms = timeout, indirect_probes = indirect, suspicion_mult = susp,
      has_on_alive = fst cb, has_on_suspect = fst (snd cb), has_on_dead = snd (snd cb),
      peers = [], sequence_num = 0, pending_probes = [], updates_queue = [],
      suspicion_timers = [], armed = [], next_handle = 0, notices = []\<rparr>"

definition local_peer :: "membership \<Rightarrow> peer" where
  "local_peer s = heap s (local_ref s)"

definition set_peer :: "ref \<Rightarrow> peer \<Rightarrow> membership \<Rightarrow> membership" where
  "set_peer r p s = s\<lparr>heap := (heap s)(r := p)\<rparr>"

definition notify :: "bool \<Rightarrow> notice \<Rightarrow> membership \<Rightarrow> membership" where
  "notify given n s = (if given then s\<lparr>notices := notices s @ [n]\<rparr> else s)"

section \<open>The peer table\<close>

definition add_peer :: "ref \<Rightarrow> membership \<Rightarrow> membership \<times> bool" where
  "add_peer r s =
     (let peer = heap s r in
      case map_of (peers s) (p_id peer) of
        Some existing \<Rightarrow>
          (if p_incarnation peer > p_incarnation (heap s existing)
           then (s\<lparr>peers := AList.update (p_id peer) r (peers s)\<rparr>, True)
           else (s, False))
      | None \<Rightarrow> (s\<lparr>peers := AList.update (p_id peer) r (peers s)\<rparr>, True))"

definition remove_peer :: "pystr \<Rightarrow> membership \<Rightarrow> membership \<times> ref option" where
  "remove_peer pid s =
     (case map_of (peers s) pid of
        Some r \<Rightarrow> (s\<lparr>peers := AList.delete pid (peers s)\<rparr>, Some r)
      | None \<Rightarrow> (s, None))"

definition get_peer :: "pystr \<Rightarrow> membership \<Rightarrow> ref option" where
  "get_peer pid s = map_of (peers s) pid"

definition get_all_peers :: "membership \<Rightarrow> ref list" where
  "get_all_peers s = map snd (peers s)"

definition get_alive_peers :: "membership \<Rightarrow> ref list" where
  "get_alive_peers s = filter (\<lambda>r. is_alive (heap s r)) (map snd (peers s))"

definition select_random_peers ::
  "nat list \<Rightarrow> int \<Rightarrow> pystr list \<Rightarrow> membership \<Rightarrow> ref list result" where
  "select_random_peers ds n exclude s =
     (let candidates = filter (\<lambda>r. is_alive (heap s r) \<and> p_id (heap s r) \<notin> set exclude)
                         (map snd (peers s))
      in if int (length candidates) \<le> n then Inr candidates
         else py_sample ds candidates n)"

section \<open>Sequence numbers and the queue of updates\<close>

definition next_sequence :: "membership \<Rightarrow> membership \<times> int" where
  "next_sequence s = (s\<lparr>sequence_num := sequence_num s + 1\<rparr>, sequence_num s + 1)"

definition enqueue_update :: "gmsg \<Rightarrow> membership \<Rightarrow> membership" where
  "enqueue_update m s = s\<lparr>updates_queue := updates_queue s @ [m]\<rparr>"

definition get_pending_updates :: "int \<Rightarrow> membership \<Rightarrow> membership \<times> gmsg list" where
  "get_pending_updates max_updates s =
     (s\<lparr>updates_queue := py_from (updates_queue s) max_updates\<rparr>,
      py_upto (updates_queue s) max_updates)"

definition broadcast_alive :: "real \<Rightarrow> membership \<Rightarrow> membership" where
  "broadcast_alive now s =
     (let (s1, sequence) = next_sequence s;
          me = local_peer s1
      in enqueue_update
           ((new_message ALIVE (p_id me) sequence now)
              \<lparr>target_id := Some (p_id me), msg_incarnation := p_incarnation me\<rparr>) s1)"

section \<open>Suspicion timers\<close>

text \<open>
  \<open>loop.call_later\<close> arms a timer; \<open>cancel\<close> disarms it. The dictionary entry and the
  armed timer are separate: \<open>_confirm_dead\<close> deletes the entry without a cancel.
\<close>

definition start_suspicion_timer :: "real \<Rightarrow> pystr \<Rightarrow> membership \<Rightarrow> membership" where
  "start_suspicion_timer now pid s =
     (if map_of (suspicion_timers s) pid \<noteq> None then s
      else
        let timeout = real_of_int (probe_interval_ms s * suspicion_mult s) / 1000;
            h = next_handle s
        in s\<lparr>armed := armed s @ [(h, pid, now + timeout)], next_handle := h + 1,
             suspicion_timers := AList.update pid h (suspicion_timers s)\<rparr>)"

definition cancel_timer :: "pystr \<Rightarrow> membership \<Rightarrow> membership" where
  "cancel_timer pid s =
     (case map_of (suspicion_timers s) pid of
        None \<Rightarrow> s
      | Some h \<Rightarrow>
          s\<lparr>armed := filter (\<lambda>t. fst t \<noteq> h) (armed s),
            suspicion_timers := AList.delete pid (suspicion_timers s)\<rparr>)"

text \<open>The end of \<open>stop\<close>: every timer in the dictionary is cancelled, the dictionary cleared.\<close>

definition cancel_all_timers :: "membership \<Rightarrow> membership" where
  "cancel_all_timers s =
     s\<lparr>armed := filter (\<lambda>t. fst t \<notin> snd ` set (suspicion_timers s)) (armed s),
       suspicion_timers := []\<rparr>"

definition confirm_dead :: "pystr \<Rightarrow> membership \<Rightarrow> membership" where
  "confirm_dead pid s =
     (let s1 = s\<lparr>suspicion_timers := AList.delete pid (suspicion_timers s)\<rparr> in
      case map_of (peers s1) pid of
        None \<Rightarrow> s1
      | Some r \<Rightarrow>
          (if p_state (heap s1 r) = PS_SUSPECT then
             let s2 = set_peer r (fst (mark_dead None (heap s1 r))) s1
             in notify (has_on_dead s2) (OnDead (heap s2 r)) s2
           else s1))"

section \<open>Message handlers\<close>

definition handle_ping :: "real \<Rightarrow> gmsg \<Rightarrow> membership \<Rightarrow> membership \<times> gmsg" where
  "handle_ping now msg s =
     ((case map_of (peers s) (sender_id msg) of
         None \<Rightarrow> s
       | Some r \<Rightarrow>
           set_peer r ((heap s r)\<lparr>p_last_seen := now, p_incarnation := msg_incarnation msg\<rparr>) s),
      create_ack now (p_id (local_peer s)) (msg_sequence msg) (sender_id msg))"

text \<open>\<open>_handle_ping_req\<close> looks the target up and does nothing with it.\<close>

definition handle_ping_req :: "gmsg \<Rightarrow> membership \<Rightarrow> membership" where
  "handle_ping_req msg s = s"

text \<open>A confirmation of life for the peer at \<open>r\<close>, shared by ACK and ALIVE messages.\<close>

definition revive :: "real \<Rightarrow> int \<Rightarrow> pystr \<Rightarrow> ref \<Rightarrow> membership \<Rightarrow> membership" where
  "revive now inc pid r s =
     (let (p, changed) = mark_alive now (Some inc) (heap s r);
          s1 = set_peer r p s
      in if changed then notify (has_on_alive s1) (OnAlive p) (cancel_timer pid s1) else s1)"

definition handle_ack :: "real \<Rightarrow> gmsg \<Rightarrow> membership \<Rightarrow> membership" where
  "handle_ack now msg s =
     (case map_of (pending_probes s) (msg_sequence msg) of
        None \<Rightarrow> s
      | Some probe \<Rightarrow>
          let s1 = s\<lparr>pending_probes :=
                      AList.update (msg_sequence msg) (probe\<lparr>pr_acked := True\<rparr>) (pending_probes s)\<rparr>;
              latency_ms = (now - pr_start_time probe) * 1000;
              s2 = (case map_of (peers s1) (pr_target_id probe) of
                      None \<Rightarrow> s1
                    | Some r \<Rightarrow>
                        revive now (msg_incarnation msg) (pr_target_id probe) r
                          (set_peer r (update_latency latency_ms (1 / 10) (heap s1 r)) s1))
          in s2\<lparr>pending_probes := AList.delete (msg_sequence msg) (pending_probes s2)\<rparr>)"

definition handle_alive :: "real \<Rightarrow> gmsg \<Rightarrow> membership \<Rightarrow> membership" where
  "handle_alive now msg s =
     (case target_id msg of
        None \<Rightarrow> s
      | Some pid \<Rightarrow>
          (case map_of (peers s) pid of
             None \<Rightarrow> s
           | Some r \<Rightarrow> revive now (msg_incarnation msg) pid r s))"

definition handle_suspect :: "real \<Rightarrow> gmsg \<Rightarrow> membership \<Rightarrow> membership" where
  "handle_suspect now msg s =
     (case target_id msg of
        None \<Rightarrow> s
      | Some pid \<Rightarrow>
          (if pid = p_id (local_peer s) then
             broadcast_alive now
               (set_peer (local_ref s)
                  ((local_peer s)\<lparr>p_incarnation :=
                      max (p_incarnation (local_peer s)) (msg_incarnation msg) + 1\<rparr>) s)
           else
             (case map_of (peers s) pid of
                None \<Rightarrow> s
              | Some r \<Rightarrow>
                  let (p, changed) = mark_suspect (Some (msg_incarnation msg)) (heap s r);
                      s1 = set_peer r p s
                  in if changed
                     then start_suspicion_timer now pid (notify (has_on_suspect s1) (OnSuspect p) s1)
                     else s1)))"

definition handle_dead :: "gmsg \<Rightarrow> membership \<Rightarrow> membership" where
  "handle_dead msg s =
     (case target_id msg of
        None \<Rightarrow> s
      | Some pid \<Rightarrow>
          (case map_of (peers s) pid of
             None \<Rightarrow> s
           | Some r \<Rightarrow>
               let (p, changed) = mark_dead (Some (msg_incarnation msg)) (heap s r);
                   s1 = set_peer r p s
               in if changed then notify (has_on_dead s1) (OnDead p) (cancel_timer pid s1) else s1))"

text \<open>
  The dispatcher, for messages whose handler does not wait (an ACK waits while the probe
  lock is held, see \<open>Membership_Run\<close>). Message types of other layers fall through.
\<close>

definition membership_handle_message ::
  "real \<Rightarrow> gmsg \<Rightarrow> membership \<Rightarrow> membership \<times> gmsg option" where
  "membership_handle_message now msg s =
     (case msg_type msg of
        PING \<Rightarrow> (let (s1, reply) = handle_ping now msg s in (s1, Some reply))
      | PING_REQ \<Rightarrow> (handle_ping_req msg s, None)
      | ACK \<Rightarrow> (handle_ack now msg s, None)
      | ALIVE \<Rightarrow> (handle_alive now msg s, None)
      | SUSPECT \<Rightarrow> (handle_suspect now msg s, None)
      | DEAD \<Rightarrow> (handle_dead msg s, None)
      | _ \<Rightarrow> (s, None))"

section \<open>Probing\<close>

text \<open>\<open>_probe_peer\<close> up to its first sleep: a new sequence number and a pending probe.\<close>

definition probe_begin :: "real \<Rightarrow> ref \<Rightarrow> membership \<Rightarrow> membership \<times> int" where
  "probe_begin now target s =
     (let (s1, sequence) = next_sequence s;
          probe = \<lparr>pr_target_id = p_id (heap s1 target), pr_sequence = sequence,
                   pr_start_time = now, pr_indirect_targets = [], pr_acked = False\<rparr>
      in (s1\<lparr>pending_probes := AList.update sequence probe (pending_probes s1)\<rparr>, sequence))"

text \<open>The test both waits end with: the probe is still pending and not acknowledged.\<close>

definition unanswered :: "int \<Rightarrow> membership \<Rightarrow> bool" where
  "unanswered sequence s \<longleftrightarrow>
     (case map_of (pending_probes s) sequence of None \<Rightarrow> False | Some p \<Rightarrow> \<not> pr_acked p)"

definition set_indirect_targets :: "int \<Rightarrow> ref list \<Rightarrow> membership \<Rightarrow> membership" where
  "set_indirect_targets sequence probes s =
     (case map_of (pending_probes s) sequence of
        None \<Rightarrow> s
      | Some p \<Rightarrow>
          s\<lparr>pending_probes := AList.update sequence
              (p\<lparr>pr_indirect_targets := map (\<lambda>r. p_id (heap s r)) probes\<rparr>) (pending_probes s)\<rparr>)"

definition suspect_peer :: "real \<Rightarrow> ref \<Rightarrow> membership \<Rightarrow> membership" where
  "suspect_peer now held s =
     (let pid = p_id (heap s held) in
      case map_of (peers s) pid of
        None \<Rightarrow> s
      | Some r \<Rightarrow>
          let (p, changed) = mark_suspect None (heap s r);
              s1 = set_peer r p s
          in if changed then
               let s2 = start_suspicion_timer now pid (notify (has_on_suspect s1) (OnSuspect p) s1);
                   (s3, sequence) = next_sequence s2
               in enqueue_update
                    ((new_message SUSPECT (p_id (local_peer s3)) sequence now)
                       \<lparr>target_id := Some pid, msg_incarnation := p_incarnation (heap s3 held)\<rparr>) s3
             else s1)"

end
