(* ===== verification/Membership_Inv.thy ===== *)
theory Membership_Inv
  imports Membership
begin

text \<open>
  The invariant of the membership manager and its preservation by every operation. It has
  four parts: the peer table, the pending probes, the timers, and the queue of updates.
\<close>

section \<open>The invariant\<close>

text \<open>Keys are unique and a peer is stored under its own identifier.\<close>

definition table_wf :: "membership \<Rightarrow> bool" where
  "table_wf s \<longleftrightarrow>
     distinct (map fst (peers s)) \<and> (\<forall>(k, r) \<in> set (peers s). p_id (heap s r) = k)"

text \<open>A probe is filed under its sequence number, which the manager has handed out.\<close>

definition probes_wf :: "membership \<Rightarrow> bool" where
  "probes_wf s \<longleftrightarrow>
     0 \<le> sequence_num s \<and> distinct (map fst (pending_probes s)) \<and>
     (\<forall>(q, p) \<in> set (pending_probes s). pr_sequence p = q \<and> 0 < q \<and> q \<le> sequence_num s)"

text \<open>Timer handles have been handed out, and no two armed timers share one.\<close>

definition timers_wf :: "membership \<Rightarrow> bool" where
  "timers_wf s \<longleftrightarrow>
     distinct (map fst (suspicion_timers s)) \<and> distinct (map fst (armed s)) \<and>
     (\<forall>h \<in> snd ` set (suspicion_timers s). h < next_handle s) \<and>
     (\<forall>h \<in> fst ` set (armed s). h < next_handle s)"

text \<open>
  Queued updates are the manager's own ALIVE and SUSPECT messages about a named peer, in
  the order of their sequence numbers.
\<close>

definition update_ok :: "membership \<Rightarrow> gmsg \<Rightarrow> bool" where
  "update_ok s m \<longleftrightarrow>
     msg_type m \<in> {ALIVE, SUSPECT} \<and> target_id m \<noteq> None \<and>
     0 < msg_sequence m \<and> msg_sequence m \<le> sequence_num s"

definition queue_wf :: "membership \<Rightarrow> bool" where
  "queue_wf s \<longleftrightarrow>
     0 \<le> sequence_num s \<and>
     (\<forall>m \<in> set (updates_queue s). update_ok s m) \<and>
     sorted_wrt (\<lambda>a b. msg_sequence a < msg_sequence b) (updates_queue s)"

definition membership_wf :: "membership \<Rightarrow> bool" where
  "membership_wf s \<longleftrightarrow> table_wf s \<and> probes_wf s \<and> timers_wf s \<and> queue_wf s"

lemma membership_wfI:
  "table_wf s \<Longrightarrow> probes_wf s \<Longrightarrow> timers_wf s \<Longrightarrow> queue_wf s \<Longrightarrow> membership_wf s"
  by (simp add: membership_wf_def)

lemma membership_wfD:
  "membership_wf s \<Longrightarrow> table_wf s" "membership_wf s \<Longrightarrow> probes_wf s"
  "membership_wf s \<Longrightarrow> timers_wf s" "membership_wf s \<Longrightarrow> queue_wf s"
  by (simp_all add: membership_wf_def)

section \<open>What the parts depend on\<close>

lemma table_wf_cong:
  "peers s' = peers s \<Longrightarrow> (\<And>r. p_id (heap s' r) = p_id (heap s r)) \<Longrightarrow> table_wf s' = table_wf s"
  by (simp add: table_wf_def)

lemma probes_wf_cong:
  "pending_probes s' = pending_probes s \<Longrightarrow> sequence_num s' = sequence_num s \<Longrightarrow>
   probes_wf s' = probes_wf s"
  by (simp add: probes_wf_def)

lemma timers_wf_cong:
  "suspicion_timers s' = suspicion_timers s \<Longrightarrow> armed s' = armed s \<Longrightarrow>
   next_handle s' = next_handle s \<Longrightarrow> timers_wf s' = timers_wf s"
  by (simp add: timers_wf_def)

lemma queue_wf_cong:
  "updates_queue s' = updates_queue s \<Longrightarrow> sequence_num s' = sequence_num s \<Longrightarrow>
   queue_wf s' = queue_wf s"
  by (simp add: queue_wf_def update_ok_def)

lemmas wf_cong = table_wf_cong probes_wf_cong timers_wf_cong queue_wf_cong

section \<open>The building blocks\<close>

lemma set_peer_simps [simp]:
  "heap (set_peer r p s) = (heap s)(r := p)"
  "local_ref (set_peer r p s) = local_ref s"
  "peers (set_peer r p s) = peers s"
  "probe_interval_ms (set_peer r p s) = probe_interval_ms s"
  "suspicion_mult (set_peer r p s) = suspicion_mult s"
  "sequence_num (set_peer r p s) = sequence_num s"
  "pending_probes (set_peer r p s) = pending_probes s"
  "updates_queue (set_peer r p s) = updates_queue s"
  "suspicion_timers (set_peer r p s) = suspicion_timers s"
  "armed (set_peer r p s) = armed s"
  "next_handle (set_peer r p s) = next_handle s"
  "has_on_alive (set_peer r p s) = has_on_alive s"
  "has_on_suspect (set_peer r p s) = has_on_suspect s"
  "has_on_dead (set_peer r p s) = has_on_dead s"
  "notices (set_peer r p s) = notices s"
  by (simp_all add: set_peer_def)

lemma notify_simps [simp]:
  "heap (notify b n s) = heap s"
  "local_ref (notify b n s) = local_ref s"
  "peers (notify b n s) = peers s"
  "probe_interval_ms (notify b n s) = probe_interval_ms s"
  "suspicion_mult (notify b n s) = suspicion_mult s"
  "sequence_num (notify b n s) = sequence_num s"
  "pending_probes (notify b n s) = pending_probes s"
  "updates_queue (notify b n s) = updates_queue s"
  "suspicion_timers (notify b n s) = suspicion_timers s"
  "armed (notify b n s) = armed s"
  "next_handle (notify b n s) = next_handle s"
  by (simp_all add: notify_def)

lemma cancel_timer_simps [simp]:
  "heap (cancel_timer pid s) = heap s"
  "local_ref (cancel_timer pid s) = local_ref s"
  "peers (cancel_timer pid s) = peers s"
  "sequence_num (cancel_timer pid s) = sequence_num s"
  "pending_probes (cancel_timer pid s) = pending_probes s"
  "updates_queue (cancel_timer pid s) = updates_queue s"
  "next_handle (cancel_timer pid s) = next_handle s"
  "has_on_alive (cancel_timer pid s) = has_on_alive s"
  "has_on_dead (cancel_timer pid s) = has_on_dead s"
  "map_of (suspicion_timers (cancel_timer pid s)) = (map_of (suspicion_timers s))(pid := None)"
  by (auto simp: cancel_timer_def fun_eq_iff split: option.splits)

lemma start_timer_simps [simp]:
  "heap (start_suspicion_timer now pid s) = heap s"
  "local_ref (start_suspicion_timer now pid s) = local_ref s"
  "peers (start_suspicion_timer now pid s) = peers s"
  "sequence_num (start_suspicion_timer now pid s) = sequence_num s"
  "pending_probes (start_suspicion_timer now pid s) = pending_probes s"
  "updates_queue (start_suspicion_timer now pid s) = updates_queue s"
  by (simp_all add: start_suspicion_timer_def Let_def)

lemma table_wf_set_peer [wf_intros]:
  "table_wf s \<Longrightarrow> p_id p = p_id (heap s r) \<Longrightarrow> table_wf (set_peer r p s)"
  by (subst table_wf_cong [of _ s]) simp_all

lemma probes_wf_set_peer [wf_intros]: "probes_wf s \<Longrightarrow> probes_wf (set_peer r p s)"
  by (subst probes_wf_cong [of _ s]) simp_all

lemma timers_wf_set_peer [wf_intros]: "timers_wf s \<Longrightarrow> timers_wf (set_peer r p s)"
  by (subst timers_wf_cong [of _ s]) simp_all

lemma queue_wf_set_peer [wf_intros]: "queue_wf s \<Longrightarrow> queue_wf (set_peer r p s)"
  by (subst queue_wf_cong [of _ s]) simp_all

lemma wf_set_peer [wf_intros]:
  "membership_wf s \<Longrightarrow> p_id p = p_id (heap s r) \<Longrightarrow> membership_wf (set_peer r p s)"
  unfolding membership_wf_def
  by (simp add: table_wf_set_peer probes_wf_set_peer timers_wf_set_peer queue_wf_set_peer)

lemma wf_notify [wf_intros]: "membership_wf s \<Longrightarrow> membership_wf (notify b n s)"
  unfolding membership_wf_def
  by (simp add: table_wf_cong [of "notify b n s" s] probes_wf_cong [of "notify b n s" s]
      timers_wf_cong [of "notify b n s" s] queue_wf_cong [of "notify b n s" s])

lemma timers_wf_delete [wf_intros]:
  "timers_wf s \<Longrightarrow>
   timers_wf (s\<lparr>armed := filter P (armed s), suspicion_timers := AList.delete pid (suspicion_timers s)\<rparr>)"
  by (auto simp: timers_wf_def distinct_delete distinct_map_filter AList.delete_eq)

lemma wf_cancel_timer [wf_intros]:
  assumes "membership_wf s"
  shows "membership_wf (cancel_timer pid s)"
proof (rule membership_wfI)
  show "table_wf (cancel_timer pid s)" "probes_wf (cancel_timer pid s)" "queue_wf (cancel_timer pid s)"
    using assms
    by (simp_all add: membership_wf_def table_wf_cong [of "cancel_timer pid s" s]
        probes_wf_cong [of "cancel_timer pid s" s] queue_wf_cong [of "cancel_timer pid s" s])
  show "timers_wf (cancel_timer pid s)"
    using assms by (auto simp: membership_wf_def cancel_timer_def timers_wf_delete split: option.splits)
qed

lemma wf_start_timer [wf_intros]:
  assumes "membership_wf s"
  shows "membership_wf (start_suspicion_timer now pid s)"
proof (rule membership_wfI)
  let ?t = "start_suspicion_timer now pid s"
  show "table_wf ?t" "probes_wf ?t" "queue_wf ?t"
    using assms
    by (simp_all add: membership_wf_def table_wf_cong [of ?t s] probes_wf_cong [of ?t s]
        queue_wf_cong [of ?t s])
  have "timers_wf s" using assms by (rule membership_wfD)
  then show "timers_wf ?t"
    by (force simp: start_suspicion_timer_def timers_wf_def Let_def update_fresh map_of_is_None_iff)
qed

lemma wf_next_sequence [wf_intros]:
  "membership_wf s \<Longrightarrow> membership_wf (fst (next_sequence s))"
  by (fastforce simp: membership_wf_def next_sequence_def table_wf_def probes_wf_def timers_wf_def
      queue_wf_def update_ok_def)

section \<open>Every operation keeps the invariant\<close>

lemma wf_put_peer:
  assumes "membership_wf s" and "p_id (heap s r) = k"
  shows "membership_wf (s\<lparr>peers := AList.update k r (peers s)\<rparr>)"
proof (rule membership_wfI)
  let ?t = "s\<lparr>peers := AList.update k r (peers s)\<rparr>"
  have d: "distinct (map fst (AList.update k r (peers s)))"
    using membership_wfD(1) [OF assms(1)] by (intro distinct_update) (simp add: table_wf_def)
  have "p_id (heap s r') = k'" if "(k', r') \<in> set (AList.update k r (peers s))" for k' r'
  proof -
    from that have "k' = k \<and> r' = r \<or> (k', r') \<in> set (peers s)" by (rule in_set_update)
    then show ?thesis using assms membership_wfD(1) [OF assms(1)] by (auto simp: table_wf_def)
  qed
  with d show "table_wf ?t" by (auto simp: table_wf_def)
  show "probes_wf ?t" "timers_wf ?t" "queue_wf ?t"
    using assms(1)
    by (simp_all add: membership_wf_def probes_wf_cong [of ?t s] timers_wf_cong [of ?t s]
        queue_wf_cong [of ?t s])
qed

lemma wf_add_peer [wf_intros]:
  assumes "membership_wf s"
  shows "membership_wf (fst (add_peer r s))"
  using assms wf_put_peer [OF assms refl, of r]
  by (simp add: add_peer_def Let_def split: option.splits)

lemma wf_remove_peer [wf_intros]:
  assumes "membership_wf s"
  shows "membership_wf (fst (remove_peer pid s))"
proof -
  let ?t = "s\<lparr>peers := AList.delete pid (peers s)\<rparr>"
  have "table_wf ?t"
    using membership_wfD(1) [OF assms] by (auto simp: table_wf_def distinct_map_filter AList.delete_eq)
  moreover have "probes_wf ?t" "timers_wf ?t" "queue_wf ?t"
    using assms
    by (simp_all add: membership_wf_def probes_wf_cong [of ?t s] timers_wf_cong [of ?t s]
        queue_wf_cong [of ?t s])
  ultimately have "membership_wf ?t" by (simp add: membership_wf_def)
  with assms show ?thesis by (simp add: remove_peer_def split: option.splits)
qed

text \<open>A message with the number just drawn may be queued.\<close>

lemma wf_enqueue_fresh:
  assumes wf: "membership_wf s"
    and m: "msg_type m \<in> {ALIVE, SUSPECT}" "target_id m \<noteq> None"
      "msg_sequence m = snd (next_sequence s)"
  shows "membership_wf (enqueue_update m (fst (next_sequence s)))"
proof (rule membership_wfI)
  let ?s1 = "fst (next_sequence s)" and ?t = "enqueue_update m (fst (next_sequence s))"
  have wf1: "membership_wf ?s1" by (rule wf_next_sequence [OF wf])
  then show "table_wf ?t" "probes_wf ?t" "timers_wf ?t"
    by (auto simp: membership_wf_def table_wf_def probes_wf_def timers_wf_def enqueue_update_def)
  have q: "queue_wf s" using wf by (rule membership_wfD)
  then have "\<forall>a \<in> set (updates_queue s). msg_sequence a < msg_sequence m"
    by (auto simp: queue_wf_def update_ok_def m(3) next_sequence_def)
  with q m show "queue_wf ?t"
    by (auto simp: queue_wf_def update_ok_def enqueue_update_def next_sequence_def
        sorted_wrt_append)
qed

lemma wf_broadcast_alive [wf_intros]:
  "membership_wf s \<Longrightarrow> membership_wf (broadcast_alive now s)"
  unfolding broadcast_alive_def
  by (auto simp: Let_def case_prod_beta new_message_def intro!: wf_enqueue_fresh)

lemma wf_cancel_all [wf_intros]:
  assumes "membership_wf s"
  shows "membership_wf (cancel_all_timers s)"
  using assms
  by (auto simp: membership_wf_def cancel_all_timers_def table_wf_def probes_wf_def timers_wf_def
      queue_wf_def update_ok_def distinct_map_filter)

lemma wf_drop_timer_entry:
  assumes "membership_wf s"
  shows "membership_wf (s\<lparr>suspicion_timers := AList.delete pid (suspicion_timers s)\<rparr>)"
  using assms
  by (auto simp: membership_wf_def table_wf_def probes_wf_def timers_wf_def queue_wf_def
      update_ok_def distinct_map_filter AList.delete_eq)

lemma wf_confirm_dead [wf_intros]:
  "membership_wf s \<Longrightarrow> membership_wf (confirm_dead pid s)"
  unfolding confirm_dead_def Let_def
  by (auto intro!: wf_intros wf_drop_timer_entry split: option.splits)

lemma wf_revive [wf_intros]:
  "membership_wf s \<Longrightarrow> membership_wf (revive now inc pid r s)"
  unfolding revive_def by (auto simp: case_prod_beta Let_def intro!: wf_intros)

lemma wf_handle_ping [wf_intros]:
  "membership_wf s \<Longrightarrow> membership_wf (fst (handle_ping now msg s))"
  unfolding handle_ping_def by (auto intro!: wf_intros split: option.splits)

lemma wf_handle_alive [wf_intros]:
  "membership_wf s \<Longrightarrow> membership_wf (handle_alive now msg s)"
  unfolding handle_alive_def by (auto intro!: wf_intros split: option.splits)

lemma wf_handle_suspect [wf_intros]:
  "membership_wf s \<Longrightarrow> membership_wf (handle_suspect now msg s)"
  unfolding handle_suspect_def local_peer_def
  by (auto simp: case_prod_beta Let_def intro!: wf_intros split: option.splits)

lemma wf_handle_dead [wf_intros]:
  "membership_wf s \<Longrightarrow> membership_wf (handle_dead msg s)"
  unfolding handle_dead_def
  by (auto simp: case_prod_beta Let_def intro!: wf_intros split: option.splits)

text \<open>The pending probes.\<close>

lemma probes_wf_update:
  assumes "probes_wf s" and "0 < q" and "q \<le> sequence_num s" and "pr_sequence p = q"
  shows "probes_wf (s\<lparr>pending_probes := AList.update q p (pending_probes s)\<rparr>)"
proof -
  have d: "distinct (map fst (AList.update q p (pending_probes s)))"
    using assms(1) by (intro distinct_update) (simp add: probes_wf_def)
  have "pr_sequence p' = q' \<and> 0 < q' \<and> q' \<le> sequence_num s"
    if "(q', p') \<in> set (AList.update q p (pending_probes s))" for q' p'
  proof -
    from that have "q' = q \<and> p' = p \<or> (q', p') \<in> set (pending_probes s)" by (rule in_set_update)
    then show ?thesis using assms by (auto simp: probes_wf_def)
  qed
  with d assms(1) show ?thesis by (auto simp: probes_wf_def)
qed

lemma wf_pending_update:
  assumes "membership_wf s" and "0 < q" and "q \<le> sequence_num s" and "pr_sequence p = q"
  shows "membership_wf (s\<lparr>pending_probes := AList.update q p (pending_probes s)\<rparr>)"
  using probes_wf_update [OF membership_wfD(2) [OF assms(1)] assms(2-4)] assms(1)
  by (auto simp: membership_wf_def table_wf_def timers_wf_def queue_wf_def update_ok_def)

lemma wf_pending_known:
  assumes "membership_wf s" and "map_of (pending_probes s) q = Some p0" and "pr_sequence p = pr_sequence p0"
  shows "membership_wf (s\<lparr>pending_probes := AList.update q p (pending_probes s)\<rparr>)"
proof -
  have "pr_sequence p0 = q \<and> 0 < q \<and> q \<le> sequence_num s"
    using membership_wfD(2) [OF assms(1)] map_of_SomeD [OF assms(2)] by (auto simp: probes_wf_def)
  with assms(1,3) show ?thesis by (intro wf_pending_update) simp_all
qed

lemma wf_pending_delete:
  "membership_wf s \<Longrightarrow> membership_wf (s\<lparr>pending_probes := AList.delete q (pending_probes s)\<rparr>)"
  by (auto simp: membership_wf_def table_wf_def probes_wf_def timers_wf_def queue_wf_def
      update_ok_def distinct_map_filter AList.delete_eq)

lemma wf_handle_ack [wf_intros]:
  assumes "membership_wf s"
  shows "membership_wf (handle_ack now msg s)"
proof (cases "map_of (pending_probes s) (msg_sequence msg)")
  case None
  with assms show ?thesis by (simp add: handle_ack_def)
next
  case (Some probe)
  define s1 where "s1 = s\<lparr>pending_probes :=
    AList.update (msg_sequence msg) (probe\<lparr>pr_acked := True\<rparr>) (pending_probes s)\<rparr>"
  have "membership_wf s1" unfolding s1_def using assms Some by (rule wf_pending_known) simp
  then show ?thesis
    unfolding handle_ack_def Some s1_def [symmetric] Let_def option.case
    by (intro wf_pending_delete) (auto intro!: wf_intros split: option.splits)
qed

lemma wf_probe_begin [wf_intros]:
  assumes "membership_wf s"
  shows "membership_wf (fst (probe_begin now r s))"
proof -
  have "membership_wf (fst (next_sequence s))" using assms by (rule wf_next_sequence)
  moreover have "0 \<le> sequence_num s"
    using membership_wfD(2) [OF assms] by (simp add: probes_wf_def)
  ultimately show ?thesis
    unfolding probe_begin_def Let_def case_prod_beta fst_conv
    by (intro wf_pending_update) (simp_all add: next_sequence_def)
qed

lemma wf_set_indirect [wf_intros]:
  "membership_wf s \<Longrightarrow> membership_wf (set_indirect_targets q probes s)"
  unfolding set_indirect_targets_def by (auto intro!: wf_pending_known split: option.splits)

lemma wf_suspect_peer [wf_intros]:
  "membership_wf s \<Longrightarrow> membership_wf (suspect_peer now held s)"
  unfolding suspect_peer_def
  by (auto simp: case_prod_beta Let_def new_message_def intro!: wf_enqueue_fresh wf_intros
      split: option.splits)

lemma wf_get_pending_updates [wf_intros]:
  assumes "membership_wf s"
  shows "membership_wf (fst (get_pending_updates n s))"
proof -
  have "queue_wf (fst (get_pending_updates n s))"
    using membership_wfD(4) [OF assms]
    by (auto simp: queue_wf_def get_pending_updates_def py_from_def update_ok_def
        dest: in_set_dropD intro: sorted_wrt_drop)
  with assms show ?thesis
    by (auto simp: membership_wf_def get_pending_updates_def table_wf_def probes_wf_def timers_wf_def)
qed

lemma wf_handle_message [wf_intros]:
  "membership_wf s \<Longrightarrow> membership_wf (fst (membership_handle_message now msg s))"
  by (cases "msg_type msg")
    (simp_all add: membership_handle_message_def case_prod_beta Let_def handle_ping_req_def
      wf_handle_ping wf_handle_ack wf_handle_alive wf_handle_suspect wf_handle_dead)

lemma wf_new_membership: "membership_wf (new_membership h l a b c d cb)"
  by (simp add: membership_wf_def table_wf_def probes_wf_def timers_wf_def queue_wf_def
      new_membership_def)

section \<open>What the operations leave alone\<close>

text \<open>
  Only \<open>add_peer\<close> and \<open>remove_peer\<close> change the table, nothing changes which object is the
  local peer, and no operation changes the identifier of a peer.
\<close>

definition same_table :: "membership \<Rightarrow> membership \<Rightarrow> bool" where
  "same_table s' s \<longleftrightarrow>
     peers s' = peers s \<and> local_ref s' = local_ref s \<and> (\<forall>r. p_id (heap s' r) = p_id (heap s r))"

lemma same_table_trans: "same_table s2 s1 \<Longrightarrow> same_table s1 s \<Longrightarrow> same_table s2 s"
  by (simp add: same_table_def)

lemma same_table_revive: "same_table (revive now inc pid r s) s"
  by (auto simp: same_table_def revive_def case_prod_beta Let_def)

lemma same_table_ops [frame_simps]:
  "same_table (fst (handle_ping now msg s)) s"
  "same_table (handle_alive now msg s) s"
  "same_table (handle_suspect now msg s) s"
  "same_table (handle_dead msg s) s"
  "same_table (confirm_dead pid s) s"
  "same_table (cancel_all_timers s) s"
  "same_table (fst (probe_begin now r s)) s"
  "same_table (suspect_peer now r s) s"
  "same_table (set_indirect_targets q ps s) s"
  "same_table (fst (get_pending_updates n s)) s"
  using same_table_revive
  by (auto simp: same_table_def handle_ping_def handle_alive_def handle_suspect_def handle_dead_def
      confirm_dead_def cancel_all_timers_def probe_begin_def suspect_peer_def local_peer_def
      set_indirect_targets_def get_pending_updates_def broadcast_alive_def next_sequence_def
      enqueue_update_def case_prod_beta Let_def split: option.splits)

lemma same_table_ack [frame_simps]: "same_table (handle_ack now msg s) s"
proof (cases "map_of (pending_probes s) (msg_sequence msg)")
  case None
  then show ?thesis by (simp add: handle_ack_def same_table_def)
next
  case (Some probe)
  show ?thesis
    using same_table_revive
    by (fastforce simp: handle_ack_def Some same_table_def Let_def split: option.splits)
qed

lemma same_table_message [frame_simps]:
  "same_table (fst (membership_handle_message now msg s)) s"
  by (cases "msg_type msg")
    (simp_all add: membership_handle_message_def case_prod_beta Let_def handle_ping_req_def
      same_table_ops same_table_ack, simp_all add: same_table_def)

lemma add_peer_table:
  assumes "(k, x) \<in> set (peers (fst (add_peer r s)))"
  shows "x = r \<or> (k, x) \<in> set (peers s)"
proof -
  have "peers (fst (add_peer r s)) \<in> {peers s, AList.update (p_id (heap s r)) r (peers s)}"
    by (simp add: add_peer_def Let_def split: option.splits)
  with assms show ?thesis by (auto dest: in_set_update)
qed

lemma add_peer_local [simp]: "local_ref (fst (add_peer r s)) = local_ref s"
  by (simp add: add_peer_def Let_def split: option.splits)

lemma remove_peer_table: "set (peers (fst (remove_peer pid s))) \<subseteq> set (peers s)"
  by (auto simp: remove_peer_def AList.delete_eq split: option.splits)

lemma remove_peer_local [simp]: "local_ref (fst (remove_peer pid s)) = local_ref s"
  by (simp add: remove_peer_def split: option.splits)

lemma table_wf_fresh:
  assumes "table_wf s" and "r \<notin> snd ` set (peers s)"
  shows "table_wf (set_peer r p s)"
proof -
  have ne: "r' \<noteq> r" if "(k, r') \<in> set (peers s)" for k r'
    using that assms(2) by (metis image_eqI snd_conv)
  have "p_id (heap (set_peer r p s) r') = k" if "(k, r') \<in> set (peers s)" for k r'
    using ne [OF that] that assms(1) by (auto simp: table_wf_def)
  with assms(1) show ?thesis unfolding table_wf_def set_peer_simps(3) by blast
qed

end
