(* ===== verification/Membership_Props.thy ===== *)
theory Membership_Props
  imports Membership_Inv
begin

text \<open>
  What the operations of the membership manager guarantee: the directory interface, how the operations
  act on the peer table seen as a map from identifiers to peers, refutation of a
  suspicion across two nodes, and what acknowledgements and pings do to a peer's record.
\<close>

section \<open>The directory interface\<close>

lemma table_alive_ids:
  assumes "table_wf s"
  shows "map (\<lambda>r. p_id (heap s r)) (map snd (peers s)) = map fst (peers s)"
  using assms by (auto simp: table_wf_def)

interpretation dir: peer_directory table_wf get_alive_peers heap
proof unfold_locales
  fix s r
  assume wf: "table_wf s"
  show "r \<in> set (get_alive_peers s) \<Longrightarrow> is_alive (heap s r)" by (simp add: get_alive_peers_def)
  have "distinct (map (\<lambda>r. p_id (heap s r)) (map snd (peers s)))"
    unfolding table_alive_ids [OF wf] using wf by (simp add: table_wf_def)
  then show "distinct (map (\<lambda>r. p_id (heap s r)) (get_alive_peers s))"
    unfolding get_alive_peers_def by (rule distinct_map_filter)
qed

lemma candidates_filter:
  "filter (\<lambda>r. is_alive (heap s r) \<and> p_id (heap s r) \<notin> set exclude) (map snd (peers s)) =
   filter (\<lambda>r. p_id (heap s r) \<notin> set exclude) (get_alive_peers s)"
  by (simp add: get_alive_peers_def conj_commute)

section \<open>The abstract table\<close>

text \<open>The table as a map from identifiers to peers.\<close>

definition view :: "membership \<Rightarrow> pystr \<Rightarrow> peer option" where
  "view s k = map_option (heap s) (map_of (peers s) k)"

text \<open>The local object is not in the table; agents never add themselves.\<close>

definition local_apart :: "membership \<Rightarrow> bool" where
  "local_apart s \<longleftrightarrow> local_ref s \<notin> snd ` set (peers s)"

definition spec_update :: "(peer \<Rightarrow> peer) \<Rightarrow> pystr \<Rightarrow> (pystr \<Rightarrow> peer option) \<Rightarrow> pystr \<Rightarrow> peer option" where
  "spec_update f k v = v(k := map_option f (v k))"

definition spec_add :: "peer \<Rightarrow> (pystr \<Rightarrow> peer option) \<Rightarrow> pystr \<Rightarrow> peer option" where
  "spec_add p v =
     v(p_id p \<mapsto> (case v (p_id p) of
         None \<Rightarrow> p | Some q \<Rightarrow> if p_incarnation q < p_incarnation p then p else q))"

lemma view_same: "peers s' = peers s \<Longrightarrow> heap s' = heap s \<Longrightarrow> view s' = view s"
  by (rule ext) (simp add: view_def)

lemma table_inj:
  assumes "table_wf s" and "map_of (peers s) k = Some r" and "map_of (peers s) k' = Some r"
  shows "k = k'"
proof -
  from assms(1) have "p_id (heap s r) = k" if "(k, r) \<in> set (peers s)" for k
    using that by (auto simp: table_wf_def)
  from this [OF map_of_SomeD [OF assms(2)]] this [OF map_of_SomeD [OF assms(3)]]
  show ?thesis by simp
qed

lemma view_set_peer:
  assumes "table_wf s" and "map_of (peers s) k = Some r"
  shows "view (set_peer r p s) = (view s)(k \<mapsto> p)"
proof
  fix k'
  show "view (set_peer r p s) k' = ((view s)(k \<mapsto> p)) k'"
    using assms(2) table_inj [OF assms, of k'] by (cases "map_of (peers s) k'") (auto simp: view_def)
qed

lemma view_set_peer_update:
  assumes "table_wf s" and "map_of (peers s) k = Some r" and "p = f (heap s r)"
  shows "view (set_peer r p s) = spec_update f k (view s)"
  using assms by (simp add: view_set_peer spec_update_def view_def [of _ k])

lemma view_set_peer_apart:
  assumes "r \<notin> snd ` set (peers s)"
  shows "view (set_peer r p s) = view s"
proof
  fix k
  show "view (set_peer r p s) k = view s k"
  proof (cases "map_of (peers s) k")
    case (Some r')
    then have "r' \<noteq> r" using assms by (metis image_eqI map_of_SomeD snd_conv)
    with Some show ?thesis by (simp add: view_def)
  qed (simp add: view_def)
qed

lemma spec_update_absent: "map_of (peers s) k = None \<Longrightarrow> spec_update f k (view s) = view s"
  by (simp add: spec_update_def view_def fun_eq_iff)

lemma spec_update_twice: "spec_update f k (spec_update g k v) = spec_update (\<lambda>p. f (g p)) k v"
  by (simp add: spec_update_def option.map_comp comp_def)

lemma view_revive:
  assumes "table_wf s" and "map_of (peers s) k = Some r"
  shows "view (revive now inc pid r s) =
    spec_update (\<lambda>p. fst (mark_alive now (Some inc) p)) k (view s)"
proof -
  have "view (revive now inc pid r s) = view (set_peer r (fst (mark_alive now (Some inc) (heap s r))) s)"
    by (rule view_same) (simp_all add: revive_def case_prod_beta Let_def)
  also have "\<dots> = spec_update (\<lambda>p. fst (mark_alive now (Some inc) p)) k (view s)"
    using assms refl by (rule view_set_peer_update)
  finally show ?thesis .
qed

lemma view_handle_ack:
  assumes "table_wf s" and "map_of (pending_probes s) (msg_sequence m) = Some probe"
  shows "view (handle_ack now m s) =
    spec_update (\<lambda>p. fst (mark_alive now (Some (msg_incarnation m))
        (update_latency ((now - pr_start_time probe) * 1000) (1 / 10) p)))
      (pr_target_id probe) (view s)"
proof -
  let ?l = "(now - pr_start_time probe) * 1000" and ?k = "pr_target_id probe"
  define s1 where "s1 = s\<lparr>pending_probes :=
    AList.update (msg_sequence m) (probe\<lparr>pr_acked := True\<rparr>) (pending_probes s)\<rparr>"
  have s1: "view s1 = view s" "table_wf s1" "peers s1 = peers s" "heap s1 = heap s"
    using assms(1) by (simp_all add: s1_def view_def [abs_def] table_wf_def)
  define s2 where "s2 = (case map_of (peers s1) ?k of None \<Rightarrow> s1
    | Some r \<Rightarrow> revive now (msg_incarnation m) ?k r (set_peer r (update_latency ?l (1 / 10) (heap s1 r)) s1))"
  have "handle_ack now m s = s2\<lparr>pending_probes := AList.delete (msg_sequence m) (pending_probes s2)\<rparr>"
    unfolding handle_ack_def assms(2) option.case Let_def s1_def [symmetric] s2_def [symmetric] ..
  then have "view (handle_ack now m s) = view s2" by (intro view_same) simp_all
  also have "view s2 = spec_update (\<lambda>p. fst (mark_alive now (Some (msg_incarnation m))
        (update_latency ?l (1 / 10) p))) ?k (view s)"
  proof (cases "map_of (peers s) ?k")
    case None
    then show ?thesis by (simp add: s2_def s1 spec_update_absent)
  next
    case (Some r)
    let ?s = "set_peer r (update_latency ?l (1 / 10) (heap s1 r)) s1"
    have "table_wf ?s" using s1(2) by (rule table_wf_set_peer) simp
    then have "view s2 = spec_update (\<lambda>p. fst (mark_alive now (Some (msg_incarnation m)) p)) ?k (view ?s)"
      using Some by (simp add: s2_def s1(3) view_revive)
    also have "view ?s = spec_update (update_latency ?l (1 / 10)) ?k (view s)"
      using view_set_peer_update [OF s1(2), of ?k r] Some by (simp add: s1)
    finally show ?thesis by (simp only: spec_update_twice)
  qed
  finally show ?thesis .
qed

lemma view_handle_ping:
  assumes "table_wf s"
  shows "view (fst (handle_ping now m s)) =
    spec_update (\<lambda>p. p\<lparr>p_last_seen := now, p_incarnation := msg_incarnation m\<rparr>) (sender_id m) (view s)"
  by (cases "map_of (peers s) (sender_id m)")
    (simp_all add: handle_ping_def spec_update_absent view_set_peer_update [OF assms])

lemma view_handle_alive:
  assumes "table_wf s"
  shows "view (handle_alive now m s) =
    (case target_id m of None \<Rightarrow> view s
     | Some k \<Rightarrow> spec_update (\<lambda>p. fst (mark_alive now (Some (msg_incarnation m)) p)) k (view s))"
  by (auto simp: handle_alive_def spec_update_absent view_revive [OF assms] split: option.split)

lemma view_broadcast: "view (broadcast_alive now s) = view s"
  by (rule view_same) (simp_all add: broadcast_alive_def next_sequence_def enqueue_update_def Let_def)

lemma view_notify: "view (notify b n s) = view s"
  by (rule view_same) simp_all

lemma view_start_timer: "view (start_suspicion_timer now k s) = view s"
  by (rule view_same) simp_all

lemma view_cancel_timer: "view (cancel_timer k s) = view s"
  by (rule view_same) simp_all

lemmas view_frame = view_broadcast view_notify view_start_timer view_cancel_timer

lemma view_handle_suspect:
  assumes "table_wf s" and "local_apart s"
  shows "view (handle_suspect now m s) =
    (case target_id m of None \<Rightarrow> view s
     | Some k \<Rightarrow> if k = p_id (local_peer s) then view s
         else spec_update (\<lambda>p. fst (mark_suspect (Some (msg_incarnation m)) p)) k (view s))"
proof (cases "target_id m")
  case (Some k)
  have "view (set_peer (local_ref s) p s) = view s" for p
    using assms(2) by (intro view_set_peer_apart) (simp add: local_apart_def)
  with Some show ?thesis
    by (auto simp: handle_suspect_def view_frame case_prod_beta Let_def spec_update_absent
        view_set_peer_update [OF assms(1)] split: option.split)
qed (simp add: handle_suspect_def)

lemma view_handle_dead:
  assumes "table_wf s"
  shows "view (handle_dead m s) =
    (case target_id m of None \<Rightarrow> view s
     | Some k \<Rightarrow> spec_update (\<lambda>p. fst (mark_dead (Some (msg_incarnation m)) p)) k (view s))"
  by (auto simp: handle_dead_def view_frame case_prod_beta Let_def spec_update_absent
      view_set_peer_update [OF assms] split: option.split)

lemma view_put:
  "view (s\<lparr>peers := AList.update k r (peers s)\<rparr>) = (view s)(k \<mapsto> heap s r)"
  by (rule ext) (simp add: view_def)

lemma view_add:
  "view (fst (add_peer r s)) = spec_add (heap s r) (view s)"
proof (cases "map_of (peers s) (p_id (heap s r))")
  case None
  then show ?thesis
    by (simp add: add_peer_def Let_def spec_add_def view_put view_def [of _ "p_id (heap s r)"])
next
  case (Some q)
  then have "view s (p_id (heap s r)) = Some (heap s q)" by (simp add: view_def)
  with Some show ?thesis
    by (simp add: add_peer_def Let_def spec_add_def view_put fun_upd_idem)
qed

lemma view_remove: "view (fst (remove_peer k s)) = (view s)(k := None)"
  by (rule ext) (simp add: remove_peer_def view_def split: option.split)

section \<open>A selection of peers\<close>

lemma candidates_dir:
  "filter (\<lambda>r. is_alive (heap s r) \<and> p_id (heap s r) \<notin> set ex) (map snd (peers s)) =
   filter (\<lambda>r. p_id (heap s r) \<notin> set ex) (get_alive_peers s)"
  by (simp add: get_alive_peers_def conj_commute)

lemma select_random_spec:
  assumes "table_wf s"
  shows "case select_random_peers ds n ex s of
      Inl e \<Rightarrow> n < 0 \<and> e = ValueError
    | Inr rs \<Rightarrow> 0 \<le> n \<and>
        int (length rs) =
          min n (int (length (filter (\<lambda>r. p_id (heap s r) \<notin> set ex) (get_alive_peers s)))) \<and>
        distinct (map (\<lambda>r. p_id (heap s r)) rs) \<and>
        (\<forall>r \<in> set rs. r \<in> set (get_all_peers s) \<and> is_alive (heap s r) \<and> p_id (heap s r) \<notin> set ex)"
proof -
  define cs where "cs = filter (\<lambda>r. p_id (heap s r) \<notin> set ex) (get_alive_peers s)"
  have sel: "select_random_peers ds n ex s =
      (if int (length cs) \<le> n then Inr cs else py_sample ds cs n)"
    by (simp add: select_random_peers_def candidates_dir cs_def Let_def)
  have cs: "distinct (map (\<lambda>r. p_id (heap s r)) cs)" "\<forall>r \<in> set cs. r \<in> set (get_all_peers s) \<and>
      is_alive (heap s r) \<and> p_id (heap s r) \<notin> set ex"
    using dir.filtered_ids [OF assms] by (auto simp: cs_def get_alive_peers_def get_all_peers_def)
  show ?thesis
  proof (cases "int (length cs) \<le> n \<or> n < 0")
    case True
    then show ?thesis
      using cs by (auto simp: sel cs_def [symmetric] py_sample_def)
  next
    case False
    then obtain rs where rs: "py_sample ds cs n = Inr rs" using py.sample_ok [of n cs] by auto
    from cs(2) py.sample_subset [OF rs] have "\<forall>r \<in> set rs. r \<in> set (get_all_peers s) \<and>
      is_alive (heap s r) \<and> p_id (heap s r) \<notin> set ex" by blast
    with False py.sample_length [OF rs] dir.sampled(1) [OF assms rs [unfolded cs_def]] show ?thesis
      by (simp add: sel rs cs_def [symmetric])
  qed
qed

text \<open>A small manager: the local peer \<open>a\<close> and a table with the peer \<open>b\<close> at reference 1.\<close>

definition demo_peer :: "peer_state \<Rightarrow> int \<Rightarrow> peer" where
  "demo_peer st i = (new_peer 0 (lit ''b'') (lit ''h'') 1)\<lparr>p_state := st, p_incarnation := i\<rparr>"

definition demo_membership :: "peer_state \<Rightarrow> int \<Rightarrow> membership" where
  "demo_membership st i =
     fst (add_peer 1 (new_membership
       (\<lambda>r. if r = 0 then new_peer 0 (lit ''a'') (lit ''h'') 1 else demo_peer st i)
       0 1000 500 3 5 (True, True, True)))"

lemma demo_membership_simps [simp]:
  "peers (demo_membership st i) = [([98], 1)]"
  "heap (demo_membership st i) 0 = new_peer 0 [97] [104] 1"
  "heap (demo_membership st i) (Suc 0) = demo_peer st i"
  "local_ref (demo_membership st i) = 0"
  "pending_probes (demo_membership st i) = []"
  "suspicion_timers (demo_membership st i) = []"
  "updates_queue (demo_membership st i) = []"
  "sequence_num (demo_membership st i) = 0"
  by (simp_all add: demo_membership_def add_peer_def Let_def new_membership_def demo_peer_def
      new_peer_def lit_def)

lemma demo_notices: "notices (demo_membership st i) = []" "has_on_dead (demo_membership st i)"
  by (simp_all add: demo_membership_def add_peer_def Let_def new_membership_def)

lemma demo_peer_simps [simp]:
  "p_id (demo_peer st i) = [98]" "p_state (demo_peer st i) = st" "p_incarnation (demo_peer st i) = i"
  by (simp_all add: demo_peer_def new_peer_def lit_def)

lemma demo_table_wf: "table_wf (demo_membership st i)" "local_apart (demo_membership st i)"
  by (simp_all add: table_wf_def local_apart_def)

section \<open>Draining the queue\<close>

text \<open>Successive reads of the queue, with the sizes asked for.\<close>

fun drain :: "int list \<Rightarrow> membership \<Rightarrow> membership \<times> gmsg list" where
  "drain [] s = (s, [])"
| "drain (n # ns) s =
     (let (s1, ms) = get_pending_updates n s; (s2, ms') = drain ns s1 in (s2, ms @ ms'))"

lemma drain_conserves: "snd (drain ns s) @ updates_queue (fst (drain ns s)) = updates_queue s"
proof (induction ns s rule: drain.induct)
  case (2 n ns s)
  let ?s1 = "fst (get_pending_updates n s)"
  have "snd (get_pending_updates n s) @ updates_queue ?s1 = updates_queue s"
    by (simp add: get_pending_updates_def py_slices_partition)
  with "2.IH" [OF prod.collapse refl] show ?case
    by (simp add: case_prod_beta Let_def)
qed simp

section \<open>Properties\<close>

text \<open>
  Adding and removing peers refine the abstract table and the results tell what
  happened: a known identifier is replaced only by a higher incarnation.
\<close>

lemma table_operations_refine:
  "view (fst (add_peer r s)) = spec_add (heap s r) (view s) \<and>
   (snd (add_peer r s) \<longleftrightarrow>
      (\<forall>q. view s (p_id (heap s r)) = Some q \<longrightarrow> p_incarnation q < p_incarnation (heap s r))) \<and>
   view (fst (remove_peer k s)) = (view s)(k := None) \<and>
   map_option (heap s) (snd (remove_peer k s)) = view s k \<and>
   map_option (heap s) (get_peer k s) = view s k"
proof -
  have "snd (add_peer r s) \<longleftrightarrow>
      (\<forall>q. view s (p_id (heap s r)) = Some q \<longrightarrow> p_incarnation q < p_incarnation (heap s r))"
    by (auto simp: add_peer_def Let_def view_def split: option.split)
  moreover have "map_option (heap s) (snd (remove_peer k s)) = view s k"
    by (simp add: remove_peer_def view_def split: option.split)
  ultimately show ?thesis by (simp add: view_add view_remove get_peer_def view_def [of _ k])
qed

lemma table_operations_refine_witness:
  "snd (add_peer 0 (demo_membership PS_ALIVE 3)) \<and>
   \<not> snd (add_peer 1 (demo_membership PS_ALIVE 3)) \<and>
   view (fst (remove_peer [98] (demo_membership PS_ALIVE 3))) [98] = None"
  using table_operations_refine [of 0 "demo_membership PS_ALIVE 3" "[98]"]
    table_operations_refine [of 1 "demo_membership PS_ALIVE 3" "[98]"]
  by (simp add: view_def new_peer_def)

text \<open>
  \<open>select_random_peers\<close>: for a non-negative \<open>n\<close> it returns exactly \<open>min n c\<close> peers, \<open>c\<close>
  being the number of live peers that are not excluded; they are alive, in the table, not
  excluded and have different identifiers. A negative \<open>n\<close> raises \<open>ValueError\<close>.
\<close>

lemma select_random_contract:
  assumes "table_wf s"
  shows "case select_random_peers ds n ex s of
      Inl e \<Rightarrow> n < 0 \<and> e = ValueError
    | Inr rs \<Rightarrow> 0 \<le> n \<and>
        int (length rs) =
          min n (int (length (filter (\<lambda>r. p_id (heap s r) \<notin> set ex) (get_alive_peers s)))) \<and>
        distinct (map (\<lambda>r. p_id (heap s r)) rs) \<and>
        (\<forall>r \<in> set rs. r \<in> set (get_all_peers s) \<and> is_alive (heap s r) \<and> p_id (heap s r) \<notin> set ex)"
  using assms by (rule select_random_spec)

lemma select_random_contract_witness:
  "select_random_peers [0] 1 [[97]] (demo_membership PS_ALIVE 0) = Inr [1] \<and>
   distinct (map (\<lambda>r. p_id (heap (demo_membership PS_ALIVE 0) r)) [1])"
proof -
  have "select_random_peers [0] 1 [[97]] (demo_membership PS_ALIVE 0) = Inr [1]"
    by (simp add: select_random_peers_def is_alive_def)
  with select_random_contract [OF demo_table_wf(1) [of PS_ALIVE 0], where ds = "[0]" and n = 1 and ex = "[[97]]"]
  show ?thesis by simp
qed

text \<open>
  C8. Refutation: a node that receives a suspicion about itself queues an ALIVE update
  with a higher incarnation, and any node that believed it (whatever state and timer it
  holds) marks it alive with that incarnation and disarms the timer.
\<close>

theorem suspicion_refuted:
  assumes "msg_type m = SUSPECT" and "target_id m = Some (p_id (local_peer a))"
    and "map_of (peers b) (p_id (local_peer a)) = Some r"
    and "p_incarnation (heap b r) \<le> max (p_incarnation (local_peer a)) (msg_incarnation m)"
  shows "let a' = fst (membership_handle_message t m a);
             u = last (updates_queue a');
             b' = fst (membership_handle_message t' u b)
         in updates_queue a' = updates_queue a @ [u] \<and>
            msg_incarnation m < p_incarnation (local_peer a') \<and>
            p_state (heap b' r) = PS_ALIVE \<and>
            p_incarnation (heap b' r) = p_incarnation (local_peer a') \<and>
            (p_state (heap b r) \<noteq> PS_ALIVE \<longrightarrow>
               map_of (suspicion_timers b') (p_id (local_peer a)) = None \<and>
               (\<forall>h. map_of (suspicion_timers b) (p_id (local_peer a)) = Some h \<longrightarrow>
                  h \<notin> fst ` set (armed b')))"
proof -
  define me where "me = local_peer a"
  define i where "i = max (p_incarnation me) (msg_incarnation m) + 1"
  define a1 where "a1 = set_peer (local_ref a) (me\<lparr>p_incarnation := i\<rparr>) a"
  define u :: gmsg where "u = (new_message ALIVE (p_id me) (sequence_num a + 1) t)
      \<lparr>target_id := Some (p_id me), msg_incarnation := i\<rparr>"
  have a': "fst (membership_handle_message t m a) = broadcast_alive t a1"
    using assms(1,2) by (simp add: membership_handle_message_def handle_suspect_def a1_def me_def i_def)
  have q: "updates_queue (broadcast_alive t a1) = updates_queue a @ [u]"
    "p_incarnation (local_peer (broadcast_alive t a1)) = i"
    by (simp_all add: broadcast_alive_def next_sequence_def enqueue_update_def Let_def
        local_peer_def u_def a1_def)
  have b': "fst (membership_handle_message t' u b) = revive t' i (p_id me) r b"
    using assms(3) by (simp add: membership_handle_message_def handle_alive_def u_def me_def new_message_def)
  have lt: "p_incarnation (heap b r) < i" "msg_incarnation m < i"
    using assms(4) by (simp_all add: i_def me_def)
  have p: "heap (revive t' i (p_id me) r b) r = fst (mark_alive t' (Some i) (heap b r))"
    by (simp add: revive_def case_prod_beta Let_def)
  have timers: "map_of (suspicion_timers (revive t' i (p_id me) r b)) (p_id me) = None \<and>
      (\<forall>h. map_of (suspicion_timers b) (p_id me) = Some h \<longrightarrow>
         h \<notin> fst ` set (armed (revive t' i (p_id me) r b)))" if "p_state (heap b r) \<noteq> PS_ALIVE"
    using that lt(1)
    by (auto simp: revive_def case_prod_beta Let_def mark_reports_change mark_states cancel_timer_def
        split: option.split)
  show ?thesis
    using lt timers
    by (simp add: Let_def a' q b' p mark_states me_def [symmetric])
qed

theorem suspicion_refuted_witness:
  "let m = (new_message SUSPECT [99] 4 0)\<lparr>target_id := Some [97], msg_incarnation := 2\<rparr>;
       b = fst (add_peer 5 ((demo_membership PS_ALIVE 0)\<lparr>heap := \<lambda>_.
             (new_peer 0 [97] [104] 1)\<lparr>p_state := PS_SUSPECT, p_incarnation := 2\<rparr>\<rparr>));
       a' = fst (membership_handle_message 9 m (demo_membership PS_ALIVE 0));
       b' = fst (membership_handle_message 9 (last (updates_queue a')) b)
   in p_state (heap b 5) = PS_SUSPECT \<and> p_state (heap b' 5) = PS_ALIVE \<and> p_incarnation (heap b' 5) = 3"
proof -
  define m :: gmsg where "m = (new_message SUSPECT [99] 4 0)\<lparr>target_id := Some [97], msg_incarnation := 2\<rparr>"
  define b where "b = fst (add_peer 5 ((demo_membership PS_ALIVE 0)\<lparr>heap := \<lambda>_.
             (new_peer 0 [97] [104] 1)\<lparr>p_state := PS_SUSPECT, p_incarnation := 2\<rparr>\<rparr>))"
  have m: "msg_type m = SUSPECT" "target_id m = Some [97]" "msg_incarnation m = 2"
    by (simp_all add: m_def new_message_def)
  have me: "local_peer (demo_membership PS_ALIVE 0) = new_peer 0 [97] [104] 1"
    by (simp add: local_peer_def)
  have b: "map_of (peers b) [97] = Some 5" "p_state (heap b 5) = PS_SUSPECT" "p_incarnation (heap b 5) = 2"
    by (simp_all add: b_def add_peer_def Let_def new_peer_def)
  have i: "p_incarnation (local_peer (fst (membership_handle_message 9 m (demo_membership PS_ALIVE 0)))) = 3"
    by (simp add: membership_handle_message_def handle_suspect_def m me new_peer_def broadcast_alive_def
        next_sequence_def enqueue_update_def Let_def local_peer_def)
  have "p_id (local_peer (demo_membership PS_ALIVE 0)) = [97]" by (simp add: me new_peer_def)
  note r = suspicion_refuted [OF m(1), of "demo_membership PS_ALIVE 0" b 5 9 9, unfolded this m me b Let_def]
  show ?thesis
    unfolding Let_def m_def [symmetric] b_def [symmetric]
    using r i b by (simp add: new_peer_def)
qed

text \<open>
  The acknowledgement a node sends for a ping never changes what the prober believes:
  no peer's state, incarnation or time last seen moves and no callback is made, because
  \<open>create_ack\<close> leaves the incarnation at 0 and \<open>mark_alive\<close> takes that for stale. In
  particular a suspected peer that answers stays suspected.
\<close>

lemma ack_never_revives:
  assumes "table_wf b" and "\<forall>r \<in> set (get_all_peers b). 0 \<le> p_incarnation (heap b r)"
    and "membership_handle_message t ping a = (a', Some ack)"
  shows "let b' = fst (membership_handle_message t' ack b)
         in (\<forall>k. map_option (\<lambda>p. p\<lparr>p_latency_ms := PInf\<rparr>) (view b' k) =
                 map_option (\<lambda>p. p\<lparr>p_latency_ms := PInf\<rparr>) (view b k)) \<and>
            notices b' = notices b \<and> suspicion_timers b' = suspicion_timers b \<and> armed b' = armed b"
proof -
  have ack: "msg_type ack = ACK" "msg_incarnation ack = 0"
    using assms(3)
    by (auto simp: membership_handle_message_def handle_ping_def create_ack_def new_message_def Let_def
        split: message_type.splits)
  have inert: "mark_alive t' (Some 0) p = (p, False)" if "0 \<le> p_incarnation p" for p
    using that by (simp add: mark_alive_def)
  have "view b' k = view b k \<or> (\<exists>l r. map_of (peers b) k = Some r \<and>
      view b' k = Some (update_latency l (1/10) (heap b r)))"
    if "b' = handle_ack t' ack b" for b' k
  proof (cases "map_of (pending_probes b) (msg_sequence ack)")
    case (Some probe)
    let ?l = "(t' - pr_start_time probe) * 1000"
    note v = view_handle_ack [OF assms(1) Some, of t', folded that, unfolded ack(2)]
    show ?thesis
    proof (cases "k = pr_target_id probe \<and> map_of (peers b) k \<noteq> None")
      case True
      then obtain r where r: "map_of (peers b) k = Some r" by auto
      then have "0 \<le> p_incarnation (heap b r)"
        using assms(2) map_of_SomeD [OF r] by (force simp: get_all_peers_def)
      then have "view b' k = Some (update_latency ?l (1/10) (heap b r))"
        using True r by (simp only: v) (simp add: spec_update_def view_def inert)
      with r show ?thesis by blast
    qed (auto simp: v spec_update_def view_def)
  qed (simp add: that handle_ack_def)
  moreover have "(update_latency l (1/10) p)\<lparr>p_latency_ms := PInf\<rparr> = p\<lparr>p_latency_ms := PInf\<rparr>" for l p
    by (simp add: update_latency_def split: pyfloat.split)
  moreover have "notices b' = notices b \<and> suspicion_timers b' = suspicion_timers b \<and> armed b' = armed b"
    if "b' = handle_ack t' ack b" for b'
  proof -
    have "0 \<le> p_incarnation (heap b r)" if "map_of (peers b) k = Some r" for k r
      using assms(2) map_of_SomeD [OF that] by (force simp: get_all_peers_def)
    then show ?thesis
      by (auto simp: that handle_ack_def ack(2) revive_def inert Let_def split: option.split)
  qed
  ultimately show ?thesis
    by (simp add: membership_handle_message_def ack(1) Let_def)
      (metis (no_types, lifting) option.simps(9) view_def)
qed

lemma ack_never_revives_witness:
  "let ping = create_ping 1 [98] 1 [98];
       b = fst (probe_begin 1 1 (demo_membership PS_SUSPECT 0));
       ack = the (snd (membership_handle_message 2 ping (demo_membership PS_ALIVE 0)));
       b' = fst (membership_handle_message 3 ack b)
   in map_of (pending_probes b) (msg_sequence ack) \<noteq> None \<and>
      map_option p_state (view b' [98]) = Some PS_SUSPECT"
proof -
  define ping :: gmsg where "ping = create_ping 1 [98] 1 [98]"
  define a where "a = demo_membership PS_ALIVE 0"
  define b where "b = fst (probe_begin 1 1 (demo_membership PS_SUSPECT 0))"
  have b: "table_wf b" "\<forall>r \<in> set (get_all_peers b). 0 \<le> p_incarnation (heap b r)"
    "map_of (pending_probes b) 1 \<noteq> None" "map_option p_state (view b [98]) = Some PS_SUSPECT"
    by (simp_all add: b_def probe_begin_def next_sequence_def table_wf_def get_all_peers_def view_def)
  have "snd (membership_handle_message 2 ping a) \<noteq> None"
    "msg_sequence (the (snd (membership_handle_message 2 ping a))) = 1"
    by (simp_all add: ping_def create_ping_def new_message_def membership_handle_message_def
        handle_ping_def create_ack_def)
  then obtain a' ack where ack: "membership_handle_message 2 ping a = (a', Some ack)"
    "msg_sequence ack = 1"
    by (cases "membership_handle_message 2 ping a") auto
  define b' where "b' = fst (membership_handle_message 3 ack b)"
  have "map_option (\<lambda>p. p\<lparr>p_latency_ms := PInf\<rparr>) (view b' [98]) =
      map_option (\<lambda>p. p\<lparr>p_latency_ms := PInf\<rparr>) (view b [98])"
    using ack_never_revives [OF b(1,2) ack(1), of 3] unfolding Let_def b'_def [symmetric] by blast
  then have "map_option p_state (map_option (\<lambda>p. p\<lparr>p_latency_ms := PInf\<rparr>) (view b' [98])) =
      map_option p_state (map_option (\<lambda>p. p\<lparr>p_latency_ms := PInf\<rparr>) (view b [98]))" by simp
  then have "map_option p_state (view b' [98]) = Some PS_SUSPECT"
    using b(4) by (simp add: option.map_comp comp_def)
  with b(3) ack show ?thesis
    unfolding Let_def ping_def [symmetric] a_def [symmetric] b_def [symmetric]
    by (simp add: b'_def)
qed

text \<open>
  A ping undoes a refutation: a live peer whose recorded incarnation is \<open>i\<close> is immune to a
  suspicion with a smaller incarnation \<open>j\<close>, but once it pings (\<open>create_ping\<close> carries
  incarnation 0, which \<open>_handle_ping\<close> stores without a comparison), the same stale suspicion
  makes it suspected and arms a timer.
\<close>

lemma ping_undoes_refutation:
  assumes "map_of (peers s) k = Some r" and "k \<noteq> p_id (local_peer s)"
    and "p_state (heap s r) = PS_ALIVE" and "0 \<le> j" and "j < p_incarnation (heap s r)"
    and "map_of (suspicion_timers s) k = None"
    and "local_ref s \<noteq> r"
  shows "let suspicion = (new_message SUSPECT reporter q t)\<lparr>target_id := Some k, msg_incarnation := j\<rparr>;
             s1 = fst (membership_handle_message t1 (create_ping t0 k q' dest) s);
             s2 = fst (membership_handle_message t2 suspicion s1)
         in fst (membership_handle_message t2 suspicion s) = s \<and>
            p_state (heap s2 r) = PS_SUSPECT \<and>
            map_of (suspicion_timers s2) k = Some (next_handle s) \<and>
            (next_handle s, k, t2 + real_of_int (probe_interval_ms s * suspicion_mult s) / 1000) \<in> set (armed s2)"
proof -
  have "set_peer r (heap s r) s = s" by (simp add: set_peer_def)
  moreover have "local_peer (set_peer r p s) = local_peer s" for p
    using assms(7) by (simp add: local_peer_def)
  ultimately show ?thesis
    using assms
    by (simp add: Let_def membership_handle_message_def handle_suspect_def new_message_def
        mark_suspect_def handle_ping_def create_ping_def start_suspicion_timer_def notify_def)
qed

lemma ping_undoes_refutation_witness:
  "let s = demo_membership PS_ALIVE 5;
       suspicion = (new_message SUSPECT [99] 1 0)\<lparr>target_id := Some [98], msg_incarnation := 2\<rparr>;
       s1 = fst (membership_handle_message 1 (create_ping 0 [98] 1 [97]) s)
   in p_state (heap (fst (membership_handle_message 2 suspicion s)) 1) = PS_ALIVE \<and>
      p_state (heap (fst (membership_handle_message 2 suspicion s1)) 1) = PS_SUSPECT"
proof -
  have "[98] \<noteq> p_id (local_peer (demo_membership PS_ALIVE 5))"
    by (simp add: local_peer_def new_peer_def)
  then show ?thesis
    using ping_undoes_refutation [where s = "demo_membership PS_ALIVE 5" and k = "[98]" and r = 1
        and j = 2 and reporter = "[99]" and q = 1 and t = 0 and ?t0.0 = 0 and ?t1.0 = 1 and ?t2.0 = 2
        and q' = 1 and dest = "[97]"]
    by (simp add: Let_def)
qed

text \<open>
  A confirmed death reaches exactly the named peer and only if it is suspected at that
  moment; every other peer of the table is as before, and \<open>on_dead\<close> is called once, with
  the dead peer, if and only if the callback is given and the peer was suspected.
\<close>

lemma confirm_dead_only_suspects:
  assumes "table_wf s"
  shows "view (confirm_dead k s) =
      spec_update (\<lambda>p. if p_state p = PS_SUSPECT then p\<lparr>p_state := PS_DEAD\<rparr> else p) k (view s) \<and>
    notices (confirm_dead k s) = notices s @
      (case view s k of
         None \<Rightarrow> []
       | Some p \<Rightarrow> if p_state p = PS_SUSPECT \<and> has_on_dead s then [OnDead (p\<lparr>p_state := PS_DEAD\<rparr>)] else [])"
proof -
  define s1 where "s1 = s\<lparr>suspicion_timers := AList.delete k (suspicion_timers s)\<rparr>"
  have s1: "table_wf s1" "peers s1 = peers s" "heap s1 = heap s" "notices s1 = notices s"
    "has_on_dead s1 = has_on_dead s" "view s1 = view s"
    using assms by (simp_all add: s1_def table_wf_def view_def [abs_def])
  have cd: "confirm_dead k s = (case map_of (peers s) k of None \<Rightarrow> s1
      | Some r \<Rightarrow> if p_state (heap s r) = PS_SUSPECT
          then notify (has_on_dead s) (OnDead ((heap s r)\<lparr>p_state := PS_DEAD\<rparr>))
                 (set_peer r ((heap s r)\<lparr>p_state := PS_DEAD\<rparr>) s1)
          else s1)"
    by (simp add: confirm_dead_def s1_def [symmetric] s1 Let_def mark_dead_def split: option.split)
  show ?thesis
  proof (cases "map_of (peers s) k")
    case None
    then show ?thesis by (simp add: cd s1 spec_update_absent) (simp add: view_def)
  next
    case (Some r)
    then have "map_of (peers s1) k = Some r" by (simp add: s1)
    note v = view_set_peer [OF s1(1) this]
    from Some have "view s k = Some (heap s r)" by (simp add: view_def)
    with Some show ?thesis
      by (auto simp: cd v view_notify s1 spec_update_def fun_upd_idem) (auto simp: notify_def s1)
  qed
qed

lemma confirm_dead_only_suspects_witness:
  "notices (confirm_dead [98] (demo_membership PS_SUSPECT 0)) = [OnDead (demo_peer PS_DEAD 0)] \<and>
   notices (confirm_dead [98] (demo_membership PS_ALIVE 0)) = []"
  using confirm_dead_only_suspects [OF demo_table_wf(1) [of PS_SUSPECT 0], of "[98]"]
    confirm_dead_only_suspects [OF demo_table_wf(1) [of PS_ALIVE 0], of "[98]"]
  by (simp add: view_def demo_notices) (simp add: demo_peer_def)

text \<open>
  Piggybacking: reading the queue in pieces of any (also negative) sizes hands every
  update out at most once, in the order of strictly increasing sequence numbers, and what
  was handed out together with what is left is the original queue.
\<close>

lemma updates_drained_in_order:
  assumes "membership_wf s"
  shows "snd (drain ns s) @ updates_queue (fst (drain ns s)) = updates_queue s \<and>
    sorted_wrt (\<lambda>a b. msg_sequence a < msg_sequence b) (snd (drain ns s)) \<and>
    (\<forall>m \<in> set (snd (drain ns s)). msg_type m \<in> {ALIVE, SUSPECT} \<and> msg_sequence m \<le> sequence_num s)"
proof -
  have q: "queue_wf s" using assms by (rule membership_wfD)
  have c: "updates_queue s = snd (drain ns s) @ updates_queue (fst (drain ns s))"
    using drain_conserves [of ns s] by simp
  from q have "sorted_wrt (\<lambda>a b. msg_sequence a < msg_sequence b) (snd (drain ns s))"
    unfolding queue_wf_def by (subst (asm) (2) c) (simp add: sorted_wrt_append)
  moreover have "set (snd (drain ns s)) \<subseteq> set (updates_queue s)" by (subst c) simp
  ultimately show ?thesis
    using q c by (auto simp: queue_wf_def update_ok_def)
qed

lemma updates_drained_in_order_witness:
  "let s = broadcast_alive 2 (broadcast_alive 1 (demo_membership PS_ALIVE 0))
   in map msg_sequence (snd (drain [1, 1] s)) = [1, 2] \<and>
      sorted_wrt (\<lambda>a b. msg_sequence a < msg_sequence b) (snd (drain [1, 1] s))"
proof -
  define s where "s = broadcast_alive 2 (broadcast_alive 1 (demo_membership PS_ALIVE 0))"
  have "membership_wf s"
    unfolding s_def demo_membership_def
    by (intro wf_broadcast_alive wf_add_peer wf_new_membership)
  from updates_drained_in_order [OF this, of "[1, 1]"]
  have "sorted_wrt (\<lambda>a b. msg_sequence a < msg_sequence b) (snd (drain [1, 1] s))" by blast
  moreover have "map msg_sequence (snd (drain [1, 1] s)) = [1, 2]"
    by (simp add: s_def broadcast_alive_def next_sequence_def enqueue_update_def Let_def
        get_pending_updates_def py_upto_def py_from_def slice_pos_def new_message_def)
  ultimately show ?thesis by (simp add: s_def Let_def)
qed

end
