(* ===== verification/Membership_Run.thy ===== *)
theory Membership_Run
  imports Membership_Inv
begin

text \<open>
  The membership manager at run time: the probe task, message delivery, timers and the
  probe lock, as a step relation. One step is a piece of a coroutine between two
  suspension points. Of the three \<open>asyncio\<close> locks only \<open>probe_lock\<close> is ever held across
  a suspension, so it is the only one in the state; \<open>peer_lock\<close> and \<open>updates_lock\<close> are
  free whenever a task is resumed. \<open>asyncio.Lock\<close> is not reentrant and serves waiting
  tasks in order.
\<close>

section \<open>State\<close>

text \<open>Where the probe task is suspended.\<close>

datatype prober =
    NotStarted
  | LoopTop                        \<comment> \<open>about to test \<open>self._running\<close>\<close>
  | AwaitAck ref int               \<comment> \<open>sleeping in \<open>_probe_peer\<close>\<close>
  | AwaitLock ref int "ref list"   \<comment> \<open>in \<open>_indirect_probe\<close>, acquiring \<open>probe_lock\<close>\<close>
  | AwaitIndirect ref int          \<comment> \<open>in \<open>_indirect_probe\<close>, sleeping\<close>
  | Pause                          \<comment> \<open>sleeping in \<open>_probe_loop\<close>\<close>
  | Stopped

text \<open>
  \<open>ack_waiters\<close> are ACK handlers waiting for the lock, \<open>confirm_tasks\<close> the tasks that
  expired timers have created, \<open>next_ref\<close> the next free place of the heap, \<open>stopping\<close>
  says that \<open>stop\<close> waits for the probe task.
\<close>

record world =
  mb :: membership
  clock :: real
  running :: bool
  prober :: prober
  probe_lock :: bool
  ack_waiters :: "gmsg list"
  confirm_tasks :: "pystr list"
  next_ref :: ref
  stopping :: bool

definition init_world :: "peer \<Rightarrow> real \<Rightarrow> int \<Rightarrow> int \<Rightarrow> int \<Rightarrow> int \<Rightarrow> bool \<times> bool \<times> bool \<Rightarrow> world" where
  "init_world me now interval timeout indirect susp cb =
     \<lparr>mb = new_membership (\<lambda>_. me) 0 interval timeout indirect susp cb, clock = now,
      running = False, prober = NotStarted, probe_lock = False, ack_waiters = [],
      confirm_tasks = [], next_ref = 1, stopping = False\<rparr>"

text \<open>\<open>async with self.probe_lock\<close> proceeds at once.\<close>

definition lock_free :: "world \<Rightarrow> bool" where
  "lock_free w \<longleftrightarrow> \<not> probe_lock w \<and> ack_waiters w = []"

section \<open>The pieces of the probe task\<close>

text \<open>\<open>_probe_round\<close> and \<open>_probe_peer\<close> up to the first sleep.\<close>

definition probe_round :: "nat list \<Rightarrow> world \<Rightarrow> world" where
  "probe_round ds w =
     (let alive = get_alive_peers (mb w) in
      if alive = [] then w\<lparr>prober := Pause\<rparr>
      else
        let target = py_choice ds alive;
            (m, sequence) = probe_begin (clock w) target (mb w)
        in w\<lparr>mb := m, prober := AwaitAck target sequence\<rparr>)"

text \<open>
  \<open>_probe_peer\<close> after the sleep, and \<open>_indirect_probe\<close> up to its own acquisition of the
  lock. An exception of \<open>random.sample\<close> is caught by the loop.
\<close>

definition after_ack_wait :: "nat list \<Rightarrow> ref \<Rightarrow> int \<Rightarrow> world \<Rightarrow> world" where
  "after_ack_wait ds target sequence w =
     (if \<not> unanswered sequence (mb w) then w\<lparr>prober := Pause\<rparr>
      else
        case select_random_peers ds (indirect_probes (mb w))
               [p_id (heap (mb w) target), p_id (local_peer (mb w))] (mb w) of
          Inl e \<Rightarrow> w\<lparr>prober := Pause\<rparr>
        | Inr probes \<Rightarrow>
            if probes = []
            then w\<lparr>mb := suspect_peer (clock w) target (mb w), prober := Pause\<rparr>
            else w\<lparr>prober := AwaitLock target sequence probes, probe_lock := True\<rparr>)"

text \<open>\<open>_indirect_probe\<close> after it has the lock: the helpers are recorded, the lock released.\<close>

definition after_lock :: "ref \<Rightarrow> int \<Rightarrow> ref list \<Rightarrow> world \<Rightarrow> world" where
  "after_lock target sequence probes w =
     w\<lparr>mb := set_indirect_targets sequence probes (mb w), prober := AwaitIndirect target sequence\<rparr>"

text \<open>\<open>_indirect_probe\<close> after its sleep.\<close>

definition after_indirect_wait :: "ref \<Rightarrow> int \<Rightarrow> world \<Rightarrow> world" where
  "after_indirect_wait target sequence w =
     (if unanswered sequence (mb w) then
        let m = suspect_peer (clock w) target (mb w)
        in w\<lparr>mb := m\<lparr>pending_probes := AList.delete sequence (pending_probes m)\<rparr>, prober := Pause\<rparr>
      else w\<lparr>prober := Pause\<rparr>)"

section \<open>Starting and stopping\<close>

text \<open>
  \<open>stop\<close> clears the flag and cancels the probe task, which gives back the lock if it held
  it; when the task has ended, the timers are cancelled.
\<close>

definition start_manager :: "world \<Rightarrow> world" where
  "start_manager w = w\<lparr>running := True, prober := LoopTop\<rparr>"

definition stop_manager :: "world \<Rightarrow> world" where
  "stop_manager w =
     w\<lparr>running := False, prober := (if prober w = NotStarted then NotStarted else Stopped),
       probe_lock := False, stopping := True\<rparr>"

definition stop_finish :: "world \<Rightarrow> world" where
  "stop_finish w = w\<lparr>mb := cancel_all_timers (mb w), stopping := False\<rparr>"

text \<open>An expired timer leaves the loop and creates the task that confirms the death.\<close>

definition timer_fires :: "nat \<Rightarrow> pystr \<Rightarrow> world \<Rightarrow> world" where
  "timer_fires h pid w =
     w\<lparr>mb := (mb w)\<lparr>armed := filter (\<lambda>x. fst x \<noteq> h) (armed (mb w))\<rparr>,
       confirm_tasks := confirm_tasks w @ [pid]\<rparr>"

section \<open>Steps\<close>

text \<open>
  Adding a peer stores a new object; a timer fires when its deadline has passed; \<open>stop\<close>
  cancels the probe task, which gives back the lock, and later cancels the timers. When the
  probe task has ended, \<open>start\<close> creates a new one.
\<close>

definition deliver_ack :: "gmsg \<Rightarrow> world \<Rightarrow> world" where
  "deliver_ack msg w =
     (if lock_free w then w\<lparr>mb := handle_ack (clock w) msg (mb w)\<rparr>
      else w\<lparr>ack_waiters := ack_waiters w @ [msg]\<rparr>)"

inductive wstep :: "world \<Rightarrow> world \<Rightarrow> bool" where
  start: "prober w = NotStarted \<or> prober w = Stopped \<Longrightarrow> wstep w (start_manager w)"
| round: "prober w = LoopTop \<Longrightarrow> running w \<Longrightarrow> lock_free w \<Longrightarrow> wstep w (probe_round ds w)"
| loop_exit: "prober w = LoopTop \<Longrightarrow> \<not> running w \<Longrightarrow> wstep w (w\<lparr>prober := Stopped\<rparr>)"
| ack_timeout: "prober w = AwaitAck r q \<Longrightarrow> lock_free w \<Longrightarrow> wstep w (after_ack_wait ds r q w)"
| lock_again: "prober w = AwaitLock r q ps \<Longrightarrow> lock_free w \<Longrightarrow> wstep w (after_lock r q ps w)"
| indirect_timeout: "prober w = AwaitIndirect r q \<Longrightarrow> lock_free w \<Longrightarrow>
    wstep w (after_indirect_wait r q w)"
| wake: "prober w = Pause \<Longrightarrow> wstep w (w\<lparr>prober := LoopTop\<rparr>)"
| receive: "msg_type msg \<noteq> ACK \<Longrightarrow>
    wstep w (w\<lparr>mb := fst (membership_handle_message (clock w) msg (mb w))\<rparr>)"
| receive_ack: "msg_type msg = ACK \<Longrightarrow> wstep w (deliver_ack msg w)"
| ack_resumes: "\<not> probe_lock w \<Longrightarrow> ack_waiters w = msg # rest \<Longrightarrow>
    wstep w (w\<lparr>mb := handle_ack (clock w) msg (mb w), ack_waiters := rest\<rparr>)"
| timer: "(h, pid, t) \<in> set (armed (mb w)) \<Longrightarrow> t \<le> clock w \<Longrightarrow>
    wstep w (timer_fires h pid w)"
| confirm: "confirm_tasks w = pid # rest \<Longrightarrow>
    wstep w (w\<lparr>mb := confirm_dead pid (mb w), confirm_tasks := rest\<rparr>)"
| tick: "0 \<le> d \<Longrightarrow> wstep w (w\<lparr>clock := clock w + d\<rparr>)"
| add: "wstep w (w\<lparr>mb := fst (add_peer (next_ref w) (set_peer (next_ref w) p (mb w))),
                   next_ref := next_ref w + 1\<rparr>)"
| remove: "wstep w (w\<lparr>mb := fst (remove_peer pid (mb w))\<rparr>)"
| piggyback: "wstep w (w\<lparr>mb := fst (get_pending_updates n (mb w))\<rparr>)"
| stop: "wstep w (stop_manager w)"
| stop_timers: "stopping w \<Longrightarrow> wstep w (stop_finish w)"

inductive reachable :: "world \<Rightarrow> bool" where
  init: "reachable (init_world me now interval timeout indirect susp cb)"
| step: "reachable w \<Longrightarrow> wstep w w' \<Longrightarrow> reachable w'"

inductive_cases wstep_E: "wstep w w'"

lemmas task_defs = start_manager_def stop_manager_def stop_finish_def timer_fires_def

section \<open>The invariant of a run\<close>

text \<open>
  The lock is held exactly while the probe task waits for it again, and the second half of
  the indirect probe is never entered.
\<close>

definition lock_inv :: "world \<Rightarrow> bool" where
  "lock_inv w \<longleftrightarrow>
     (probe_lock w \<longleftrightarrow> (\<exists>r q ps. prober w = AwaitLock r q ps)) \<and>
     (\<forall>r q. prober w \<noteq> AwaitIndirect r q)"

definition refs_wf :: "world \<Rightarrow> bool" where
  "refs_wf w \<longleftrightarrow>
     local_ref (mb w) < next_ref w \<and> (\<forall>r \<in> snd ` set (peers (mb w)). r < next_ref w)"

definition world_wf :: "world \<Rightarrow> bool" where
  "world_wf w \<longleftrightarrow> membership_wf (mb w) \<and> lock_inv w \<and> refs_wf w"

lemma refs_wf_same_table:
  "refs_wf w \<Longrightarrow> same_table m (mb w) \<Longrightarrow> next_ref w' = next_ref w \<Longrightarrow> mb w' = m \<Longrightarrow> refs_wf w'"
  by (simp add: refs_wf_def same_table_def)

lemma world_wf_init: "world_wf (init_world me now interval timeout indirect susp cb)"
proof -
  let ?m = "new_membership (\<lambda>_. me) 0 interval timeout indirect susp cb"
  have "membership_wf ?m" by (rule wf_new_membership)
  moreover have "local_ref ?m = 0" "peers ?m = []" by (simp_all add: new_membership_def)
  ultimately show ?thesis by (simp add: world_wf_def init_world_def lock_inv_def refs_wf_def)
qed

text \<open>A step that changes the manager by an operation that keeps its invariant and table.\<close>

lemma world_wf_op:
  assumes "world_wf w" and "membership_wf m" and "same_table m (mb w)"
    and "w' = w\<lparr>mb := m\<rparr>"
  shows "world_wf w'"
  using assms by (auto simp: world_wf_def lock_inv_def refs_wf_def same_table_def)

lemma world_wf_prober:
  assumes "world_wf w" and "membership_wf m" and "same_table m (mb w)" and "lock_free w"
    and "p = Pause \<or> (\<exists>r q. p = AwaitAck r q)"
  shows "world_wf (w\<lparr>mb := m, prober := p\<rparr>)"
  using assms by (auto simp: world_wf_def lock_inv_def refs_wf_def same_table_def lock_free_def)

lemma same_table_refl: "same_table s s"
  by (simp add: same_table_def)

lemma world_wf_round:
  assumes "world_wf w" and "lock_free w"
  shows "world_wf (probe_round ds w)"
proof -
  have "membership_wf (mb w)" using assms(1) by (simp add: world_wf_def)
  then show ?thesis
    using world_wf_prober [OF assms(1) _ same_table_refl assms(2)]
      world_wf_prober [OF assms(1) wf_probe_begin same_table_ops(7) assms(2)]
    by (auto simp: probe_round_def Let_def case_prod_beta)
qed

lemma world_wf_ack_wait:
  assumes "world_wf w" and "lock_free w"
  shows "world_wf (after_ack_wait ds r q w)"
proof -
  have wf: "membership_wf (mb w)" using assms(1) by (simp add: world_wf_def)
  have pause: "world_wf (w\<lparr>prober := Pause\<rparr>)"
    using world_wf_prober [OF assms(1) wf same_table_refl assms(2), of Pause] by simp
  have suspect: "world_wf (w\<lparr>mb := suspect_peer (clock w) r (mb w), prober := Pause\<rparr>)"
    using world_wf_prober [OF assms(1) wf_suspect_peer [OF wf] same_table_ops(8) assms(2)] by simp
  have block: "world_wf (w\<lparr>prober := AwaitLock r q ps, probe_lock := True\<rparr>)" for ps
    using assms(1) by (auto simp: world_wf_def lock_inv_def refs_wf_def)
  show ?thesis
    using pause suspect block by (auto simp: after_ack_wait_def split: sum.splits)
qed

lemma world_wf_add:
  assumes "world_wf w"
  shows "world_wf (w\<lparr>mb := fst (add_peer (next_ref w) (set_peer (next_ref w) p (mb w))),
                    next_ref := next_ref w + 1\<rparr>)"
proof -
  let ?r = "next_ref w"
  let ?m = "set_peer ?r p (mb w)"
  have wf: "membership_wf (mb w)" and refs: "refs_wf w" and lock: "lock_inv w"
    using assms by (simp_all add: world_wf_def)
  from refs have "?r \<notin> snd ` set (peers (mb w))" by (auto simp: refs_wf_def)
  then have "table_wf ?m"
    using membership_wfD(1) [OF wf] by (intro table_wf_fresh)
  then have m: "membership_wf ?m"
    using wf by (simp add: membership_wf_def probes_wf_set_peer timers_wf_set_peer queue_wf_set_peer)
  have "r < ?r + 1" if "(k, r) \<in> set (peers (fst (add_peer ?r ?m)))" for k r
    using add_peer_table [OF that] refs by (fastforce simp: refs_wf_def)
  with refs have "refs_wf (w\<lparr>mb := fst (add_peer ?r ?m), next_ref := ?r + 1\<rparr>)"
    by (simp add: refs_wf_def) fastforce
  with lock wf_add_peer [OF m] show ?thesis unfolding world_wf_def lock_inv_def by auto
qed

lemma world_wf_step:
  assumes "wstep w w'" and "world_wf w"
  shows "world_wf w'"
  using assms
proof (induction rule: wstep.induct)
  case (round w ds)
  then show ?case by (intro world_wf_round)
next
  case (ack_timeout w r q ds)
  then show ?case by (intro world_wf_ack_wait)
next
  case (receive msg w)
  then show ?case
    by (intro world_wf_op [OF _ wf_handle_message same_table_message refl])
      (simp_all add: world_wf_def)
next
  case (receive_ack msg w)
  then have "membership_wf (mb w)" by (simp add: world_wf_def)
  then have "world_wf (w\<lparr>mb := handle_ack (clock w) msg (mb w)\<rparr>)"
    using receive_ack.prems by (intro world_wf_op [OF _ wf_handle_ack same_table_ack refl])
  moreover have "\<not> lock_free w \<Longrightarrow> world_wf (w\<lparr>ack_waiters := ack_waiters w @ [msg]\<rparr>)"
    using receive_ack.prems by (auto simp: world_wf_def lock_inv_def refs_wf_def lock_free_def)
  ultimately show ?case by (simp add: deliver_ack_def)
next
  case (ack_resumes w msg rest)
  then have "membership_wf (mb w)" by (simp add: world_wf_def)
  then have "world_wf (w\<lparr>mb := handle_ack (clock w) msg (mb w)\<rparr>)"
    using ack_resumes.prems by (intro world_wf_op [OF _ wf_handle_ack same_table_ack refl])
  with ack_resumes show ?case by (auto simp: world_wf_def lock_inv_def refs_wf_def)
next
  case (timer h pid t w)
  then show ?case
    by (auto simp: world_wf_def lock_inv_def refs_wf_def membership_wf_def table_wf_def probes_wf_def
        timers_wf_def queue_wf_def update_ok_def distinct_map_filter timer_fires_def)
next
  case (confirm w pid rest)
  then have "membership_wf (mb w)" by (simp add: world_wf_def)
  then have "world_wf (w\<lparr>mb := confirm_dead pid (mb w)\<rparr>)"
    using confirm.prems by (intro world_wf_op [OF _ wf_confirm_dead same_table_ops(5) refl])
  then show ?case by (auto simp: world_wf_def lock_inv_def refs_wf_def)
next
  case (add w p)
  then show ?case by (rule world_wf_add)
next
  case (remove w pid)
  then show ?case
    using remove_peer_table [of pid "mb w"] wf_remove_peer [of "mb w" pid]
    by (auto simp: world_wf_def lock_inv_def refs_wf_def)
next
  case (piggyback w n)
  then show ?case
    by (intro world_wf_op [OF _ wf_get_pending_updates same_table_ops(10) refl])
      (simp_all add: world_wf_def)
next
  case (stop_timers w)
  then have "membership_wf (mb w)" by (simp add: world_wf_def)
  then have "world_wf (w\<lparr>mb := cancel_all_timers (mb w)\<rparr>)"
    using stop_timers.prems by (intro world_wf_op [OF _ wf_cancel_all same_table_ops(6) refl])
  then show ?case by (auto simp: world_wf_def lock_inv_def refs_wf_def stop_finish_def)
qed (auto simp: task_defs world_wf_def lock_inv_def refs_wf_def lock_free_def)

lemma reachable_world_wf: "reachable w \<Longrightarrow> world_wf w"
  by (induction rule: reachable.induct) (auto intro: world_wf_init world_wf_step)

end
