(* ===== verification/Membership_Progress.thy ===== *)
theory Membership_Progress
  imports Membership_Run Membership_Props
begin

text \<open>
  What a run of the membership manager can and cannot do: the invariant in every reachable
  state, the outcome of a probe nobody answers, the probe task waiting for its own lock,
  and the course of a suspicion.
\<close>

section \<open>The probe lock\<close>

text \<open>The probe task waits for the lock it holds itself.\<close>

definition stuck :: "world \<Rightarrow> world \<Rightarrow> bool" where
  "stuck w0 w \<longleftrightarrow>
     prober w = prober w0 \<and> probe_lock w \<and>
     pending_probes (mb w) = pending_probes (mb w0) \<and>
     (\<exists>later. ack_waiters w = ack_waiters w0 @ later)"

definition halted :: "world \<Rightarrow> bool" where
  "halted w \<longleftrightarrow> \<not> running w \<and> prober w = Stopped"

lemma pending_untouched:
  "msg_type m \<noteq> ACK \<Longrightarrow>
     pending_probes (fst (membership_handle_message now m s)) = pending_probes s"
  "pending_probes (confirm_dead pid s) = pending_probes s"
  "pending_probes (fst (add_peer r s)) = pending_probes s"
  "pending_probes (fst (remove_peer pid s)) = pending_probes s"
  "pending_probes (fst (get_pending_updates n s)) = pending_probes s"
  "pending_probes (cancel_all_timers s) = pending_probes s"
  by (cases "msg_type m")
    (auto simp: membership_handle_message_def handle_ping_def handle_ping_req_def handle_alive_def
      handle_suspect_def handle_dead_def revive_def broadcast_alive_def next_sequence_def
      enqueue_update_def confirm_dead_def add_peer_def remove_peer_def get_pending_updates_def
      cancel_all_timers_def case_prod_beta Let_def split: option.split)

lemma stuck_step:
  assumes "wstep w w'" and "stuck w0 w" and "prober w0 = AwaitLock r q ps"
  shows "halted w' \<or> stuck w0 w'"
  using assms
  by (induction rule: wstep.induct)
    (auto simp: task_defs stuck_def halted_def pending_untouched deliver_ack_def lock_free_def)

text \<open>Steps that do not stop the manager.\<close>

abbreviation running_step :: "world \<Rightarrow> world \<Rightarrow> bool" where
  "running_step w w' \<equiv> wstep w w' \<and> running w'"

lemma stuck_until_stop:
  assumes "running_step\<^sup>*\<^sup>* w w'" and "stuck w0 w" and "prober w0 = AwaitLock r q ps"
  shows "stuck w0 w'"
  using assms by (induction rule: rtranclp_induct) (auto simp: halted_def dest: stuck_step)

section \<open>The outcome of a probe\<close>

text \<open>The peers that may help with an indirect probe of the peer at \<open>r\<close>.\<close>

definition helpers :: "ref \<Rightarrow> membership \<Rightarrow> ref list" where
  "helpers r s =
     filter (\<lambda>x. p_id (heap s x) \<notin> {p_id (heap s r), p_id (local_peer s)}) (get_alive_peers s)"

lemma helpers_selected:
  assumes "table_wf s" and "0 < n" and "helpers r s \<noteq> []"
  shows "\<exists>ps. select_random_peers ds n [p_id (heap s r), p_id (local_peer s)] s = Inr ps \<and> ps \<noteq> [] \<and>
    set ps \<subseteq> set (helpers r s)"
proof -
  let ?sel = "select_random_peers ds n [p_id (heap s r), p_id (local_peer s)] s"
  note spec = select_random_spec [OF assms(1), where ds = ds and n = n and ex = "[p_id (heap s r), p_id (local_peer s)]"]
  obtain ps where ps: "?sel = Inr ps" using spec assms(2) by (cases ?sel) auto
  with spec have len: "int (length ps) = min n (int (length (helpers r s)))"
    and sub: "\<forall>x \<in> set ps. x \<in> set (get_all_peers s) \<and> is_alive (heap s x) \<and>
      p_id (heap s x) \<notin> {p_id (heap s r), p_id (local_peer s)}"
    by (simp_all add: helpers_def)
  have "0 < length (helpers r s)" using assms(3) by simp
  with len assms(2) have "ps \<noteq> []" by (auto simp: min_def split: if_splits)
  with ps sub show ?thesis by (auto simp: helpers_def get_alive_peers_def get_all_peers_def)
qed

lemma no_helpers_selected:
  assumes "helpers r s = []" and "0 \<le> n"
  shows "select_random_peers ds n [p_id (heap s r), p_id (local_peer s)] s = Inr []"
proof -
  have none: "filter (\<lambda>x. p_id (heap s x) \<notin> set [p_id (heap s r), p_id (local_peer s)]) (get_alive_peers s) = []"
    using assms(1) unfolding helpers_def by simp
  show ?thesis using assms(2) by (simp only: select_random_peers_def candidates_dir none Let_def) simp
qed

section \<open>A run\<close>

text \<open>
  Node \<open>a\<close> adds \<open>b\<close> and \<open>c\<close> (at 1 and 2), starts, probes \<open>b\<close>, and the wait for the ACK ends.
\<close>

definition demo_node :: "nat \<Rightarrow> peer" where
  "demo_node c = new_peer 0 [c] [104] 1"

definition demo_add :: "peer \<Rightarrow> world \<Rightarrow> world" where
  "demo_add p w = w\<lparr>mb := fst (add_peer (next_ref w) (set_peer (next_ref w) p (mb w))),
                    next_ref := next_ref w + 1\<rparr>"

definition demo_start :: world where
  "demo_start = (demo_add (demo_node 99) (demo_add (demo_node 98)
     (init_world (demo_node 97) 0 1000 500 3 5 (True, True, True))))\<lparr>running := True, prober := LoopTop\<rparr>"

definition demo_probing :: world where
  "demo_probing = probe_round [0] demo_start"

definition demo_blocked :: world where
  "demo_blocked = after_ack_wait [0] 1 1 demo_probing"

lemma demo_start_simps [simp]:
  "peers (mb demo_start) = [([98], 1), ([99], 2)]"
  "heap (mb demo_start) (Suc 0) = demo_node 98" "heap (mb demo_start) 2 = demo_node 99"
  "local_peer (mb demo_start) = demo_node 97" "sequence_num (mb demo_start) = 0"
  "pending_probes (mb demo_start) = []" "indirect_probes (mb demo_start) = 3"
  "prober demo_start = LoopTop" "running demo_start" "lock_free demo_start"
  "clock demo_start = 0" "ack_waiters demo_start = []" "probe_lock demo_start = False"
  "confirm_tasks demo_start = []" "suspicion_timers (mb demo_start) = []"
  "armed (mb demo_start) = []" "probe_interval_ms (mb demo_start) = 1000"
  "suspicion_mult (mb demo_start) = 5" "local_ref (mb demo_start) = 0"
  by (simp_all add: demo_start_def demo_add_def init_world_def new_membership_def add_peer_def
      demo_node_def new_peer_def set_peer_def Let_def local_peer_def lock_free_def)

lemma demo_node_simps [simp]:
  "p_id (demo_node c) = [c]" "is_alive (demo_node c)" "p_incarnation (demo_node c) = 0"
  by (simp_all add: demo_node_def new_peer_def is_alive_def)

lemma demo_probing_simps:
  "prober demo_probing = AwaitAck 1 1" "lock_free demo_probing"
  "mb demo_probing = fst (probe_begin 0 1 (mb demo_start))" "clock demo_probing = 0"
  by (simp_all add: demo_probing_def probe_round_def get_alive_peers_def py_choice_def draw_def
      probe_begin_def next_sequence_def Let_def lock_free_def)

lemma demo_mb_simps [simp]:
  "heap (mb demo_probing) = heap (mb demo_start)" "peers (mb demo_probing) = peers (mb demo_start)"
  "local_peer (mb demo_probing) = local_peer (mb demo_start)"
  "indirect_probes (mb demo_probing) = 3" "unanswered 1 (mb demo_probing)"
  by (simp_all add: demo_probing_simps probe_begin_def next_sequence_def Let_def local_peer_def
      unanswered_def)

lemma demo_helpers [simp]: "helpers (Suc 0) (mb demo_probing) = [2]"
  by (simp add: helpers_def get_alive_peers_def)

lemma demo_reachable: "reachable demo_start" "reachable demo_probing" "reachable demo_blocked"
proof -
  have add: "wstep w (demo_add p w)" for w p
    unfolding demo_add_def by (rule wstep.add)
  have "prober (demo_add p w) = prober w" for p w by (simp add: demo_add_def)
  then show start: "reachable demo_start"
    unfolding demo_start_def start_manager_def [symmetric]
    by (intro reachable.step [OF _ wstep.start] reachable.step [OF _ add] reachable.init)
      (simp add: init_world_def)
  have "wstep demo_start demo_probing"
    unfolding demo_probing_def by (rule wstep.round) simp_all
  with start show probing: "reachable demo_probing" by (rule reachable.step)
  have "wstep demo_probing demo_blocked"
    unfolding demo_blocked_def by (rule wstep.ack_timeout) (simp_all add: demo_probing_simps)
  with probing show "reachable demo_blocked" by (rule reachable.step)
qed

lemma demo_blocked_simps: "prober demo_blocked = AwaitLock 1 1 [2]" "mb demo_blocked = mb demo_probing"
  "running demo_blocked"
  by (simp_all add: demo_blocked_def after_ack_wait_def select_random_peers_def)
    (simp_all add: demo_probing_def probe_round_def Let_def case_prod_beta)

text \<open>
  C2. Every reachable state of the manager satisfies its invariant: keys unique and peers
  filed under their own identifiers, probes filed under sequence numbers handed out, timer
  handles unique, and queued updates in sequence order; moreover the second half of
  \<open>_indirect_probe\<close>, which would confirm or clear a suspicion, is never entered.
\<close>

theorem membership_invariant:
  assumes "reachable w"
  shows "membership_wf (mb w) \<and> (\<forall>r q. prober w \<noteq> AwaitIndirect r q) \<and>
    (probe_lock w \<longleftrightarrow> (\<exists>r q ps. prober w = AwaitLock r q ps))"
  using reachable_world_wf [OF assms] by (simp add: world_wf_def lock_inv_def)

theorem membership_invariant_witness:
  "prober demo_blocked = AwaitLock 1 1 [2] \<and> membership_wf (mb demo_blocked) \<and> probe_lock demo_blocked"
  using membership_invariant [OF demo_reachable(3)] by (simp add: demo_blocked_simps)

text \<open>
  What a probe leads to when its wait ends: an answered probe changes nothing, an
  unanswered one without possible helpers suspects the target, and an unanswered one with
  a helper leaves the target's state alone and makes the probe task wait, holding the
  probe lock, for the probe lock.
\<close>

lemma probe_outcome:
  assumes "reachable w" and "0 < indirect_probes (mb w)"
  shows "(\<not> unanswered q (mb w) \<longrightarrow> after_ack_wait ds r q w = w\<lparr>prober := Pause\<rparr>) \<and>
    (unanswered q (mb w) \<and> helpers r (mb w) = [] \<longrightarrow>
       after_ack_wait ds r q w = w\<lparr>mb := suspect_peer (clock w) r (mb w), prober := Pause\<rparr>) \<and>
    (unanswered q (mb w) \<and> helpers r (mb w) \<noteq> [] \<longrightarrow>
       (\<exists>ps. ps \<noteq> [] \<and> set ps \<subseteq> set (helpers r (mb w)) \<and>
          after_ack_wait ds r q w = w\<lparr>prober := AwaitLock r q ps, probe_lock := True\<rparr>))"
proof -
  have wf: "table_wf (mb w)"
    using reachable_world_wf [OF assms(1)] by (simp add: world_wf_def membership_wf_def)
  show ?thesis
    using helpers_selected [OF wf assms(2), of r ds]
      no_helpers_selected [of r "mb w" "indirect_probes (mb w)" ds] assms(2)
    unfolding after_ack_wait_def by fastforce
qed

lemma probe_outcome_witness:
  "\<exists>ps. ps \<noteq> [] \<and> set ps \<subseteq> {2} \<and>
     after_ack_wait [0] 1 1 demo_probing = demo_probing\<lparr>prober := AwaitLock 1 1 ps, probe_lock := True\<rparr>"
  using probe_outcome [OF demo_reachable(2), of 1 "[0]" 1] by simp

text \<open>
  C30. The probe loop blocks itself: once the probe task has entered \<open>_indirect_probe\<close> it
  waits for a lock it holds, so until \<open>stop\<close>, in every state it reaches, it still waits there and
  never probes again, and the pending probes are what they were. Every ACK delivered in such a
  state joins the end of the queue for the lock and does nothing else, and none ever leaves it.
\<close>

theorem probe_blocks_forever:
  assumes "reachable w" and "prober w = AwaitLock r q ps"
    and "(\<lambda>u v. wstep u v \<and> running v)\<^sup>*\<^sup>* w w'"
  shows "prober w' = AwaitLock r q ps \<and> probe_lock w' \<and>
    pending_probes (mb w') = pending_probes (mb w) \<and>
    (\<exists>later. ack_waiters w' = ack_waiters w @ later) \<and>
    (\<forall>m. msg_type m = ACK \<longrightarrow> wstep w' (deliver_ack m w') \<and>
       deliver_ack m w' = w'\<lparr>ack_waiters := ack_waiters w' @ [m]\<rparr>)"
proof -
  have "stuck w w"
    using reachable_world_wf [OF assms(1)] assms(2) by (auto simp: stuck_def world_wf_def lock_inv_def)
  from stuck_until_stop [OF assms(3) this assms(2)] have "stuck w w'" .
  moreover from this have "deliver_ack m w' = w'\<lparr>ack_waiters := ack_waiters w' @ [m]\<rparr>" for m
    by (simp add: stuck_def deliver_ack_def lock_free_def)
  moreover have "msg_type m = ACK \<Longrightarrow> wstep w' (deliver_ack m w')" for m by (rule wstep.receive_ack)
  ultimately show ?thesis unfolding stuck_def assms(2) by blast
qed

theorem probe_blocks_forever_witness:
  "wstep demo_blocked (deliver_ack (create_ack 1 [98] 1 [97]) demo_blocked) \<and>
   prober (deliver_ack (create_ack 1 [98] 1 [97]) demo_blocked) = AwaitLock 1 1 [2] \<and>
   ack_waiters (deliver_ack (create_ack 1 [98] 1 [97]) demo_blocked) = [create_ack 1 [98] 1 [97]] \<and>
   pending_probes (mb (deliver_ack (create_ack 1 [98] 1 [97]) demo_blocked)) = pending_probes (mb demo_blocked)"
proof -
  let ?a = "create_ack 1 [98] 1 [97]"
  let ?w = "deliver_ack ?a demo_blocked"
  have ack: "msg_type ?a = ACK" by (simp add: create_ack_def new_message_def)
  have s: "wstep demo_blocked ?w" by (rule wstep.receive_ack [OF ack])
  have "running ?w" by (simp add: deliver_ack_def demo_blocked_simps)
  with s have "(\<lambda>u v. wstep u v \<and> running v)\<^sup>*\<^sup>* demo_blocked ?w" by (intro r_into_rtranclp conjI)
  note after = probe_blocks_forever [OF demo_reachable(3) demo_blocked_simps(1) this]
  have "ack_waiters demo_blocked = []"
    by (simp add: demo_blocked_def after_ack_wait_def select_random_peers_def)
      (simp add: demo_probing_def probe_round_def Let_def case_prod_beta)
  moreover have "?w = demo_blocked\<lparr>ack_waiters := ack_waiters demo_blocked @ [?a]\<rparr>"
    using probe_blocks_forever [OF demo_reachable(3) demo_blocked_simps(1) rtranclp.rtrancl_refl] ack by blast
  ultimately have "ack_waiters ?w = [?a]" by simp
  with after s show ?thesis by blast
qed

section \<open>The course of a suspicion\<close>

text \<open>
  C29. A suspicion runs its course. When a SUSPECT message makes a live peer suspected that has no
  timer, exactly one timer is armed, filed for this peer and due
  \<open>probe_interval * suspicion_mult\<close> later. If time passes until then or longer and nothing else
  happens, the timer can fire; it creates the confirmation task, and running that task
  (\<open>_confirm_dead\<close>) is what marks the peer dead, keeps its incarnation, removes the entry of the
  timer and calls \<open>on_peer_dead\<close>, if given, once. If the peer refutes the suspicion first, with a
  higher incarnation, it is alive, the timer is disarmed, and a confirmation that is run
  nevertheless changes no peer.
\<close>

theorem suspicion_runs_its_course:
  fixes w w1 :: world and m :: gmsg and k :: pystr and timeout :: real and h :: nat and due fired over :: "real \<Rightarrow> world"
  defines "timeout \<equiv> real_of_int (probe_interval_ms (mb w) * suspicion_mult (mb w)) / 1000"
    and "h \<equiv> next_handle (mb w)"
    and "w1 \<equiv> w\<lparr>mb := fst (membership_handle_message (clock w) m (mb w))\<rparr>"
    and "due \<equiv> \<lambda>d. w1\<lparr>clock := clock w1 + d\<rparr>"
    and "fired \<equiv> \<lambda>d. timer_fires h k (due d)"
    and "over \<equiv> \<lambda>d. (fired d)\<lparr>mb := confirm_dead k (mb (fired d)), confirm_tasks := []\<rparr>"
  assumes "reachable w" and "msg_type m = SUSPECT" and "target_id m = Some k"
    and "k \<noteq> p_id (local_peer (mb w))" and "map_of (peers (mb w)) k = Some r"
    and "p_state (heap (mb w) r) = PS_ALIVE" and "p_incarnation (heap (mb w) r) \<le> msg_incarnation m"
    and "map_of (suspicion_timers (mb w)) k = None" and "confirm_tasks w = []" and "0 \<le> timeout"
  shows "wstep w w1 \<and> heap (mb w1) r = (heap (mb w) r)\<lparr>p_state := PS_SUSPECT\<rparr> \<and>
    armed (mb w1) = armed (mb w) @ [(h, k, clock w + timeout)] \<and>
    map_of (suspicion_timers (mb w1)) k = Some h \<and> h \<notin> fst ` set (armed (mb w)) \<and>
    (\<forall>d. timeout \<le> d \<longrightarrow>
       wstep w1 (due d) \<and> wstep (due d) (fired d) \<and>
       heap (mb (fired d)) = heap (mb w1) \<and> confirm_tasks (fired d) = [k] \<and>
       wstep (fired d) (over d) \<and>
       heap (mb (over d)) = (heap (mb w1))(r := (heap (mb w) r)\<lparr>p_state := PS_DEAD\<rparr>) \<and>
       map_of (suspicion_timers (mb (over d))) k = None \<and>
       notices (mb (over d)) = notices (mb w1) @
         (if has_on_dead (mb w) then [OnDead ((heap (mb w) r)\<lparr>p_state := PS_DEAD\<rparr>)] else [])) \<and>
    (\<forall>u t. msg_type u = ALIVE \<and> target_id u = Some k \<and> p_incarnation (heap (mb w) r) < msg_incarnation u \<longrightarrow>
       (let s = fst (membership_handle_message t u (mb w1)) in
        p_state (heap s r) = PS_ALIVE \<and> h \<notin> fst ` set (armed s) \<and> heap (confirm_dead k s) = heap s))"
proof -
  define s1 where "s1 = mb w1"
  have wf: "timers_wf (mb w)"
    using reachable_world_wf [OF assms(7)] by (simp add: world_wf_def membership_wf_def)
  have s1: "heap s1 = (heap (mb w))(r := (heap (mb w) r)\<lparr>p_state := PS_SUSPECT\<rparr>)"
    "peers s1 = peers (mb w)" "has_on_dead s1 = has_on_dead (mb w)"
    "armed s1 = armed (mb w) @ [(h, k, clock w + timeout)]" "map_of (suspicion_timers s1) k = Some h"
    using assms
    by (simp_all add: s1_def membership_handle_message_def handle_suspect_def mark_suspect_def
        start_suspicion_timer_def timeout_def h_def notify_def Let_def set_peer_def)
  have fresh: "h \<notin> fst ` set (armed (mb w))" using wf by (force simp: timers_wf_def h_def)
  have steps: "wstep w1 (due d) \<and> wstep (due d) (fired d) \<and> confirm_tasks (fired d) = [k] \<and>
      wstep (fired d) (over d)" if "timeout \<le> d" for d
  proof (intro conjI)
    show "wstep w1 (due d)" unfolding due_def using that assms(16) by (intro wstep.tick) simp
    have "(h, k, clock w + timeout) \<in> set (armed (mb (due d)))" using s1(4) by (simp add: due_def s1_def)
    then show "wstep (due d) (fired d)"
      unfolding fired_def by (rule wstep.timer) (use that in \<open>simp add: due_def w1_def\<close>)
    show "confirm_tasks (fired d) = [k]" by (simp add: fired_def timer_fires_def due_def w1_def assms(15))
    then show "wstep (fired d) (over d)" unfolding over_def by (rule wstep.confirm)
  qed
  have fired: "heap (mb (fired d)) = heap s1" "peers (mb (fired d)) = peers (mb w)"
    "has_on_dead (mb (fired d)) = has_on_dead (mb w)" "notices (mb (fired d)) = notices s1" for d
    by (simp_all add: fired_def timer_fires_def due_def s1_def [symmetric] s1)
  have over: "heap (mb (over d)) = (heap s1)(r := (heap (mb w) r)\<lparr>p_state := PS_DEAD\<rparr>) \<and>
      map_of (suspicion_timers (mb (over d))) k = None \<and>
      notices (mb (over d)) = notices s1 @
        (if has_on_dead (mb w) then [OnDead ((heap (mb w) r)\<lparr>p_state := PS_DEAD\<rparr>)] else [])" for d
    using assms(11)
    by (simp add: over_def confirm_dead_def Let_def fired s1(1) mark_dead_def notify_def set_peer_def
        AList.delete_conv')
  have refuted: "p_state (heap s r) = PS_ALIVE \<and> h \<notin> fst ` set (armed s) \<and> heap (confirm_dead k s) = heap s"
    if u: "msg_type u = ALIVE" "target_id u = Some k" "p_incarnation (heap (mb w) r) < msg_incarnation u"
      and "s = fst (membership_handle_message t u s1)" for u t s
  proof -
    have "s = revive t (msg_incarnation u) k r s1"
      using that assms(11) by (simp add: membership_handle_message_def handle_alive_def s1(2))
    then have s: "p_state (heap s r) = PS_ALIVE" "h \<notin> fst ` set (armed s)" "peers s = peers (mb w)"
      using u(3) s1
      by (auto simp: revive_def Let_def case_prod_beta mark_states mark_reports_change cancel_timer_def)
    then show ?thesis using assms(11) by (simp add: confirm_dead_def Let_def)
  qed
  have "wstep w w1" unfolding w1_def by (rule wstep.receive) (simp add: assms(8))
  then show ?thesis
    using s1 fresh steps fired(1) over refuted unfolding s1_def [symmetric] Let_def by auto
qed

theorem suspicion_runs_its_course_witness:
  "let m = (new_message SUSPECT [99] 1 0)\<lparr>target_id := Some [98]\<rparr>;
       w1 = demo_start\<lparr>mb := fst (membership_handle_message 0 m (mb demo_start))\<rparr>;
       w3 = timer_fires 0 [98] (w1\<lparr>clock := clock w1 + 5\<rparr>);
       w4 = w3\<lparr>mb := confirm_dead [98] (mb w3), confirm_tasks := []\<rparr>
   in p_state (heap (mb demo_start) 1) = PS_ALIVE \<and> p_state (heap (mb w1) 1) = PS_SUSPECT \<and>
      wstep w3 w4 \<and> p_state (heap (mb w4) 1) = PS_DEAD"
proof -
  define m :: gmsg where "m = (new_message SUSPECT [99] 1 0)\<lparr>target_id := Some [98]\<rparr>"
  have m: "msg_type m = SUSPECT" "target_id m = Some [98]" "msg_incarnation m = 0"
    by (simp_all add: m_def new_message_def)
  have s: "p_state (heap (mb demo_start) 1) = PS_ALIVE" "p_incarnation (heap (mb demo_start) 1) = 0"
    "map_of (peers (mb demo_start)) [98] = Some 1" "[98] \<noteq> p_id (local_peer (mb demo_start))"
    "next_handle (mb demo_start) = 0"
    by (simp_all add: demo_node_def new_peer_def)
      (simp add: demo_start_def demo_add_def init_world_def new_membership_def add_peer_def Let_def)
  have t: "real_of_int (probe_interval_ms (mb demo_start) * suspicion_mult (mb demo_start)) / 1000 = 5"
    by simp
  note r = suspicion_runs_its_course [OF demo_reachable(1) m(1,2) s(4,3,1), unfolded t s(5)]
  have "p_state (heap (mb (demo_start\<lparr>mb := fst (membership_handle_message 0 m (mb demo_start))\<rparr>)) 1) = PS_SUSPECT"
    using r m s by simp
  then show ?thesis
    unfolding Let_def m_def [symmetric] using r m s by simp
qed

text \<open>
  A stale confirmation kills a fresh suspicion: while the confirmation of an expired
  suspicion is scheduled but has not run, the peer may refute it with a higher incarnation
  \<open>i\<close> and be suspected again at \<open>i\<close>; the old confirmation then marks it dead although the
  clock has not moved and the new suspicion's timer, due only after the timeout, is still
  armed, because \<open>_confirm_dead\<close> tests the state alone.
\<close>

lemma stale_confirmation_kills:
  fixes w :: world and m1 m2 :: gmsg
  assumes "confirm_tasks w = k # rest" and "k \<noteq> p_id (local_peer (mb w))"
    and "map_of (peers (mb w)) k = Some r" and "p_state (heap (mb w) r) = PS_SUSPECT"
    and "p_incarnation (heap (mb w) r) < i"
    and "msg_type m1 = ALIVE" and "target_id m1 = Some k" and "msg_incarnation m1 = i"
    and "msg_type m2 = SUSPECT" and "target_id m2 = Some k" and "msg_incarnation m2 = i"
    and "local_ref (mb w) \<noteq> r"
  shows "\<exists>w1 w2 w3. wstep w w1 \<and> p_state (heap (mb w1) r) = PS_ALIVE \<and>
    wstep w1 w2 \<and> p_state (heap (mb w2) r) = PS_SUSPECT \<and>
    wstep w2 w3 \<and> p_state (heap (mb w3) r) = PS_DEAD \<and> clock w3 = clock w \<and>
    p_incarnation (heap (mb w3) r) = i \<and>
    (next_handle (mb w), k,
       clock w + real_of_int (probe_interval_ms (mb w) * suspicion_mult (mb w)) / 1000) \<in> set (armed (mb w3))"
proof -
  define w1 where "w1 = w\<lparr>mb := fst (membership_handle_message (clock w) m1 (mb w))\<rparr>"
  define w2 where "w2 = w1\<lparr>mb := fst (membership_handle_message (clock w1) m2 (mb w1))\<rparr>"
  define w3 where "w3 = w2\<lparr>mb := confirm_dead k (mb w2), confirm_tasks := rest\<rparr>"
  have m1: "mb w1 = revive (clock w) i k r (mb w)"
    using assms by (simp add: w1_def membership_handle_message_def handle_alive_def)
  have f1: "clock w1 = clock w" "confirm_tasks w1 = k # rest"
    by (simp_all add: w1_def assms(1))
  have s1: "p_state (heap (mb w1) r) = PS_ALIVE" "p_incarnation (heap (mb w1) r) = i"
    "peers (mb w1) = peers (mb w)" "map_of (suspicion_timers (mb w1)) k = None"
    "next_handle (mb w1) = next_handle (mb w)" "local_peer (mb w1) = local_peer (mb w)"
    using assms(4,5,12)
    by (simp_all add: m1 revive_def Let_def case_prod_beta mark_states mark_reports_change local_peer_def)
  have cfg: "probe_interval_ms (mb w1) = probe_interval_ms (mb w)"
    "suspicion_mult (mb w1) = suspicion_mult (mb w)"
    by (simp_all add: m1 revive_def Let_def case_prod_beta cancel_timer_def notify_def split: option.split)
  have s2: "p_state (heap (mb w2) r) = PS_SUSPECT" "p_incarnation (heap (mb w2) r) = i"
    "peers (mb w2) = peers (mb w)" "clock w2 = clock w" "confirm_tasks w2 = k # rest"
    "armed (mb w2) = armed (mb w1) @ [(next_handle (mb w), k,
       clock w + real_of_int (probe_interval_ms (mb w) * suspicion_mult (mb w)) / 1000)]"
    using assms(2,3,9-11) s1 cfg f1
    by (simp_all add: w2_def membership_handle_message_def handle_suspect_def mark_suspect_def
        start_suspicion_timer_def notify_def Let_def)
  have s3: "p_state (heap (mb w3) r) = PS_DEAD" "p_incarnation (heap (mb w3) r) = i"
    "clock w3 = clock w" "armed (mb w3) = armed (mb w2)"
    using s2 assms(3) by (simp_all add: w3_def confirm_dead_def Let_def mark_dead_def)
  have "wstep w w1" unfolding w1_def by (rule wstep.receive) (simp add: assms(6))
  moreover have "wstep w1 w2" unfolding w2_def by (rule wstep.receive) (simp add: assms(9))
  moreover have "wstep w2 w3" unfolding w3_def using s2(5) by (rule wstep.confirm)
  moreover have "(next_handle (mb w), k,
       clock w + real_of_int (probe_interval_ms (mb w) * suspicion_mult (mb w)) / 1000) \<in> set (armed (mb w3))"
    unfolding s3(4) s2(6) by simp
  ultimately show ?thesis using s1(1) s2(1) s3(1-3) by blast
qed

lemma stale_confirmation_kills_witness:
  "\<exists>w1 w2 w3. wstep (demo_start\<lparr>confirm_tasks := [[98]],
        mb := set_peer 1 ((demo_node 98)\<lparr>p_state := PS_SUSPECT\<rparr>) (mb demo_start)\<rparr>) w1 \<and>
     wstep w1 w2 \<and> p_state (heap (mb w2) 1) = PS_SUSPECT \<and>
     wstep w2 w3 \<and> p_state (heap (mb w3) 1) = PS_DEAD \<and> clock w3 = 0"
proof -
  define w where "w = demo_start\<lparr>confirm_tasks := [[98]],
        mb := set_peer 1 ((demo_node 98)\<lparr>p_state := PS_SUSPECT\<rparr>) (mb demo_start)\<rparr>"
  define m1 :: gmsg where "m1 = (new_message ALIVE [98] 1 0)\<lparr>target_id := Some [98], msg_incarnation := 1\<rparr>"
  define m2 :: gmsg where "m2 = (new_message SUSPECT [99] 1 0)\<lparr>target_id := Some [98], msg_incarnation := 1\<rparr>"
  have w: "confirm_tasks w = [[98]]" "[98] \<noteq> p_id (local_peer (mb w))"
    "map_of (peers (mb w)) [98] = Some 1" "p_state (heap (mb w) 1) = PS_SUSPECT"
    "p_incarnation (heap (mb w) 1) < 1" "local_ref (mb w) \<noteq> 1" "clock w = 0"
    using demo_start_simps(4) by (simp_all add: w_def local_peer_def)
  have m: "msg_type m1 = ALIVE" "target_id m1 = Some [98]" "msg_incarnation m1 = 1"
    "msg_type m2 = SUSPECT" "target_id m2 = Some [98]" "msg_incarnation m2 = 1"
    by (simp_all add: m1_def m2_def new_message_def)
  show ?thesis
    using stale_confirmation_kills [OF w(1-5) m w(6)] unfolding w_def [symmetric] w(7) by blast
qed

end
