(* ===== verification/Membership_Refine.thy ===== *)
theory Membership_Refine
  imports Membership_Progress
begin

text \<open>
  The membership table refines a table of beliefs. In the abstract table there are no objects,
  timers, callbacks, latencies or queues, only what is believed of each known peer (its state and
  its incarnation) and whom each open probe asks; a message is a claim about a peer, and a belief
  gives way to a claim of higher precedence. The rules are stated through this order alone, not
  through the operations of the code.
\<close>

section \<open>Beliefs and claims\<close>

type_synonym belief = "peer_state \<times> int"

text \<open>Precedence: the higher incarnation, and at the same incarnation the severer state.\<close>

definition outweighs :: "belief \<Rightarrow> belief \<Rightarrow> bool" where
  "outweighs b a \<longleftrightarrow> snd a < snd b \<or> snd a = snd b \<and> severity (fst a) < severity (fst b)"

definition settle :: "belief \<Rightarrow> belief \<Rightarrow> belief" where
  "settle a b = (if outweighs b a then b else a)"

text \<open>
  A claim that a peer is in state \<open>st\<close> at incarnation \<open>i\<close>. Only a peer itself raises its
  incarnation, by claiming to be alive; an accusation counts at most at the incarnation on record.
\<close>

definition weigh :: "peer_state \<Rightarrow> int \<Rightarrow> belief \<Rightarrow> belief" where
  "weigh st i b = settle b (st, if st = PS_ALIVE then i else min i (snd b))"

text \<open>The abstract state: the beliefs, and the peer that each open probe asks.\<close>

type_synonym swim = "(pystr \<Rightarrow> belief option) \<times> (int \<Rightarrow> pystr option)"

definition claim_of :: "(int \<Rightarrow> pystr option) \<Rightarrow> gmsg \<Rightarrow> (pystr \<times> peer_state \<times> int) option" where
  "claim_of asked m =
     map_option (\<lambda>(k, st). (k, st, msg_incarnation m))
       (case msg_type m of
          ALIVE \<Rightarrow> map_option (\<lambda>k. (k, PS_ALIVE)) (target_id m)
        | SUSPECT \<Rightarrow> map_option (\<lambda>k. (k, PS_SUSPECT)) (target_id m)
        | DEAD \<Rightarrow> map_option (\<lambda>k. (k, PS_DEAD)) (target_id m)
        | ACK \<Rightarrow> map_option (\<lambda>k. (k, PS_ALIVE)) (asked (msg_sequence m))
        | _ \<Rightarrow> None)"

text \<open>
  A message at the node \<open>me\<close>: its claim, unless it is about the node itself, is weighed against
  the belief if there is one; an ACK closes the probe it answers. Any other message, a ping
  included, claims nothing.
\<close>

definition swim_message :: "pystr \<Rightarrow> gmsg \<Rightarrow> swim \<Rightarrow> swim" where
  "swim_message me m a =
     (case claim_of (snd a) m of
        None \<Rightarrow> fst a
      | Some (k, st, i) \<Rightarrow>
          if k = me then fst a else (fst a)(k := map_option (weigh st i) (fst a k)),
      if msg_type m = ACK then (snd a)(msg_sequence m := None) else snd a)"

text \<open>A ping that is no claim either: it carries the incarnation on record for its sender.\<close>

definition honest :: "gmsg \<Rightarrow> swim \<Rightarrow> bool" where
  "honest m a \<longleftrightarrow>
     (msg_type m = PING \<longrightarrow>
        (case fst a (sender_id m) of None \<Rightarrow> True | Some b \<Rightarrow> snd b = msg_incarnation m))"

fun swim_messages :: "pystr \<Rightarrow> gmsg list \<Rightarrow> swim \<Rightarrow> swim" where
  "swim_messages me [] a = a"
| "swim_messages me (m # ms) a = swim_messages me ms (swim_message me m a)"

fun all_honest :: "pystr \<Rightarrow> gmsg list \<Rightarrow> swim \<Rightarrow> bool" where
  "all_honest me [] a \<longleftrightarrow> True"
| "all_honest me (m # ms) a \<longleftrightarrow> honest m a \<and> all_honest me ms (swim_message me m a)"

section \<open>The abstraction\<close>

definition belief_of :: "peer \<Rightarrow> belief" where
  "belief_of p = (p_state p, p_incarnation p)"

definition swim_of :: "membership \<Rightarrow> swim" where
  "swim_of s = (\<lambda>k. map_option belief_of (view s k), \<lambda>q. map_option pr_target_id (map_of (pending_probes s) q))"

text \<open>Messages as they arrive, each at its time.\<close>

fun receive_all :: "(real \<times> gmsg) list \<Rightarrow> membership \<Rightarrow> membership" where
  "receive_all [] s = s"
| "receive_all ((now, m) # ms) s = receive_all ms (fst (membership_handle_message now m s))"

text \<open>The node is not in its own table.\<close>

definition own_apart :: "membership \<Rightarrow> bool" where
  "own_apart s \<longleftrightarrow> map_of (peers s) (p_id (local_peer s)) = None"

lemma own_local_apart:
  assumes "table_wf s" and "own_apart s"
  shows "local_apart s"
proof -
  have "k \<noteq> p_id (heap s (local_ref s))" if "(k, r) \<in> set (peers s)" for k r
    using that assms(2) by (force simp: own_apart_def local_peer_def map_of_eq_None_iff)
  then have "local_ref s \<noteq> r" if "(k, r) \<in> set (peers s)" for k r
    using that assms(1) unfolding table_wf_def by fastforce
  then show ?thesis by (fastforce simp: local_apart_def)
qed

lemma own_apart_cong: "same_table s' s \<Longrightarrow> own_apart s' = own_apart s"
  by (simp add: same_table_def own_apart_def local_peer_def)

lemma own_id_cong: "same_table s' s \<Longrightarrow> p_id (local_peer s') = p_id (local_peer s)"
  by (simp add: same_table_def local_peer_def)

lemma table_wf_same: "same_table s' s \<Longrightarrow> table_wf s' = table_wf s"
  using table_wf_cong [of s' s] by (simp add: same_table_def)

section \<open>The marks as weighing\<close>

lemma severity_rank:
  "severity st = 0 \<longleftrightarrow> st = PS_ALIVE" "severity st < 3 \<longleftrightarrow> st \<noteq> PS_DEAD"
  by (cases st; simp)+

lemma belief_marks:
  "belief_of (fst (mark_alive now (Some i) p)) = weigh PS_ALIVE i (belief_of p)"
  "belief_of (fst (mark_suspect (Some i) p)) = weigh PS_SUSPECT i (belief_of p)"
  "belief_of (fst (mark_dead (Some i) p)) = weigh PS_DEAD i (belief_of p)"
  by (auto simp: belief_of_def weigh_def settle_def outweighs_def mark_states severity_rank min_def)

lemma belief_latency: "belief_of (update_latency l a p) = belief_of p"
  by (simp add: belief_of_def)

lemma beliefs_update:
  assumes "\<And>p. belief_of (f p) = g (belief_of p)"
  shows "(\<lambda>j. map_option belief_of (spec_update f k v j)) =
    (\<lambda>j. map_option belief_of (v j))(k := map_option g (map_option belief_of (v k)))"
  by (rule ext) (simp add: spec_update_def option.map_comp comp_def assms)

lemma beliefs_own: "own_apart s \<Longrightarrow> (\<lambda>j. map_option belief_of (view s j)) (p_id (local_peer s)) = None"
  by (simp add: own_apart_def view_def)

section \<open>One message\<close>

lemma pending_ack:
  "map_of (pending_probes (handle_ack now m s)) = (map_of (pending_probes s))(msg_sequence m := None)"
proof (cases "map_of (pending_probes s) (msg_sequence m)")
  case None
  then show ?thesis by (simp add: handle_ack_def fun_upd_idem)
next
  case (Some probe)
  then show ?thesis
    by (simp add: handle_ack_def Let_def revive_def case_prod_beta AList.delete_conv' AList.update_conv'
        split: option.split)
qed

lemma swim_asked:
  "snd (swim_of (fst (membership_handle_message now m s))) =
     (if msg_type m = ACK then (snd (swim_of s))(msg_sequence m := None) else snd (swim_of s))"
proof (cases "msg_type m = ACK")
  case True
  then show ?thesis
    by (simp add: swim_of_def membership_handle_message_def pending_ack fun_eq_iff)
next
  case False
  then show ?thesis by (simp add: swim_of_def pending_untouched(1))
qed

lemma ping_record:
  assumes "table_wf s" and "msg_type m = PING" and "honest m (swim_of s)"
  shows "(\<lambda>k. map_option belief_of (view (fst (handle_ping now m s)) k)) = (\<lambda>k. map_option belief_of (view s k))"
  using assms(2,3)
  by (auto simp: view_handle_ping [OF assms(1)] spec_update_def honest_def swim_of_def belief_of_def
      fun_eq_iff split: option.splits)

lemma swim_beliefs:
  assumes "table_wf s" and "own_apart s" and "honest m (swim_of s)"
  shows "fst (swim_of (fst (membership_handle_message now m s))) =
    fst (swim_message (p_id (local_peer s)) m (swim_of s))"
proof -
  note apart = own_local_apart [OF assms(1,2)]
  note own = beliefs_own [OF assms(2)]
  note upd = beliefs_update [of _ "weigh PS_ALIVE i" for i] beliefs_update [of _ "weigh PS_SUSPECT i" for i]
    beliefs_update [of _ "weigh PS_DEAD i" for i]
  show ?thesis
  proof (cases "msg_type m")
    case PING
    with assms ping_record [OF assms(1) PING assms(3)] show ?thesis
      by (simp add: membership_handle_message_def swim_of_def swim_message_def claim_of_def case_prod_beta)
  next
    case ACK
    show ?thesis
    proof (cases "map_of (pending_probes s) (msg_sequence m)")
      case None
      with ACK show ?thesis
        by (simp add: membership_handle_message_def swim_of_def swim_message_def claim_of_def handle_ack_def)
    next
      case (Some probe)
      with ACK own show ?thesis
        by (auto simp: membership_handle_message_def swim_of_def swim_message_def claim_of_def
            view_handle_ack [OF assms(1) Some] beliefs_update belief_marks belief_latency fun_upd_idem)
    qed
  next
    case ALIVE
    with own show ?thesis
      by (auto simp: membership_handle_message_def swim_of_def swim_message_def claim_of_def
          view_handle_alive [OF assms(1)] beliefs_update belief_marks fun_upd_idem split: option.split)
  next
    case SUSPECT
    with own show ?thesis
      by (auto simp: membership_handle_message_def swim_of_def swim_message_def claim_of_def
          view_handle_suspect [OF assms(1) apart] beliefs_update belief_marks split: option.split)
  next
    case DEAD
    with own show ?thesis
      by (auto simp: membership_handle_message_def swim_of_def swim_message_def claim_of_def
          view_handle_dead [OF assms(1)] beliefs_update belief_marks fun_upd_idem split: option.split)
  qed (simp_all add: membership_handle_message_def swim_of_def swim_message_def claim_of_def handle_ping_req_def)
qed

lemma swim_one:
  assumes "table_wf s" and "own_apart s" and "honest m (swim_of s)"
  shows "swim_of (fst (membership_handle_message now m s)) = swim_message (p_id (local_peer s)) m (swim_of s)"
  using swim_beliefs [OF assms] swim_asked [of now m s]
  by (simp add: prod_eq_iff swim_message_def)

section \<open>The own identifier stays out of the table\<close>

lemma own_apart_add:
  assumes "own_apart s" and "local_ref s \<noteq> r"
  shows "own_apart (fst (add_peer r (set_peer r p s))) \<or> p_id p = p_id (local_peer s)"
  using assms by (auto simp: own_apart_def add_peer_def Let_def local_peer_def split: option.splits)

text \<open>No step of a manager puts it there but the addition of a peer with that identifier.\<close>

lemma table_step:
  assumes "wstep w w'"
  shows "same_table (mb w') (mb w) \<or> (\<exists>pid. mb w' = fst (remove_peer pid (mb w))) \<or>
    (\<exists>p. mb w' = fst (add_peer (next_ref w) (set_peer (next_ref w) p (mb w))))"
  using assms
proof (induction rule: wstep.induct)
  case (timer h pid t w)
  then show ?case by (simp add: timer_fires_def same_table_def)
next
  case (indirect_timeout w r q)
  have "same_table (suspect_peer (clock w) r (mb w)) (mb w)" by (rule same_table_ops)
  then show ?case by (simp add: after_indirect_wait_def Let_def same_table_def)
qed (auto simp: task_defs deliver_ack_def probe_round_def after_ack_wait_def after_lock_def
    case_prod_beta Let_def same_table_ops same_table_ack same_table_message same_table_refl
    split: sum.splits)

lemma own_apart_step:
  assumes "wstep w w'" and "world_wf w" and "own_apart (mb w)"
  shows "own_apart (mb w') \<or>
    (\<exists>p. p_id p = p_id (local_peer (mb w)) \<and>
       mb w' = fst (add_peer (next_ref w) (set_peer (next_ref w) p (mb w))))"
proof -
  have "local_ref (mb w) \<noteq> next_ref w" using assms(2) by (simp add: world_wf_def refs_wf_def)
  note add = own_apart_add [OF assms(3) this]
  have "own_apart (fst (remove_peer pid (mb w)))" for pid
    using assms(3)
    by (auto simp: own_apart_def remove_peer_def local_peer_def AList.delete_conv' split: option.split)
  with table_step [OF assms(1)] add own_apart_cong assms(3) show ?thesis by metis
qed

section \<open>Properties\<close>

text \<open>
  C1. Handling messages refines a table of beliefs. For any sequence of messages, of any types, at
  a node that is not in its own table (nothing but the addition of a peer with its own identifier
  puts it there), the states and incarnations in the table afterwards are those of the abstract
  table: a belief gives way to a claim of higher precedence, incarnation first, then severity; an
  accusation counts at most at the incarnation on record; claims about unknown peers and about the
  node itself change nothing; an ACK is a claim of life for the peer its open probe asks. Objects,
  timers, callbacks, latencies and queues do not interfere. Pings are no claims: the theorem is
  about pings that carry the incarnation on record, since the code stores whatever they carry.
\<close>

theorem handle_message_refines:
  assumes "table_wf s" and "own_apart s"
    and "all_honest (p_id (local_peer s)) (map snd ms) (swim_of s)"
  shows "swim_of (receive_all ms s) = swim_messages (p_id (local_peer s)) (map snd ms) (swim_of s) \<and>
    table_wf (receive_all ms s) \<and> own_apart (receive_all ms s)"
  using assms
proof (induction ms arbitrary: s)
  case (Cons tm ms)
  obtain now m where tm: "tm = (now, m)" by (cases tm)
  let ?s = "fst (membership_handle_message now m s)"
  note same = same_table_message [of now m s]
  have h: "honest m (swim_of s)" using Cons.prems(3) by (simp add: tm)
  note one = swim_one [OF Cons.prems(1,2) h, of now]
  have "all_honest (p_id (local_peer ?s)) (map snd ms) (swim_of ?s)"
    using Cons.prems(3) by (simp add: tm one own_id_cong [OF same])
  with Cons.IH [of ?s] Cons.prems(1,2) show ?case
    by (simp add: tm one own_id_cong [OF same] table_wf_same [OF same] own_apart_cong [OF same])
qed simp

theorem handle_message_refines_witness:
  "let say = \<lambda>ty i. (new_message ty [99] 1 0)\<lparr>target_id := Some [98], msg_incarnation := i\<rparr> :: gmsg;
       s = receive_all [(1, say SUSPECT 0), (2, say ALIVE 4), (3, say DEAD 3), (4, say SUSPECT 9)]
             (demo_membership PS_ALIVE 0)
   in fst (swim_of s) [98] = Some (PS_SUSPECT, 4)"
proof -
  define say where "say = (\<lambda>ty i. (new_message ty [99] 1 0)\<lparr>target_id := Some [98], msg_incarnation := i\<rparr> :: gmsg)"
  let ?s = "demo_membership PS_ALIVE 0"
  let ?ms = "[(1, say SUSPECT 0), (2, say ALIVE 4), (3, say DEAD 3), (4, say SUSPECT 9)]"
  have say: "msg_type (say ty i) = ty" "target_id (say ty i) = Some [98]" "msg_incarnation (say ty i) = i" for ty i
    by (simp_all add: say_def new_message_def)
  have me: "p_id (local_peer ?s) = [97]" by (simp add: local_peer_def new_peer_def)
  have apart: "own_apart ?s" by (simp add: own_apart_def me)
  have honest: "all_honest (p_id (local_peer ?s)) (map snd ?ms) (swim_of ?s)"
    by (simp add: honest_def say)
  have "fst (swim_of ?s) = [[98] \<mapsto> (PS_ALIVE, 0)]"
    by (rule ext) (simp add: swim_of_def view_def belief_of_def)
  then have "fst (swim_messages [97] (map snd ?ms) (swim_of ?s)) [98] = Some (PS_SUSPECT, 4)"
    by (simp add: swim_message_def claim_of_def say weigh_def settle_def outweighs_def)
  then show ?thesis
    using handle_message_refines [OF demo_table_wf(1) apart honest]
    unfolding Let_def say_def [symmetric] by (simp only: me)
qed

end
