(* ===== verification/Protocol.thy ===== *)
theory Protocol
  imports Membership
begin

text \<open>
  \<open>gossip/protocol.py\<close>: the state of \<open>GossipProtocol\<close> and its operations. None of its
  coroutines is suspended between its first and its last change of state (both locks are
  released before any real wait), so every operation is a function on the state. The
  conversion of one number to \<open>np.float32\<close> is numpy's and an argument \<open>f32\<close>; means are exact.
  Stored arrays are values: the code copies on \<open>astype\<close> and never writes into an array.
\<close>

section \<open>Arrays of gradients\<close>

definition astype :: "(real \<Rightarrow> real) \<Rightarrow> rarray \<Rightarrow> rarray" where
  "astype f32 a = a\<lparr>nd_data := map f32 (nd_data a)\<rparr>"

text \<open>\<open>np.array([])\<close>.\<close>

definition empty_array :: rarray where
  "empty_array = \<lparr>nd_shape = [0], nd_data = []\<rparr>"

text \<open>\<open>np.mean(arrays, axis=0)\<close> of arrays of one shape.\<close>

definition mean_rows :: "real list list \<Rightarrow> real list" where
  "mean_rows vs =
     map (\<lambda>i. sum_list (map (\<lambda>v. v ! i) vs) / real (length vs)) [0..<length (hd vs)]"

definition np_mean :: "rarray list \<Rightarrow> rarray" where
  "np_mean as = \<lparr>nd_shape = nd_shape (hd as), nd_data = mean_rows (map nd_data as)\<rparr>"

section \<open>State\<close>

record gradient_state =
  gs_gradients :: rarray
  gs_indices :: "iarray option"
  gs_model_version :: int
  gs_step :: int
  gs_contributors :: "pystr set"
  gs_timestamp :: real

text \<open>
  \<open>gp_received\<close> is not an attribute: it records the calls of \<open>on_gradient_received\<close>.
  The manager and the protocol share their peers, so the local peer is a reference into
  the manager's heap.
\<close>

record protocol =
  membership_of :: membership
  gp_local_ref :: ref
  cfg_interval_ms :: int
  cfg_fanout :: int
  cfg_push_pull :: bool
  has_on_gradient :: bool
  gp_sequence_num :: int
  current_gradients :: "rarray option"
  current_indices :: "iarray option"
  gp_model_version :: int
  gp_step :: int
  gradient_cache :: "(pystr \<times> gradient_state) list"
  aggregated_gradients :: "rarray option"
  backoff :: "(pystr \<times> real) list"
  max_backoff :: real
  gp_running :: bool
  rounds_completed :: int
  messages_sent :: int
  messages_received :: int
  gradients_aggregated :: int
  gp_received :: "(rarray \<times> int \<times> int) list"

definition new_protocol :: "ref \<Rightarrow> int \<Rightarrow> int \<Rightarrow> bool \<Rightarrow> membership \<Rightarrow> bool \<Rightarrow> protocol" where
  "new_protocol me interval fanout push_pull m callback =
     \<lparr>membership_of = m, gp_local_ref = me, cfg_interval_ms = interval,
      cfg_fanout = fanout, cfg_push_pull = push_pull, has_on_gradient = callback,
      gp_sequence_num = 0, current_gradients = None, current_indices = None,
      gp_model_version = 0, gp_step = 0, gradient_cache = [], aggregated_gradients = None,
      backoff = [], max_backoff = 30, gp_running = False, rounds_completed = 0,
      messages_sent = 0, messages_received = 0, gradients_aggregated = 0, gp_received = []\<rparr>"

definition gp_local :: "protocol \<Rightarrow> peer" where
  "gp_local s = heap (membership_of s) (gp_local_ref s)"

definition gp_next_sequence :: "protocol \<Rightarrow> protocol \<times> int" where
  "gp_next_sequence s = (s\<lparr>gp_sequence_num := gp_sequence_num s + 1\<rparr>, gp_sequence_num s + 1)"

section \<open>Own gradients and the aggregate\<close>

definition set_gradients ::
  "(real \<Rightarrow> real) \<Rightarrow> rarray \<Rightarrow> iarray option \<Rightarrow> int \<Rightarrow> int \<Rightarrow> protocol \<Rightarrow> protocol" where
  "set_gradients f32 gradients indices model_version step s =
     s\<lparr>current_gradients := Some (astype f32 gradients), current_indices := indices,
       gp_model_version := model_version, gp_step := step,
       aggregated_gradients := Some gradients\<rparr>"

definition get_aggregated_gradients :: "protocol \<Rightarrow> rarray \<times> int" where
  "get_aggregated_gradients s =
     (case aggregated_gradients s of
        None \<Rightarrow> (empty_array, 0)
      | Some a \<Rightarrow> (a, int (length (gradient_cache s)) + 1))"

text \<open>The gradients that take part: the own ones and the cached ones of the same shape.\<close>

definition all_gradients :: "rarray \<Rightarrow> (pystr \<times> gradient_state) list \<Rightarrow> rarray list" where
  "all_gradients current cache =
     current # filter (\<lambda>g. nd_shape g = nd_shape current) (map (gs_gradients \<circ> snd) cache)"

definition aggregate_gradients :: "(real \<Rightarrow> real) \<Rightarrow> protocol \<Rightarrow> protocol" where
  "aggregate_gradients f32 s =
     (case current_gradients s of
        None \<Rightarrow> s
      | Some current \<Rightarrow>
          (if gradient_cache s = [] then s
           else
             let gs = all_gradients current (gradient_cache s)
             in if length gs > 1
                then s\<lparr>aggregated_gradients := Some (astype f32 (np_mean gs)),
                       gradients_aggregated := int (length gs)\<rparr>
                else s))"

definition stale :: "protocol \<Rightarrow> pystr \<Rightarrow> int \<Rightarrow> int \<Rightarrow> bool" where
  "stale s pid model_version step \<longleftrightarrow>
     (case map_of (gradient_cache s) pid of
        None \<Rightarrow> False
      | Some cached \<Rightarrow> gs_step cached \<ge> step \<and> gs_model_version cached \<ge> model_version)"

definition process_gradient ::
  "(real \<Rightarrow> real) \<Rightarrow> real \<Rightarrow> pystr \<Rightarrow> rarray \<Rightarrow> iarray option \<Rightarrow> int \<Rightarrow> int \<Rightarrow> protocol \<Rightarrow> protocol"
where
  "process_gradient f32 now pid gradients indices model_version step s =
     (if stale s pid model_version step then s
      else
        let entry = \<lparr>gs_gradients = gradients, gs_indices = indices,
                     gs_model_version = model_version, gs_step = step,
                     gs_contributors = {pid}, gs_timestamp = now\<rparr>;
            s1 = s\<lparr>gradient_cache := AList.update pid entry (gradient_cache s)\<rparr>;
            s2 = aggregate_gradients f32 s1
        in if has_on_gradient s2
           then s2\<lparr>gp_received := gp_received s2 @ [(gradients, model_version, step)]\<rparr>
           else s2)"

section \<open>Messages\<close>

definition handle_push_gradient :: "(real \<Rightarrow> real) \<Rightarrow> real \<Rightarrow> gmsg \<Rightarrow> protocol \<Rightarrow> protocol" where
  "handle_push_gradient f32 now msg s =
     (case gradient_data msg of
        None \<Rightarrow> s
      | Some g \<Rightarrow>
          process_gradient f32 now (sender_id msg) g (msg_indices msg) (msg_model_version msg)
            (msg_step msg) s)"

text \<open>The reply with the own gradients, an empty array when there are none.\<close>

definition handle_pull_gradient :: "(real \<Rightarrow> real) \<Rightarrow> real \<Rightarrow> protocol \<Rightarrow> protocol \<times> gmsg" where
  "handle_pull_gradient f32 now s =
     (let (s1, sequence) = gp_next_sequence s
      in (s1, create_push_gradient (astype f32) now (p_id (gp_local s1)) sequence
                (case current_gradients s1 of None \<Rightarrow> empty_array | Some g \<Rightarrow> g)
                (gp_model_version s1) (gp_step s1) (current_indices s1)))"

definition handle_push_pull_gradient ::
  "(real \<Rightarrow> real) \<Rightarrow> real \<Rightarrow> gmsg \<Rightarrow> protocol \<Rightarrow> protocol \<times> gmsg" where
  "handle_push_pull_gradient f32 now msg s =
     handle_pull_gradient f32 now (handle_push_gradient f32 now msg s)"

definition protocol_handle_message ::
  "(real \<Rightarrow> real) \<Rightarrow> real \<Rightarrow> gmsg \<Rightarrow> protocol \<Rightarrow> protocol \<times> gmsg option" where
  "protocol_handle_message f32 now msg s0 =
     (let s = s0\<lparr>messages_received := messages_received s0 + 1\<rparr> in
      if msg_type msg \<in> {PING, PING_REQ, ACK, ALIVE, SUSPECT, DEAD} then
        (let (m, reply) = membership_handle_message now msg (membership_of s)
         in (s\<lparr>membership_of := m\<rparr>, reply))
      else if msg_type msg = PUSH_GRADIENT then (handle_push_gradient f32 now msg s, None)
      else if msg_type msg = PULL_GRADIENT then
        (let (s1, reply) = handle_pull_gradient f32 now s in (s1, Some reply))
      else if msg_type msg = PUSH_PULL_GRADIENT then
        (let (s1, reply) = handle_push_pull_gradient f32 now msg s in (s1, Some reply))
      else (s, None))"

section \<open>Backoff\<close>

definition in_backoff :: "real \<Rightarrow> protocol \<Rightarrow> pystr \<Rightarrow> bool" where
  "in_backoff now s pid \<longleftrightarrow>
     (case map_of (backoff s) pid of None \<Rightarrow> False | Some t \<Rightarrow> now < t)"

definition apply_backoff :: "real \<Rightarrow> pystr \<Rightarrow> protocol \<Rightarrow> protocol" where
  "apply_backoff now pid s =
     (let delay = (case map_of (backoff s) pid of
                     Some t \<Rightarrow> min (max_backoff s) ((t - now) * 2)
                   | None \<Rightarrow> 1)
      in s\<lparr>backoff := AList.update pid (now + delay) (backoff s)\<rparr>)"

section \<open>Selection of peers\<close>

definition available :: "real \<Rightarrow> protocol \<Rightarrow> ref list" where
  "available now s =
     filter (\<lambda>r. \<not> in_backoff now s (p_id (heap (membership_of s) r)))
       (get_alive_peers (membership_of s))"

definition local_to :: "protocol \<Rightarrow> ref \<Rightarrow> bool" where
  "local_to s r \<longleftrightarrow> is_local (heap (membership_of s) r) (gp_local s)"

text \<open>\<open>ds i\<close> are the draws of the \<open>i\<close>-th call of \<open>random.sample\<close>.\<close>

definition select_gossip_peers :: "(nat \<Rightarrow> nat list) \<Rightarrow> real \<Rightarrow> protocol \<Rightarrow> ref list result" where
  "select_gossip_peers ds now s =
     (let avail = available now s; h = heap (membership_of s) in
      if avail = [] then Inr []
      else
        let same_dc = filter (local_to s) avail;
            other_dc = filter (\<lambda>r. \<not> local_to s r) avail;
            local_count = min (int (length same_dc)) ((cfg_fanout s * 2) div 3)
        in ebind (if local_count > 0 then py_sample (ds 0) same_dc local_count else Inr []) (\<lambda>sel1.
           let remaining = cfg_fanout s - int (length sel1) in
           ebind (if remaining > 0 \<and> other_dc \<noteq> []
                  then py_sample (ds 1) other_dc (min remaining (int (length other_dc)))
                  else Inr []) (\<lambda>sel2.
           let selected = sel1 @ sel2;
               remaining = cfg_fanout s - int (length selected) in
           ebind (if remaining > 0
                  then let remaining_local =
                         filter (\<lambda>r. \<not> (\<exists>q \<in> set selected. peer_eq (h r) (h q))) same_dc
                       in py_sample (ds 2) remaining_local (min remaining (int (length remaining_local)))
                  else Inr []) (\<lambda>sel3.
           Inr (selected @ sel3)))))"

section \<open>A round\<close>

text \<open>
  One round. The message is built but the code has no transport to give it to: it counts a
  send per peer and clears its backoff. The message and its addressees are the second
  component, \<open>None\<close> when the round ends early.
\<close>

definition gossip_round ::
  "(real \<Rightarrow> real) \<Rightarrow> (nat \<Rightarrow> nat list) \<Rightarrow> real \<Rightarrow> protocol \<Rightarrow> (protocol \<times> (gmsg \<times> ref list) option) result"
where
  "gossip_round f32 ds now s =
     (case current_gradients s of
        None \<Rightarrow> Inr (s, None)
      | Some g \<Rightarrow>
          ebind (select_gossip_peers ds now s) (\<lambda>sel.
          if sel = [] then Inr (s, None)
          else
            let (s1, sequence) = gp_next_sequence s;
                create = (if cfg_push_pull s1 then create_push_pull_gradient else create_push_gradient);
                msg = create (astype f32) now (p_id (gp_local s1)) sequence g
                        (gp_model_version s1) (gp_step s1) (current_indices s1);
                s2 = foldl (\<lambda>t r. t\<lparr>messages_sent := messages_sent t + 1,
                        backoff := AList.delete (p_id (heap (membership_of t) r)) (backoff t)\<rparr>) s1 sel
            in Inr (s2, Some (msg, sel))))"

text \<open>One turn of \<open>_gossip_loop\<close>: a round that raised is not counted.\<close>

definition gossip_turn :: "(real \<Rightarrow> real) \<Rightarrow> (nat \<Rightarrow> nat list) \<Rightarrow> real \<Rightarrow> protocol \<Rightarrow> protocol" where
  "gossip_turn f32 ds now s =
     (if gp_running s then
        (case gossip_round f32 ds now s of
           Inl e \<Rightarrow> s
         | Inr (s1, _) \<Rightarrow> s1\<lparr>rounds_completed := rounds_completed s1 + 1\<rparr>)
      else s)"

text \<open>\<open>start\<close> and \<open>stop\<close>: the flag the loop tests; the task itself has no other state.\<close>

definition start_protocol :: "protocol \<Rightarrow> protocol" where
  "start_protocol s = s\<lparr>gp_running := True\<rparr>"

definition stop_protocol :: "protocol \<Rightarrow> protocol" where
  "stop_protocol s = s\<lparr>gp_running := False\<rparr>"

definition get_stats :: "protocol \<Rightarrow> (pystr \<times> int) list" where
  "get_stats s =
     [(lit ''rounds_completed'', rounds_completed s), (lit ''messages_sent'', messages_sent s),
      (lit ''messages_received'', messages_received s),
      (lit ''gradients_aggregated'', gradients_aggregated s),
      (lit ''cached_peers'', int (length (gradient_cache s))),
      (lit ''model_version'', gp_model_version s), (lit ''step'', gp_step s)]"

end
