(* ===== verification/Protocol_Props.thy ===== *)
theory Protocol_Props
  imports Protocol Membership_Props
begin

text \<open>
  What the gossip protocol guarantees: the selection of peers, which gradients are kept and
  how they are averaged, the push-pull exchange, backoff, and the invariant of a run.
\<close>

section \<open>Selection\<close>

text \<open>Sampling as many elements as are wanted and there.\<close>

definition sample_upto :: "nat list \<Rightarrow> 'a list \<Rightarrow> int \<Rightarrow> 'a list result" where
  "sample_upto ds xs k = (if 0 < k then py_sample ds xs (min k (int (length xs))) else Inr [])"

lemma sample_upto_ok:
  "\<exists>ys. sample_upto ds xs k = Inr ys \<and> int (length ys) = max 0 (min k (int (length xs))) \<and>
     mset ys \<subseteq># mset xs"
proof (cases "0 < k")
  case True
  then obtain ys where ys: "py_sample ds xs (min k (int (length xs))) = Inr ys"
    using py.sample_ok [of "min k (int (length xs))" xs] by auto
  from True ys py.sample_length [OF ys] py.sample_sub [OF ys] show ?thesis
    by (auto simp: sample_upto_def)
qed (simp add: sample_upto_def)

lemma sample_nil [simp]: "py_sample ds [] 0 = Inr []"
  by (simp add: py_sample_def)

lemma sample_upto_min:
  "(if min (int (length xs)) k > 0 then py_sample ds xs (min (int (length xs)) k) else Inr []) =
   sample_upto ds xs k"
  by (cases xs) (auto simp: sample_upto_def min.commute)

lemma sample_upto_nonempty:
  "(if k > 0 \<and> xs \<noteq> [] then py_sample ds xs (min k (int (length xs))) else Inr []) = sample_upto ds xs k"
  by (auto simp: sample_upto_def)

lemma distinct_map_subset_mset:
  assumes "mset ys \<subseteq># mset xs" and "distinct (map f xs)"
  shows "distinct (map f ys)"
  by (rule distinct_mset_subset [OF _ assms(2)]) (simp add: assms(1) image_mset_subseteq_mono)

lemma set_of_mset_subset: "mset ys \<subseteq># mset xs \<Longrightarrow> set ys \<subseteq> set xs"
  by (metis set_mset_mono set_mset_mset)

lemma length_filter_distinct:
  assumes "distinct xs" and "distinct ys" and "set ys \<subseteq> set xs"
  shows "length (filter (\<lambda>x. x \<notin> set ys) xs) = length xs - length ys"
proof -
  have "set (filter (\<lambda>x. x \<notin> set ys) xs) = set xs - set ys" by auto
  then have "length (filter (\<lambda>x. x \<notin> set ys) xs) = card (set xs - set ys)"
    using assms(1) by (metis distinct_card distinct_filter)
  then show ?thesis using assms by (simp add: card_Diff_subset distinct_card)
qed

text \<open>
  The selection over an abstract split of the available references into near and far ones:
  some near ones, far ones as far as the fanout goes, and near ones again.
\<close>

lemma selection_shape:
  fixes s now
  defines "h \<equiv> heap (membership_of s)"
    and "near \<equiv> filter (local_to s) (available now s)"
    and "far \<equiv> filter (\<lambda>r. \<not> local_to s r) (available now s)"
    and "k \<equiv> cfg_fanout s"
  assumes wf: "table_wf (membership_of s)"
  shows "\<exists>a b c. select_gossip_peers ds now s = Inr (a @ b @ c) \<and>
    mset a \<subseteq># mset near \<and> mset b \<subseteq># mset far \<and>
    mset c \<subseteq># mset (filter (\<lambda>r. r \<notin> set a) near) \<and>
    int (length a) = max 0 (min (k * 2 div 3) (int (length near))) \<and>
    int (length b) = max 0 (min (k - int (length a)) (int (length far))) \<and>
    int (length c) = max 0 (min (k - int (length a) - int (length b))
      (int (length near) - int (length a)))"
proof -
  obtain a where a: "sample_upto (ds 0) near (k * 2 div 3) = Inr a"
    "int (length a) = max 0 (min (k * 2 div 3) (int (length near)))" "mset a \<subseteq># mset near"
    using sample_upto_ok by metis
  obtain b where b: "sample_upto (ds 1) far (k - int (length a)) = Inr b"
    "int (length b) = max 0 (min (k - int (length a)) (int (length far)))" "mset b \<subseteq># mset far"
    using sample_upto_ok by metis
  have near: "set near \<subseteq> set (get_alive_peers (membership_of s))"
    and far: "set far \<subseteq> set (get_alive_peers (membership_of s))"
    by (auto simp: near_def far_def available_def)
  have ab: "set (a @ b) \<subseteq> set (get_alive_peers (membership_of s))"
    using near far set_of_mset_subset [OF a(3)] set_of_mset_subset [OF b(3)] by auto
  have disj: "set near \<inter> set b = {}"
    using set_of_mset_subset [OF b(3)] by (auto simp: near_def far_def)
  have rest: "filter (\<lambda>r. \<not> (\<exists>q \<in> set (a @ b). peer_eq (h r) (h q))) near =
      filter (\<lambda>r. r \<notin> set a) near"
  proof (rule filter_cong [OF refl])
    fix r
    assume r: "r \<in> set near"
    with near have "(\<exists>q \<in> set (a @ b). peer_eq (h r) (h q)) \<longleftrightarrow> r \<in> set (a @ b)"
      unfolding h_def by (intro dir.exclude_by_id [OF wf ab]) auto
    with r disj show "(\<not> (\<exists>q \<in> set (a @ b). peer_eq (h r) (h q))) = (r \<notin> set a)" by auto
  qed
  have "distinct (get_alive_peers (membership_of s))" using wf by (rule dir.listed_distinct)
  then have dn: "distinct near" by (simp add: near_def available_def)
  with a(3) have da: "distinct a" by (metis distinct_mset_subset)
  have len: "length (filter (\<lambda>r. r \<notin> set a) near) = length near - length a" "length a \<le> length near"
    using length_filter_distinct [OF dn da set_of_mset_subset [OF a(3)]] size_mset_mono [OF a(3)] by auto
  obtain c where c: "sample_upto (ds 2) (filter (\<lambda>r. r \<notin> set a) near) (k - int (length (a @ b))) = Inr c"
    "int (length c) = max 0 (min (k - int (length (a @ b))) (int (length near - length a)))"
    "mset c \<subseteq># mset (filter (\<lambda>r. r \<notin> set a) near)"
    using sample_upto_ok len(1) by metis
  show ?thesis
  proof (cases "available now s = []")
    case True
    then have "near = []" "far = []" by (simp_all add: near_def far_def)
    with True a b c show ?thesis by (intro exI [of _ "[]"]) (simp add: select_gossip_peers_def)
  next
    case False
    then have "select_gossip_peers ds now s = Inr (a @ b @ c)"
      unfolding select_gossip_peers_def Let_def near_def [symmetric] far_def [symmetric]
        h_def [symmetric] k_def [symmetric] sample_upto_min sample_upto_nonempty a(1) b(1)
        ebind_simps rest
      using c(1) by (auto simp: sample_upto_def split: if_splits)
    moreover have "int (length c) = max 0 (min (k - int (length a) - int (length b))
        (int (length near) - int (length a)))"
      using c(2) len(2) by (simp add: of_nat_diff diff_diff_eq)
    ultimately show ?thesis using a(2,3) b(2,3) c(3) by blast
  qed
qed

lemma fill_up:
  fixes a b c n f k :: int
  assumes "a = max 0 (min (k * 2 div 3) n)" and "b = max 0 (min (k - a) f)"
    and "c = max 0 (min (k - a - b) (n - a))" and "0 \<le> n" and "0 \<le> f"
  shows "a + (b + c) = max 0 (min k (n + f))"
proof -
  define q where "q = k * 2 div 3"
  have q: "k < 0 \<and> q < 0 \<or> 0 \<le> q \<and> q \<le> k" unfolding q_def by linarith
  show ?thesis
  proof (cases "k < 0")
    case True
    with q have "q < 0" by linarith
    with True assms show ?thesis unfolding q_def [symmetric] by simp
  next
    case False
    with q have a: "a = min q n" using assms(1,4) unfolding q_def [symmetric] by simp
    with q False assms(4) have a': "0 \<le> a" "a \<le> k" "a \<le> n" by linarith+
    then have b: "b = min (k - a) f" using assms(2,5) by simp
    with a' assms(5) have b': "0 \<le> b" "b \<le> k - a" by linarith+
    with a' have c: "c = min (k - a - b) (n - a)" using assms(3) by simp
    show ?thesis
    proof (cases "k - a \<le> f")
      case True
      then show ?thesis using a' b c assms(4,5) False by simp
    next
      case False
      then have "b = f" using b by simp
      then show ?thesis using a' b' c assms(4,5) \<open>\<not> k < 0\<close> by simp
    qed
  qed
qed

lemma selection_contract:
  fixes s now
  defines "near \<equiv> filter (local_to s) (available now s)"
    and "far \<equiv> filter (\<lambda>r. \<not> local_to s r) (available now s)"
    and "k \<equiv> cfg_fanout s"
  assumes wf: "table_wf (membership_of s)"
  shows "\<exists>sel. select_gossip_peers ds now s = Inr sel \<and>
    int (length sel) = max 0 (min k (int (length (available now s)))) \<and>
    distinct (map (\<lambda>r. p_id (heap (membership_of s) r)) sel) \<and>
    set sel \<subseteq> set (available now s) \<and>
    int (length (filter (\<lambda>r. \<not> local_to s r) sel)) =
      max 0 (min (k - max 0 (min (k * 2 div 3) (int (length near)))) (int (length far)))"
proof -
  obtain a b c where sel: "select_gossip_peers ds now s = Inr (a @ b @ c)"
    and m: "mset a \<subseteq># mset near" "mset b \<subseteq># mset far" "mset c \<subseteq># mset (filter (\<lambda>r. r \<notin> set a) near)"
    and la: "int (length a) = max 0 (min (k * 2 div 3) (int (length near)))"
    and lb: "int (length b) = max 0 (min (k - int (length a)) (int (length far)))"
    and lc: "int (length c) = max 0 (min (k - int (length a) - int (length b))
        (int (length near) - int (length a)))"
    using selection_shape [OF wf, of ds now, folded near_def far_def k_def] by blast
  have sub: "set a \<subseteq> set near" "set b \<subseteq> set far" "set c \<subseteq> set near - set a"
    using m [THEN set_of_mset_subset] by auto
  have av: "set near \<subseteq> set (available now s)" "set far \<subseteq> set (available now s)"
    "set near \<inter> set far = {}" "set (available now s) \<subseteq> set (get_alive_peers (membership_of s))"
    by (auto simp: near_def far_def available_def)
  have "distinct (get_alive_peers (membership_of s))" using wf by (rule dir.listed_distinct)
  then have "distinct near" "distinct far" by (simp_all add: near_def far_def available_def)
  then have "distinct a" "distinct b" "distinct c"
    using m by (metis distinct_mset_subset distinct_filter)+
  with sub av(3) have d: "distinct (a @ b @ c)" by auto
  have in_av: "set (a @ b @ c) \<subseteq> set (available now s)" using sub av by auto
  have "inj_on (\<lambda>r. p_id (heap (membership_of s) r)) (set (get_alive_peers (membership_of s)))"
    using dir.listed_ids [OF wf] by (simp add: distinct_map)
  then have "inj_on (\<lambda>r. p_id (heap (membership_of s) r)) (set (a @ b @ c))"
    by (rule inj_on_subset) (use in_av av(4) in auto)
  with d have ids: "distinct (map (\<lambda>r. p_id (heap (membership_of s) r)) (a @ b @ c))"
    by (simp only: distinct_map)
  have "length near + length far = length (available now s)"
    unfolding near_def far_def by (rule sum_length_filter_compl)
  then have "int (length near) + int (length far) = int (length (available now s))"
    by (metis of_nat_add)
  from fill_up [OF la lb lc, simplified this]
  have len: "int (length (a @ b @ c)) = max 0 (min k (int (length (available now s))))"
    by simp
  have "filter (\<lambda>r. \<not> local_to s r) a = []" "filter (\<lambda>r. \<not> local_to s r) c = []"
    "filter (\<lambda>r. \<not> local_to s r) b = b"
    using sub by (auto simp: near_def far_def filter_empty_conv filter_id_conv)
  then have "int (length (filter (\<lambda>r. \<not> local_to s r) (a @ b @ c))) =
      max 0 (min (k - max 0 (min (k * 2 div 3) (int (length near)))) (int (length far)))"
    by (simp add: lb la)
  with sel len ids in_av show ?thesis by blast
qed

section \<open>Keeping and averaging gradients\<close>

text \<open>Arrays whose data fit their shape.\<close>

definition shaped :: "rarray \<Rightarrow> bool" where
  "shaped a \<longleftrightarrow> length (nd_data a) = prod_list (nd_shape a)"

lemma mean_rows_length [simp]: "length (mean_rows vs) = length (hd vs)"
  by (simp add: mean_rows_def)

lemma mean_between:
  assumes "vs \<noteq> []" and "\<And>v. v \<in> set vs \<Longrightarrow> lo \<le> v ! i" and "\<And>v. v \<in> set vs \<Longrightarrow> v ! i \<le> hi"
    and "i < length (hd vs)"
  shows "lo \<le> mean_rows vs ! i \<and> mean_rows vs ! i \<le> hi"
proof -
  have pos: "0 < real (length vs)" using assms(1) by simp
  have "(\<Sum>v\<leftarrow>vs. lo) \<le> (\<Sum>v\<leftarrow>vs. v ! i)" "(\<Sum>v\<leftarrow>vs. v ! i) \<le> (\<Sum>v\<leftarrow>vs. hi)"
    using assms(2,3) by (auto intro: sum_list_mono)
  then show ?thesis
    using assms(4) pos
    by (simp add: mean_rows_def sum_list_triv pos_le_divide_eq pos_divide_le_eq mult.commute)
qed

lemma extreme_rows:
  fixes vs :: "real list list"
  assumes "vs \<noteq> []"
  obtains lo hi where "lo \<in> set vs" "hi \<in> set vs" "\<forall>v \<in> set vs. lo ! i \<le> v ! i \<and> v ! i \<le> hi ! i"
proof -
  have fin: "finite (set vs)" "set vs \<noteq> {}" using assms by simp_all
  from obtains_MIN [OF fin] obtain lo where "lo \<in> set vs" "lo ! i = (MIN v \<in> set vs. v ! i)" by metis
  moreover from obtains_MAX [OF fin] obtain hi where "hi \<in> set vs" "hi ! i = (MAX v \<in> set vs. v ! i)"
    by metis
  ultimately show thesis using that fin by (simp add: Min_le Max_ge)
qed

lemma process_cache:
  "gradient_cache (process_gradient f32 now pid g idx v st s) =
     (if stale s pid v st then gradient_cache s
      else AList.update pid \<lparr>gs_gradients = g, gs_indices = idx, gs_model_version = v, gs_step = st,
             gs_contributors = {pid}, gs_timestamp = now\<rparr> (gradient_cache s))"
  by (simp add: process_gradient_def aggregate_gradients_def Let_def split: option.split)

text \<open>What is cached for a peer: gradient, model version and step.\<close>

definition cached :: "protocol \<Rightarrow> pystr \<Rightarrow> (rarray \<times> int \<times> int) option" where
  "cached s pid =
     map_option (\<lambda>e. (gs_gradients e, gs_model_version e, gs_step e)) (map_of (gradient_cache s) pid)"

lemma cached_process:
  "cached (process_gradient f32 now pid g idx v st s) k =
     (if k = pid \<and> (case cached s pid of None \<Rightarrow> True | Some (_, v', st') \<Rightarrow> v' < v \<or> st' < st)
      then Some (g, v, st) else cached s k)"
  by (auto simp: cached_def process_cache stale_def split: option.split)

text \<open>Successive gradient messages from one peer: time, gradient, indices, version, step.\<close>

type_synonym upd = "real \<times> rarray \<times> iarray option \<times> int \<times> int"

definition deliver_all :: "(real \<Rightarrow> real) \<Rightarrow> pystr \<Rightarrow> upd list \<Rightarrow> protocol \<Rightarrow> protocol" where
  "deliver_all f32 pid us s =
     fold (\<lambda>(now, g, idx, v, st). process_gradient f32 now pid g idx v st) us s"

fun upd_key :: "upd \<Rightarrow> int \<times> int" where
  "upd_key (now, g, idx, v, st) = (v, st)"

fun upd_content :: "upd \<Rightarrow> rarray \<times> int \<times> int" where
  "upd_content (now, g, idx, v, st) = (g, v, st)"

definition key_le :: "int \<times> int \<Rightarrow> int \<times> int \<Rightarrow> bool" where
  "key_le a b \<longleftrightarrow> fst a \<le> fst b \<and> snd a \<le> snd b"

lemma deliver_all_snoc:
  "deliver_all f32 pid (us @ [(now, g, idx, v, st)]) s =
     process_gradient f32 now pid g idx v st (deliver_all f32 pid us s)"
  by (simp add: deliver_all_def)

text \<open>If the updates form a chain, the latest of those delivered is the one cached.\<close>

lemma deliver_chain:
  assumes "us \<noteq> []" and "cached s pid = None"
    and "\<forall>a \<in> set us. \<forall>b \<in> set us. key_le (upd_key a) (upd_key b) \<or> key_le (upd_key b) (upd_key a)"
  shows "\<exists>u \<in> set us. cached (deliver_all f32 pid us s) pid = Some (upd_content u) \<and>
    (\<forall>a \<in> set us. key_le (upd_key a) (upd_key u))"
  using assms
proof (induction us rule: rev_induct)
  case (snoc x us)
  obtain now g idx v st where x: "x = (now, g, idx, v, st)" by (cases x)
  show ?case
  proof (cases "us = []")
    case True
    then show ?thesis using snoc.prems(2)
      by (simp add: x deliver_all_def cached_process key_le_def)
  next
    case False
    with snoc obtain u where u: "u \<in> set us" "cached (deliver_all f32 pid us s) pid = Some (upd_content u)"
      "\<forall>a \<in> set us. key_le (upd_key a) (upd_key u)" by auto
    obtain now' g' idx' v' st' where u': "u = (now', g', idx', v', st')" by (cases u)
    have c: "cached (deliver_all f32 pid (us @ [x]) s) pid =
        (if v' < v \<or> st' < st then Some (upd_content x) else Some (upd_content u))"
      using u(2) by (simp add: x u' deliver_all_snoc cached_process)
    have "key_le (upd_key x) (upd_key u) \<or> key_le (upd_key u) (upd_key x)"
      using snoc.prems(3) u(1) by auto
    then consider "v' < v \<or> st' < st" "key_le (upd_key u) (upd_key x)"
      | "\<not> (v' < v \<or> st' < st)" "key_le (upd_key x) (upd_key u)"
      by (auto simp: key_le_def x u')
    then show ?thesis
    proof cases
      case 1
      with u(3) have "\<forall>a \<in> set (us @ [x]). key_le (upd_key a) (upd_key x)"
        by (fastforce simp: key_le_def)
      then show ?thesis using c 1(1) by (intro bexI [of _ x]) simp_all
    next
      case 2
      with u(3) have "\<forall>a \<in> set (us @ [x]). key_le (upd_key a) (upd_key u)" by auto
      then show ?thesis using c 2(1) u(1) by (intro bexI [of _ u]) simp_all
    qed
  qed
qed simp

section \<open>The invariant of a run\<close>

definition protocol_wf :: "protocol \<Rightarrow> bool" where
  "protocol_wf s \<longleftrightarrow>
     membership_wf (membership_of s) \<and>
     distinct (map fst (gradient_cache s)) \<and>
     (\<forall>(k, e) \<in> set (gradient_cache s). gs_contributors e = {k}) \<and>
     (aggregated_gradients s = None \<longleftrightarrow> current_gradients s = None) \<and>
     distinct (map fst (backoff s)) \<and>
     0 \<le> gp_sequence_num s \<and> 0 \<le> gradients_aggregated s \<and>
     gradients_aggregated s \<le> int (length (gradient_cache s)) + 1"

text \<open>The operations of the class; \<open>membership_change\<close> stands for the manager's own tasks.\<close>

inductive pstep :: "(real \<Rightarrow> real) \<Rightarrow> protocol \<Rightarrow> protocol \<Rightarrow> bool" for f32 where
  own_gradients: "pstep f32 s (set_gradients f32 g idx v st s)"
| message: "pstep f32 s (fst (protocol_handle_message f32 now msg s))"
| started: "pstep f32 s (start_protocol s)"
| turn: "pstep f32 s (gossip_turn f32 ds now s)"
| send_failed: "pstep f32 s (apply_backoff now pid s)"
| stopped: "pstep f32 s (stop_protocol s)"
| membership_change: "membership_wf m \<Longrightarrow> pstep f32 s (s\<lparr>membership_of := m\<rparr>)"

inductive preachable :: "(real \<Rightarrow> real) \<Rightarrow> protocol \<Rightarrow> bool" for f32 where
  init: "membership_wf m \<Longrightarrow> preachable f32 (new_protocol me interval fanout pp m cb)"
| step: "preachable f32 s \<Longrightarrow> pstep f32 s s' \<Longrightarrow> preachable f32 s'"

inductive_cases pstep_E: "pstep f32 s s'"

lemma length_all_gradients: "length (all_gradients c cache) \<le> Suc (length cache)"
  by (simp add: all_gradients_def)

lemma wf_aggregate:
  assumes "protocol_wf s"
  shows "protocol_wf (aggregate_gradients f32 s)"
proof (cases "current_gradients s")
  case (Some c)
  have "int (length (all_gradients c (gradient_cache s))) \<le> int (length (gradient_cache s)) + 1"
    using length_all_gradients [of c "gradient_cache s"] by linarith
  with assms Some show ?thesis
    by (auto simp: aggregate_gradients_def protocol_wf_def Let_def)
qed (simp add: aggregate_gradients_def assms)

lemma wf_cache_entry:
  assumes "protocol_wf s" and "gs_contributors e = {pid}"
  shows "protocol_wf (s\<lparr>gradient_cache := AList.update pid e (gradient_cache s)\<rparr>)"
proof -
  let ?c = "AList.update pid e (gradient_cache s)"
  have "distinct (map fst ?c)" using assms(1) by (intro distinct_update) (simp add: protocol_wf_def)
  moreover have "gs_contributors e' = {k}" if "(k, e') \<in> set ?c" for k e'
    using in_set_update [OF that] assms by (auto simp: protocol_wf_def)
  moreover have "length (gradient_cache s) \<le> length ?c"
    by (rule length_update_ge)
  ultimately show ?thesis using assms(1) by (auto simp: protocol_wf_def)
qed

lemma wf_process:
  assumes "protocol_wf s"
  shows "protocol_wf (process_gradient f32 now pid g idx v st s)"
proof (cases "stale s pid v st")
  case False
  define s1 where "s1 = aggregate_gradients f32 (s\<lparr>gradient_cache := AList.update pid
     \<lparr>gs_gradients = g, gs_indices = idx, gs_model_version = v, gs_step = st,
      gs_contributors = {pid}, gs_timestamp = now\<rparr> (gradient_cache s)\<rparr>)"
  have "protocol_wf s1" unfolding s1_def
    by (intro wf_aggregate wf_cache_entry) (simp_all add: assms)
  moreover have "process_gradient f32 now pid g idx v st s =
      (if has_on_gradient s1 then s1\<lparr>gp_received := gp_received s1 @ [(g, v, st)]\<rparr> else s1)"
    using False by (simp add: process_gradient_def s1_def Let_def)
  ultimately show ?thesis by (simp add: protocol_wf_def)
qed (simp add: process_gradient_def assms)

lemma wf_push: "protocol_wf s \<Longrightarrow> protocol_wf (handle_push_gradient f32 now msg s)"
  by (simp add: handle_push_gradient_def wf_process split: option.split)

lemma wf_pull: "protocol_wf s \<Longrightarrow> protocol_wf (fst (handle_pull_gradient f32 now s))"
  by (simp add: handle_pull_gradient_def gp_next_sequence_def protocol_wf_def)

lemma wf_protocol_message:
  assumes "protocol_wf s"
  shows "protocol_wf (fst (protocol_handle_message f32 now msg s))"
proof -
  define s0 where "s0 = s\<lparr>messages_received := messages_received s + 1\<rparr>"
  have s0: "protocol_wf s0" using assms by (simp add: s0_def protocol_wf_def)
  then have "membership_wf (fst (membership_handle_message now msg (membership_of s0)))"
    by (intro wf_handle_message) (simp add: protocol_wf_def)
  with s0 have "protocol_wf (s0\<lparr>membership_of := fst (membership_handle_message now msg (membership_of s0))\<rparr>)"
    by (simp add: protocol_wf_def)
  with s0 wf_push [OF s0] wf_pull [OF s0] wf_pull [OF wf_push [OF s0]] show ?thesis
    by (simp add: protocol_handle_message_def s0_def [symmetric] Let_def case_prod_beta
        handle_push_pull_gradient_def)
qed

text \<open>What the sending loop of a round leaves alone.\<close>

definition send_one :: "protocol \<Rightarrow> ref \<Rightarrow> protocol" where
  "send_one t r = t\<lparr>messages_sent := messages_sent t + 1,
     backoff := AList.delete (p_id (heap (membership_of t) r)) (backoff t)\<rparr>"

lemma filter_delete:
  "filter (\<lambda>x. fst x \<notin> m) (AList.delete k d) = filter (\<lambda>x. fst x \<noteq> k \<and> fst x \<notin> m) d"
  by (induction d) auto

lemma send_all:
  "foldl send_one s sel = s\<lparr>messages_sent := messages_sent s + int (length sel),
     backoff := filter (\<lambda>x. fst x \<notin> (\<lambda>r. p_id (heap (membership_of s) r)) ` set sel) (backoff s)\<rparr>"
proof (induction sel arbitrary: s)
  case (Cons r sel)
  show ?case
    unfolding foldl_Cons Cons.IH by (simp add: send_one_def filter_delete add.assoc)
qed simp

lemma gossip_round_cases:
  assumes "table_wf (membership_of s)"
  obtains "gossip_round f32 ds now s = Inr (s, None)"
  | g sel n b where "current_gradients s = Some g" "select_gossip_peers ds now s = Inr sel" "sel \<noteq> []"
      "n = messages_sent s + int (length sel)"
      "b = filter (\<lambda>x. fst x \<notin> (\<lambda>r. p_id (heap (membership_of s) r)) ` set sel) (backoff s)"
      "gossip_round f32 ds now s = Inr
        (s\<lparr>gp_sequence_num := gp_sequence_num s + 1, messages_sent := n, backoff := b\<rparr>,
         Some ((if cfg_push_pull s then create_push_pull_gradient else create_push_gradient)
            (astype f32) now (p_id (gp_local s)) (gp_sequence_num s + 1) g
            (gp_model_version s) (gp_step s) (current_indices s), sel))"
proof (cases "current_gradients s")
  case None
  then show thesis by (intro that(1)) (simp add: gossip_round_def)
next
  case (Some g)
  obtain sel where sel: "select_gossip_peers ds now s = Inr sel"
    using selection_contract [OF assms] by blast
  show thesis
  proof (cases "sel = []")
    case True
    with Some sel show thesis by (intro that(1)) (simp add: gossip_round_def)
  next
    case False
    define s1 where "s1 = s\<lparr>gp_sequence_num := gp_sequence_num s + 1\<rparr>"
    have same: "membership_of s1 = membership_of s" "backoff s1 = backoff s" "messages_sent s1 = messages_sent s"
      "cfg_push_pull s1 = cfg_push_pull s" "gp_local s1 = gp_local s" "gp_model_version s1 = gp_model_version s"
      "gp_step s1 = gp_step s" "current_indices s1 = current_indices s"
      by (simp_all add: s1_def gp_local_def)
    define n where "n = messages_sent s + int (length sel)"
    define b where "b = filter (\<lambda>x. fst x \<notin> (\<lambda>r. p_id (heap (membership_of s) r)) ` set sel) (backoff s)"
    have nb: "foldl send_one s1 sel = s1\<lparr>messages_sent := n, backoff := b\<rparr>"
      unfolding send_all same n_def b_def ..
    have "gossip_round f32 ds now s = Inr (s1\<lparr>messages_sent := n, backoff := b\<rparr>,
         Some ((if cfg_push_pull s then create_push_pull_gradient else create_push_gradient)
            (astype f32) now (p_id (gp_local s)) (gp_sequence_num s + 1) g
            (gp_model_version s) (gp_step s) (current_indices s), sel))"
      using Some False
      by (simp add: gossip_round_def sel gp_next_sequence_def s1_def [symmetric] Let_def same
          send_one_def [abs_def, symmetric] nb)
    then show thesis using Some sel False n_def b_def that(2) unfolding s1_def by simp
  qed
qed

lemma wf_turn:
  assumes "protocol_wf s"
  shows "protocol_wf (gossip_turn f32 ds now s)"
proof -
  have "table_wf (membership_of s)" using assms by (simp add: protocol_wf_def membership_wf_def)
  then consider "gossip_round f32 ds now s = Inr (s, None)"
    | n b m where "b = filter (\<lambda>x. fst x \<notin> m) (backoff s)"
        "\<exists>x. gossip_round f32 ds now s =
           Inr (s\<lparr>gp_sequence_num := gp_sequence_num s + 1, messages_sent := n, backoff := b\<rparr>, x)"
    using gossip_round_cases [of s f32 ds now] by metis
  then show ?thesis
  proof cases
    case 1
    with assms show ?thesis by (simp add: gossip_turn_def protocol_wf_def)
  next
    case (2 n b m)
    have "distinct (map fst b)" using assms unfolding 2(1) by (simp add: protocol_wf_def distinct_map_filter)
    moreover from 2(2) obtain x where "gossip_round f32 ds now s =
        Inr (s\<lparr>gp_sequence_num := gp_sequence_num s + 1, messages_sent := n, backoff := b\<rparr>, x)" by blast
    ultimately show ?thesis using assms by (simp add: gossip_turn_def protocol_wf_def)
  qed
qed

lemma wf_backoff: "protocol_wf s \<Longrightarrow> protocol_wf (apply_backoff now pid s)"
  by (simp add: apply_backoff_def protocol_wf_def distinct_update Let_def)

lemma preachable_wf: "preachable f32 s \<Longrightarrow> protocol_wf s"
proof (induction rule: preachable.induct)
  case (init m me interval fanout pp cb)
  then show ?case by (simp add: protocol_wf_def new_protocol_def)
next
  case (step s s')
  from step.hyps(2) step.IH show ?case
    by (cases rule: pstep.cases)
      (simp_all add: wf_protocol_message wf_turn wf_backoff, simp_all add: protocol_wf_def set_gradients_def start_protocol_def stop_protocol_def)
qed

section \<open>Two nodes\<close>

lemma round_gradients:
  assumes "table_wf (membership_of a)" and "cfg_push_pull a"
    and "gossip_round f32 ds now a = Inr (a', Some (msg, sel))"
  shows "\<exists>g. current_gradients a = Some g \<and> msg_type msg = PUSH_PULL_GRADIENT \<and>
    gradient_data msg = Some (astype f32 g) \<and>
    current_gradients a' = current_gradients a \<and> gradient_cache a' = gradient_cache a"
  using assms(1)
proof (cases rule: gossip_round_cases [of a f32 ds now, OF assms(1)])
  case 1
  with assms(3) show ?thesis by simp
next
  case (2 g sel' n b)
  with assms(2,3) show ?thesis
    by (auto simp: create_push_pull_gradient_def new_message_def)
qed

text \<open>A node without cached gradients that receives one of the shape of its own.\<close>

lemma first_gradient:
  assumes "current_gradients b = Some gb" and "gradient_cache b = []" and "gradient_data msg = Some g"
    and "nd_shape g = nd_shape gb"
  shows "aggregated_gradients (handle_push_gradient f32 now msg b) = Some (astype f32 (np_mean [gb, g])) \<and>
    current_gradients (handle_push_gradient f32 now msg b) = Some gb \<and>
    gradients_aggregated (handle_push_gradient f32 now msg b) = 2"
  using assms
  by (simp add: handle_push_gradient_def process_gradient_def stale_def aggregate_gradients_def
      all_gradients_def Let_def)

lemma mean_pair_commute:
  assumes "nd_shape x = nd_shape y" and "length (nd_data x) = length (nd_data y)"
  shows "np_mean [x, y] = np_mean [y, x]"
  using assms by (simp add: np_mean_def mean_rows_def add.commute)

section \<open>A small network\<close>

definition demo_protocol :: "int \<Rightarrow> protocol" where
  "demo_protocol fanout = new_protocol 0 100 fanout True (demo_membership PS_ALIVE 0) True"

definition demo_array :: "real list \<Rightarrow> rarray" where
  "demo_array xs = \<lparr>nd_shape = [length xs], nd_data = xs\<rparr>"

text \<open>A rounding: to multiples of an eighth.\<close>

definition eighths :: "real \<Rightarrow> real" where
  "eighths x = of_int \<lfloor>x * 8\<rfloor> / 8"

lemma eighths: "mono eighths" "eighths (eighths x) = eighths x" "eighths (of_int i) = of_int i"
proof -
  show "mono eighths"
    by (auto simp: mono_def eighths_def intro!: divide_right_mono floor_mono)
  show "eighths (eighths x) = eighths x" by (simp add: eighths_def)
  have "(of_int i :: real) * 8 = of_int (i * 8)" by simp
  then show "eighths (of_int i) = of_int i" unfolding eighths_def by (simp only: floor_of_int)
qed

lemma demo_protocol_wf: "table_wf (membership_of (demo_protocol k))"
  by (simp add: demo_protocol_def new_protocol_def demo_table_wf)

lemma demo_available: "available now (demo_protocol k) = [1]"
  by (simp add: available_def demo_protocol_def new_protocol_def get_alive_peers_def is_alive_def
      in_backoff_def)

definition demo_a :: protocol where
  "demo_a = set_gradients eighths (demo_array [1]) None 0 0 (demo_protocol 3)"

definition demo_b :: protocol where
  "demo_b = set_gradients eighths (demo_array [4]) None 0 0 (demo_protocol 3)"

section \<open>Properties\<close>

text \<open>
  C28. Peer selection: the code always selects exactly \<open>min fanout available\<close> peers (no call of
  \<open>random.sample\<close> ever raises), with different identifiers, all alive, known and not in
  backoff; the number of peers outside the own datacenter is what is left of the fanout after
  two thirds of it have gone to near peers, as far as there are any.
\<close>

theorem gossip_selection:
  assumes "table_wf (membership_of s)"
  shows "\<exists>sel. select_gossip_peers ds now s = Inr sel \<and>
    int (length sel) = max 0 (min (cfg_fanout s) (int (length (available now s)))) \<and>
    distinct (map (\<lambda>r. p_id (heap (membership_of s) r)) sel) \<and>
    (\<forall>r \<in> set sel. is_alive (heap (membership_of s) r) \<and> r \<in> set (get_all_peers (membership_of s)) \<and>
       \<not> in_backoff now s (p_id (heap (membership_of s) r))) \<and>
    int (length (filter (\<lambda>r. \<not> local_to s r) sel)) =
      max 0 (min (cfg_fanout s -
          max 0 (min (cfg_fanout s * 2 div 3) (int (length (filter (local_to s) (available now s))))))
        (int (length (filter (\<lambda>r. \<not> local_to s r) (available now s)))))"
proof -
  have "is_alive (heap (membership_of s) r) \<and> r \<in> set (get_all_peers (membership_of s)) \<and>
      \<not> in_backoff now s (p_id (heap (membership_of s) r))" if "r \<in> set (available now s)" for r
    using that by (auto simp: available_def get_alive_peers_def get_all_peers_def)
  then show ?thesis using selection_contract [OF assms, of ds now] by (meson subset_iff)
qed

theorem gossip_selection_witness:
  "\<exists>sel. select_gossip_peers (\<lambda>_. [0]) 5 (demo_protocol 3) = Inr sel \<and> length sel = 1 \<and>
     (\<forall>r \<in> set sel. is_alive (heap (membership_of (demo_protocol 3)) r))"
proof -
  have "cfg_fanout (demo_protocol 3) = 3" by (simp add: demo_protocol_def new_protocol_def)
  then show ?thesis
    using gossip_selection [OF demo_protocol_wf [of 3], of "\<lambda>_. [0]" 5] by (auto simp: demo_available)
qed

text \<open>
  C7. Reordering and duplication: when the updates a peer sends form a chain in model version
  and step (the trainer increases both), then whatever order they arrive in and however
  often, the latest of them ends up in the cache.
\<close>

theorem latest_update_wins:
  assumes "m \<in> set us" and "cached s pid = None"
    and chain: "\<forall>a \<in> set us. \<forall>b \<in> set us. key_le (upd_key a) (upd_key b) \<or> key_le (upd_key b) (upd_key a)"
    and same: "\<forall>a \<in> set us. upd_key a = upd_key m \<longrightarrow> upd_content a = upd_content m"
    and latest: "\<forall>a \<in> set us. key_le (upd_key a) (upd_key m)"
  shows "cached (deliver_all f32 pid us s) pid = Some (upd_content m)"
proof -
  have "us \<noteq> []" using assms(1) by auto
  then obtain u where u: "u \<in> set us" "cached (deliver_all f32 pid us s) pid = Some (upd_content u)"
    "\<forall>a \<in> set us. key_le (upd_key a) (upd_key u)"
    using deliver_chain [OF _ assms(2) chain] by blast
  with assms(1) latest have "key_le (upd_key m) (upd_key u)" "key_le (upd_key u) (upd_key m)" by auto
  then have "upd_key u = upd_key m" by (simp add: key_le_def prod_eq_iff)
  with u same show ?thesis by simp
qed

theorem latest_update_wins_witness:
  "cached (deliver_all eighths [98]
      [(1, demo_array [3], None, 1, 1), (2, demo_array [5], None, 2, 2), (3, demo_array [3], None, 1, 1)]
      (demo_protocol 3)) [98] = Some (demo_array [5], 2, 2)"
  using latest_update_wins [of "(2, demo_array [5], None, 2, 2)"
      "[(1, demo_array [3], None, 1, 1), (2, demo_array [5], None, 2, 2), (3, demo_array [3], None, 1, 1)]"
      "demo_protocol 3" "[98]" eighths]
  by (simp add: key_le_def cached_def demo_protocol_def new_protocol_def)

text \<open>
  Updates outside a chain: an update is only refused when neither its step nor its version
  is newer, so after an update with a newer version and an older step a redelivery of the
  superseded update is accepted and replaces it.
\<close>

lemma superseded_update_returns:
  assumes "v < v'" and "st' < st" and "cached s pid = None"
  shows "cached (deliver_all f32 pid [(t1, g, i, v, st), (t2, g', i', v', st')] s) pid = Some (g', v', st') \<and>
    cached (deliver_all f32 pid [(t1, g, i, v, st), (t2, g', i', v', st'), (t3, g, i, v, st)] s) pid =
      Some (g, v, st)"
  using assms by (simp add: deliver_all_def cached_process)

lemma superseded_update_returns_witness:
  "cached (deliver_all eighths [98]
      [(1, demo_array [3], None, 1, 9), (2, demo_array [5], None, 2, 0), (3, demo_array [3], None, 1, 9)]
      (demo_protocol 3)) [98] = Some (demo_array [3], 1, 9)"
  using superseded_update_returns [of 1 2 0 9 "demo_protocol 3" "[98]" eighths 1 "demo_array [3]" None 2
      "demo_array [5]" None 3]
  by (simp add: cached_def demo_protocol_def new_protocol_def)

text \<open>
  C33. The average is an average: with a monotone rounding that leaves the participating
  numbers alone, every entry of the new aggregate lies between the smallest and the largest
  corresponding entry of the own gradient and the cached gradients of its shape.
\<close>

theorem aggregate_between:
  fixes cur :: rarray
  defines "gs \<equiv> \<lambda>s. all_gradients cur (gradient_cache s)"
  assumes "current_gradients s = Some cur" and "1 < length (gs s)" and "mono f32"
    and "\<forall>g \<in> set (gs s). shaped g \<and> (\<forall>x \<in> set (nd_data g). f32 x = x)"
    and "i < length (nd_data cur)"
  shows "\<exists>a. aggregated_gradients (aggregate_gradients f32 s) = Some a \<and>
    nd_shape a = nd_shape cur \<and> shaped a \<and>
    (\<exists>g \<in> set (gs s). nd_data g ! i \<le> nd_data a ! i) \<and>
    (\<exists>g \<in> set (gs s). nd_data a ! i \<le> nd_data g ! i)"
proof -
  define a where "a = astype f32 (np_mean (gs s))"
  have ne: "gradient_cache s \<noteq> []" using assms(3) by (auto simp: gs_def all_gradients_def)
  have agg: "aggregated_gradients (aggregate_gradients f32 s) = Some a"
    using assms(2,3) ne by (simp add: aggregate_gradients_def gs_def a_def Let_def)
  have hd: "hd (gs s) = cur" "gs s \<noteq> []" by (simp_all add: gs_def all_gradients_def)
  have shape: "nd_shape g = nd_shape cur" if "g \<in> set (gs s)" for g
    using that by (auto simp: gs_def all_gradients_def)
  have cur: "cur \<in> set (gs s)" using hd by (metis list.set_sel(1))
  have len: "length (nd_data g) = length (nd_data cur)" if "g \<in> set (gs s)" for g
    using shape [OF that] assms(5) that cur by (auto simp: shaped_def)
  define vs where "vs = map nd_data (gs s)"
  have vs: "vs \<noteq> []" "hd vs = nd_data cur" using hd by (simp_all add: vs_def hd_map)
  obtain lo hi where ex: "lo \<in> set vs" "hi \<in> set vs" "\<forall>v \<in> set vs. lo ! i \<le> v ! i \<and> v ! i \<le> hi ! i"
    using extreme_rows [OF vs(1)] by metis
  have "lo ! i \<le> mean_rows vs ! i \<and> mean_rows vs ! i \<le> hi ! i"
    using mean_between [OF vs(1), of "lo ! i" i "hi ! i"] ex(3) assms(6) vs(2) by auto
  with assms(4) have "f32 (lo ! i) \<le> f32 (mean_rows vs ! i) \<and> f32 (mean_rows vs ! i) \<le> f32 (hi ! i)"
    by (auto dest: monoD)
  moreover have "f32 (v ! i) = v ! i" if "v \<in> set vs" for v
    using that assms(5,6) len by (auto simp: vs_def)
  moreover have "nd_data a ! i = f32 (mean_rows vs ! i)"
    using assms(6) vs(2) by (simp add: a_def astype_def np_mean_def vs_def [symmetric])
  ultimately have b: "lo ! i \<le> nd_data a ! i" "nd_data a ! i \<le> hi ! i" using ex(1,2) by auto
  have "nd_shape a = nd_shape cur" "length (nd_data a) = length (nd_data cur)"
    using hd vs(2) by (simp_all add: a_def astype_def np_mean_def vs_def [symmetric])
  moreover have "shaped cur" using assms(5) cur by blast
  ultimately have "nd_shape a = nd_shape cur" "shaped a" by (simp_all add: shaped_def)
  with agg b ex(1,2) show ?thesis by (auto simp: vs_def)
qed

theorem aggregate_between_witness:
  "let s = handle_push_gradient eighths 1
         ((new_message PUSH_GRADIENT [98] 1 0)\<lparr>gradient_data := Some (demo_array [4]), msg_step := 1\<rparr>)
         (set_gradients eighths (demo_array [1]) None 0 0 (demo_protocol 3))
   in \<exists>a. aggregated_gradients (aggregate_gradients eighths s) = Some a \<and>
        1 \<le> nd_data a ! 0 \<and> nd_data a ! 0 \<le> 4"
proof -
  define s where "s = handle_push_gradient eighths 1
         ((new_message PUSH_GRADIENT [98] 1 0)\<lparr>gradient_data := Some (demo_array [4]), msg_step := 1\<rparr>)
         (set_gradients eighths (demo_array [1]) None 0 0 (demo_protocol 3))"
  have e: "eighths 1 = 1" "eighths 4 = 4" using eighths(3) [of 1] eighths(3) [of 4] by simp_all
  have s: "current_gradients s = Some (demo_array [1])"
    "all_gradients (demo_array [1]) (gradient_cache s) = [demo_array [1], demo_array [4]]"
    by (simp_all add: s_def handle_push_gradient_def new_message_def process_gradient_def stale_def
        set_gradients_def aggregate_gradients_def demo_protocol_def new_protocol_def
        all_gradients_def demo_array_def astype_def e Let_def)
  have "\<exists>a. aggregated_gradients (aggregate_gradients eighths s) = Some a \<and>
    nd_shape a = nd_shape (demo_array [1]) \<and> shaped a \<and>
    (\<exists>g \<in> set [demo_array [1], demo_array [4]]. nd_data g ! 0 \<le> nd_data a ! 0) \<and>
    (\<exists>g \<in> set [demo_array [1], demo_array [4]]. nd_data a ! 0 \<le> nd_data g ! 0)"
    by (rule aggregate_between [OF s(1) _ eighths(1), unfolded s(2)])
      (auto simp: demo_array_def shaped_def e)
  then show ?thesis unfolding s_def [symmetric] Let_def by (auto simp: demo_array_def)
qed

text \<open>
  A push-pull exchange makes two nodes agree: when \<open>a\<close> in a round addresses \<open>b\<close>, \<open>b\<close>
  handles the message and \<open>a\<close> handles the reply, both hold the same aggregate, the average of
  the two gradients (same shape, no earlier gradients cached, gradients already in float32).
\<close>

lemma push_pull_agree:
  assumes "table_wf (membership_of a)" and "cfg_push_pull a"
    and "current_gradients a = Some ga" and "current_gradients b = Some gb"
    and "nd_shape ga = nd_shape gb" and "shaped ga" and "shaped gb"
    and "astype f32 ga = ga" and "astype f32 gb = gb"
    and "gradient_cache a = []" and "gradient_cache b = []"
    and round: "gossip_round f32 ds t a = Inr (a1, Some (msg, sel))"
    and b1: "protocol_handle_message f32 t' msg b = (b1, Some reply)"
  shows "let a2 = fst (protocol_handle_message f32 t'' reply a1)
         in aggregated_gradients a2 = Some (astype f32 (np_mean [ga, gb])) \<and>
            aggregated_gradients b1 = aggregated_gradients a2 \<and>
            gradients_aggregated a2 = 2 \<and> gradients_aggregated b1 = 2"
proof -
  have msg: "msg_type msg = PUSH_PULL_GRADIENT" "gradient_data msg = Some ga"
    "current_gradients a1 = Some ga" "gradient_cache a1 = []"
    using round_gradients [OF assms(1,2) round] assms(3,8,10) by auto
  define b0 where "b0 = handle_push_gradient f32 t' msg (b\<lparr>messages_received := messages_received b + 1\<rparr>)"
  have "aggregated_gradients b0 = Some (astype f32 (np_mean [gb, ga])) \<and>
    current_gradients b0 = Some gb \<and> gradients_aggregated b0 = 2"
    unfolding b0_def using assms(4,5,11) msg(2) by (intro first_gradient) simp_all
  then have b1': "aggregated_gradients b1 = Some (astype f32 (np_mean [gb, ga]))"
    "gradients_aggregated b1 = 2" and reply: "msg_type reply = PUSH_GRADIENT" "gradient_data reply = Some gb"
    using b1 assms(9)
    by (auto simp: protocol_handle_message_def msg(1) handle_push_pull_gradient_def b0_def [symmetric]
        handle_pull_gradient_def gp_next_sequence_def create_push_gradient_def new_message_def Let_def)
  define a2 where "a2 = fst (protocol_handle_message f32 t'' reply a1)"
  have "a2 = handle_push_gradient f32 t'' reply (a1\<lparr>messages_received := messages_received a1 + 1\<rparr>)"
    by (simp add: a2_def protocol_handle_message_def reply(1) Let_def)
  then have "aggregated_gradients a2 = Some (astype f32 (np_mean [ga, gb]))" "gradients_aggregated a2 = 2"
    using first_gradient [of "a1\<lparr>messages_received := messages_received a1 + 1\<rparr>" ga reply gb f32 t'']
      msg(3,4) reply(2) assms(5) by simp_all
  moreover have "np_mean [gb, ga] = np_mean [ga, gb]"
    using assms(5-7) by (intro mean_pair_commute) (simp_all add: shaped_def)
  ultimately show ?thesis using b1' by (simp add: a2_def)
qed

lemma push_pull_agree_witness:
  "\<exists>a1 msg sel b1 reply. gossip_round eighths (\<lambda>_. [0]) 1 demo_a = Inr (a1, Some (msg, sel)) \<and>
     protocol_handle_message eighths 2 msg demo_b = (b1, Some reply) \<and>
     aggregated_gradients (fst (protocol_handle_message eighths 3 reply a1)) = aggregated_gradients b1"
proof -
  have e: "eighths 1 = 1" "eighths 4 = 4" using eighths(3) [of 1] eighths(3) [of 4] by simp_all
  have a: "table_wf (membership_of demo_a)" "cfg_push_pull demo_a" "gradient_cache demo_a = []"
    "current_gradients demo_a = Some (demo_array [1])"
    using demo_protocol_wf [of 3]
    by (simp_all add: demo_a_def demo_protocol_def new_protocol_def set_gradients_def e astype_def demo_array_def)
  have b: "gradient_cache demo_b = []" "current_gradients demo_b = Some (demo_array [4])"
    by (simp_all add: demo_b_def demo_protocol_def new_protocol_def set_gradients_def e astype_def demo_array_def)
  have g: "nd_shape (demo_array [1]) = nd_shape (demo_array [4])" "shaped (demo_array [1])" "shaped (demo_array [4])"
    "astype eighths (demo_array [1]) = demo_array [1]" "astype eighths (demo_array [4]) = demo_array [4]"
    by (simp_all add: demo_array_def shaped_def astype_def e)
  have "available 1 demo_a = [1]"
    using demo_available [of 1 3] by (simp add: demo_a_def set_gradients_def available_def in_backoff_def)
  moreover have "cfg_fanout demo_a = 3"
    by (simp add: demo_a_def set_gradients_def demo_protocol_def new_protocol_def)
  ultimately have "\<exists>sel. select_gossip_peers (\<lambda>_. [0]) 1 demo_a = Inr sel \<and> length sel = 1"
    using selection_contract [OF a(1), of "\<lambda>_. [0]" 1] by auto
  then obtain sel where sel: "select_gossip_peers (\<lambda>_. [0]) 1 demo_a = Inr sel" "sel \<noteq> []"
    by fastforce
  obtain a1 msg where round: "gossip_round eighths (\<lambda>_. [0]) 1 demo_a = Inr (a1, Some (msg, sel))"
    using sel by (auto simp: gossip_round_def a(4) Let_def case_prod_beta)
  have "msg_type msg = PUSH_PULL_GRADIENT" using round_gradients [OF a(1,2) round] by auto
  then obtain b1 reply where b1: "protocol_handle_message eighths 2 msg demo_b = (b1, Some reply)"
    by (auto simp: protocol_handle_message_def Let_def case_prod_beta)
  from push_pull_agree [OF a(1,2,4) b(2) g a(3) b(1) round b1, of 3] round b1
  show ?thesis by (auto simp: Let_def)
qed

text \<open>
  The number of contributors that \<open>get_aggregated_gradients\<close> reports never understates the
  gradients in the average, but after \<open>set_gradients\<close> it counts every cached peer although
  the aggregate is the own gradient alone.
\<close>

lemma contributor_count:
  assumes "preachable f32 s"
  shows "(aggregated_gradients s \<noteq> None \<longrightarrow> gradients_aggregated s \<le> snd (get_aggregated_gradients s)) \<and>
    get_aggregated_gradients (set_gradients f32 g idx v st s) = (g, int (length (gradient_cache s)) + 1)"
  using preachable_wf [OF assms]
  by (auto simp: get_aggregated_gradients_def set_gradients_def protocol_wf_def)

lemma contributor_count_witness:
  "let s = process_gradient eighths 1 [98] (demo_array [4]) None 1 1 demo_a
   in get_aggregated_gradients (set_gradients eighths (demo_array [7]) None 1 2 s) = (demo_array [7], 2)"
proof -
  define m :: gmsg where "m = (new_message PUSH_GRADIENT [98] 1 0)\<lparr>gradient_data := Some (demo_array [4]),
    msg_model_version := 1, msg_step := 1\<rparr>"
  have mwf: "membership_wf (demo_membership PS_ALIVE 0)"
    unfolding demo_membership_def by (intro wf_add_peer wf_new_membership)
  have "preachable eighths demo_a"
    unfolding demo_a_def demo_protocol_def
    by (rule preachable.step [OF preachable.init [OF mwf] pstep.own_gradients])
  then have "preachable eighths (fst (protocol_handle_message eighths 1 m demo_a))"
    by (rule preachable.step [OF _ pstep.message])
  from contributor_count [OF this, of "demo_array [7]" None 1 2] show ?thesis
    by (simp add: m_def protocol_handle_message_def handle_push_gradient_def new_message_def Let_def
        process_cache get_aggregated_gradients_def set_gradients_def stale_def demo_a_def
        demo_protocol_def new_protocol_def)
qed

text \<open>
  C3. The invariant of the protocol in every reachable state: one cache entry and one backoff
  entry per peer, each entry contributed by the peer it is filed under, an aggregate exactly
  when there are own gradients, and a membership manager that satisfies its own invariant.
\<close>

theorem protocol_invariant:
  assumes "preachable f32 s" and "pstep f32 s s'"
  shows "protocol_wf s'"
  using preachable.step [OF assms] by (rule preachable_wf)

theorem protocol_invariant_witness:
  "protocol_wf (apply_backoff 1 [98] (demo_protocol 3))"
proof -
  have mwf: "membership_wf (demo_membership PS_ALIVE 0)"
    unfolding demo_membership_def by (intro wf_add_peer wf_new_membership)
  show ?thesis
    unfolding demo_protocol_def
    by (rule protocol_invariant [OF preachable.init [OF mwf] pstep.send_failed])
qed

text \<open>
  Backoff: the first failure keeps a peer out for a second and a failure during a backoff
  doubles what remains, up to \<open>max_backoff\<close>; but a peer is only contacted once its backoff
  has expired, and then a failure at any later time sets a deadline that has already passed,
  so it stays available and the backoff never grows.
\<close>

lemma backoff_behaviour:
  assumes "now \<le> later" and "0 \<le> max_backoff s"
  shows "case map_of (backoff s) k of
      None \<Rightarrow> map_of (backoff (apply_backoff now k s)) k = Some (now + 1)
    | Some t \<Rightarrow>
        (now < t \<longrightarrow> map_of (backoff (apply_backoff now k s)) k =
           Some (now + min (max_backoff s) (2 * (t - now)))) \<and>
        (\<not> in_backoff now s k \<longrightarrow> \<not> in_backoff later (apply_backoff later k s) k)"
  using assms by (auto simp: apply_backoff_def in_backoff_def Let_def min_def split: option.split)

lemma backoff_behaviour_witness:
  "\<not> in_backoff 2 (apply_backoff 2 [98] (apply_backoff 0 [98] (demo_protocol 3))) [98] \<and>
   map_of (backoff (apply_backoff 0 [98] (demo_protocol 3))) [98] = Some 1"
  using backoff_behaviour [of 0 0 "demo_protocol 3" "[98]"]
    backoff_behaviour [of 1 2 "apply_backoff 0 [98] (demo_protocol 3)" "[98]"]
  by (simp add: demo_protocol_def new_protocol_def apply_backoff_def in_backoff_def)

end
