(* ===== verification/Transport.thy ===== *)
theory Transport
  imports Message_Codec Protocol_Props
begin

text \<open>
  The codec and the protocol together: \<open>gossip/message.py\<close> with \<open>gossip/protocol.py\<close> and
  \<open>gossip/membership.py\<close>. The code says where a transport layer would send a message and has
  none; here a message goes through the bytes of \<open>pack\<close> and \<open>unpack\<close> to the handler of the
  other node. How numpy and \<open>struct\<close> represent numbers is an argument: a record of the
  conversions between reals and bit patterns.
\<close>

section \<open>Numbers on the wire\<close>

record number_format =
  enc32 :: "real \<Rightarrow> 32 word"
  dec32 :: "32 word \<Rightarrow> real"
  enc64 :: "real \<Rightarrow> 64 word"
  dec64 :: "64 word \<Rightarrow> real"

text \<open>\<open>astype(np.float32)\<close> of one number: the value of its single-precision pattern.\<close>

definition to_f32 :: "number_format \<Rightarrow> real \<Rightarrow> real" where
  "to_f32 nf x = dec32 nf (enc32 nf x)"

definition on_wire :: "number_format \<Rightarrow> gmsg \<Rightarrow> wire_message" where
  "on_wire nf m =
     \<lparr>msg_type = msg_type m, sender_id = sender_id m, msg_sequence = msg_sequence m,
      msg_timestamp = enc64 nf (msg_timestamp m), payload = payload m,
      msg_metadata = msg_metadata m,
      gradient_data = map_option (\<lambda>g. \<lparr>nd_shape = nd_shape g,
         nd_data = F32 (map (enc32 nf) (nd_data g))\<rparr>) (gradient_data m),
      msg_indices = map_option (\<lambda>i. \<lparr>nd_shape = nd_shape i,
         nd_data = I64 (map word_of_int (nd_data i))\<rparr>) (msg_indices m),
      msg_model_version = msg_model_version m, msg_step = msg_step m,
      target_id = target_id m, msg_incarnation = msg_incarnation m\<rparr>"

text \<open>\<open>unpack\<close> only makes single-precision gradients and 64-bit indices.\<close>

fun reals_of :: "number_format \<Rightarrow> npbuf \<Rightarrow> real list" where
  "reals_of nf (F32 ws) = map (dec32 nf) ws"
| "reals_of nf _ = []"

fun ints_of :: "npbuf \<Rightarrow> int list" where
  "ints_of (I64 ws) = map sint ws"
| "ints_of _ = []"

definition off_wire :: "number_format \<Rightarrow> wire_message \<Rightarrow> gmsg" where
  "off_wire nf w =
     \<lparr>msg_type = msg_type w, sender_id = sender_id w, msg_sequence = msg_sequence w,
      msg_timestamp = dec64 nf (msg_timestamp w), payload = payload w,
      msg_metadata = msg_metadata w,
      gradient_data = map_option (\<lambda>g. \<lparr>nd_shape = nd_shape g, nd_data = reals_of nf (nd_data g)\<rparr>)
        (gradient_data w),
      msg_indices = map_option (\<lambda>i. \<lparr>nd_shape = nd_shape i, nd_data = ints_of (nd_data i)\<rparr>)
        (msg_indices w),
      msg_model_version = msg_model_version w, msg_step = msg_step w,
      target_id = target_id w, msg_incarnation = msg_incarnation w\<rparr>"

definition send :: "number_format \<Rightarrow> gmsg \<Rightarrow> bytes result" where
  "send nf m = pack (on_wire nf m)"

definition receive ::
  "number_format \<Rightarrow> real \<Rightarrow> bytes \<Rightarrow> protocol \<Rightarrow> (protocol \<times> gmsg option) result" where
  "receive nf now bs s =
     ebind (unpack bs) (\<lambda>w. Inr (protocol_handle_message (to_f32 nf) now (off_wire nf w) s))"

section \<open>What survives the wire\<close>

definition flat_array :: "'e list ndarray \<Rightarrow> bool" where
  "flat_array a \<longleftrightarrow> nd_shape a = [length (nd_data a)]"

definition int64_array :: "iarray \<Rightarrow> bool" where
  "int64_array a \<longleftrightarrow> (\<forall>i \<in> set (nd_data a). - (2 ^ 63) \<le> i \<and> i < 2 ^ 63)"

text \<open>Arrays of one dimension, gradients in single precision, indices of 64 bits.\<close>

definition portable :: "number_format \<Rightarrow> gmsg \<Rightarrow> bool" where
  "portable nf m \<longleftrightarrow>
     pred_option (\<lambda>g. flat_array g \<and> astype (to_f32 nf) g = g) (gradient_data m) \<and>
     pred_option (\<lambda>i. flat_array i \<and> int64_array i) (msg_indices m)"

lemma sint_word_of_int_64:
  assumes "- (2 ^ 63) \<le> i" and "i < (2 ^ 63 :: int)"
  shows "sint (word_of_int i :: 64 word) = i"
  using assms signed_take_bit_int_eq_self [of 63 i] by (simp add: sint_sbintrunc')

lemma gradient_survives:
  assumes "flat_array g" and "astype (to_f32 nf) g = g"
  shows "\<lparr>nd_shape = [length (nd_data g)], nd_data = map (\<lambda>x. dec32 nf (enc32 nf x)) (nd_data g)\<rparr> = g"
  using assms by (cases g) (simp add: flat_array_def astype_def to_f32_def [abs_def])

lemma indices_survive:
  assumes "flat_array i" and "int64_array i"
  shows "\<lparr>nd_shape = [length (nd_data i)], nd_data = map (\<lambda>x. sint (word_of_int x :: 64 word)) (nd_data i)\<rparr> = i"
proof -
  have "map (\<lambda>x. sint (word_of_int x :: 64 word)) (nd_data i) = nd_data i"
    using assms(2) by (intro map_idI sint_word_of_int_64) (auto simp: int64_array_def)
  then show ?thesis using assms(1) by (cases i) (simp add: flat_array_def)
qed

lemma wire_typed_on_wire: "wire_typed (on_wire nf m)"
  by (simp add: wire_typed_def on_wire_def option.pred_map comp_def option.pred_True)

text \<open>
  What a handler reads of a message: neither time, payload nor metadata, and indices, version
  and step only of a message with a gradient.
\<close>

definition same_content :: "gmsg \<Rightarrow> gmsg \<Rightarrow> bool" where
  "same_content a b \<longleftrightarrow>
     msg_type a = msg_type b \<and> sender_id a = sender_id b \<and> msg_sequence a = msg_sequence b \<and>
     target_id a = target_id b \<and> msg_incarnation a = msg_incarnation b \<and>
     gradient_data a = gradient_data b \<and>
     (gradient_data b \<noteq> None \<longrightarrow>
        msg_indices a = msg_indices b \<and> msg_model_version a = msg_model_version b \<and>
        msg_step a = msg_step b)"

lemma same_content_membership:
  assumes "same_content a b"
  shows "membership_handle_message now a s = membership_handle_message now b s"
proof -
  have eqs: "msg_type a = msg_type b" "sender_id a = sender_id b" "msg_sequence a = msg_sequence b"
    "target_id a = target_id b" "msg_incarnation a = msg_incarnation b"
    using assms by (simp_all add: same_content_def)
  show ?thesis
    unfolding membership_handle_message_def handle_ping_def handle_ping_req_def handle_ack_def
      handle_alive_def handle_suspect_def handle_dead_def eqs ..
qed

lemma same_content_push:
  assumes "same_content a b"
  shows "handle_push_gradient f32 now a s = handle_push_gradient f32 now b s"
  using assms by (auto simp: handle_push_gradient_def same_content_def split: option.split)

lemma same_content_protocol:
  assumes "same_content a b"
  shows "protocol_handle_message f32 now a s = protocol_handle_message f32 now b s"
proof -
  have eqs: "msg_type a = msg_type b" using assms by (simp add: same_content_def)
  show ?thesis
    unfolding protocol_handle_message_def handle_push_pull_gradient_def eqs
      same_content_membership [OF assms] same_content_push [OF assms] ..
qed

lemma wire_keeps_content:
  assumes "portable nf m"
  shows "same_content (off_wire nf (wire_image (on_wire nf m))) m"
  using assms gradient_survives indices_survive
  by (cases "gradient_data m"; cases "msg_indices m")
    (auto simp: same_content_def off_wire_def wire_image_def on_wire_def flatten_def flat_def
      portable_def comp_def)

lemma receive_sent:
  assumes "send nf m = Inr bs" and "portable nf m" and "length (bs @ junk) < 2 ^ 63"
  shows "receive nf now (bs @ junk) s = Inr (protocol_handle_message (to_f32 nf) now m s)"
  using unpack_pack_exact [OF assms(1) [unfolded send_def] wire_typed_on_wire assms(3)]
    same_content_protocol [OF wire_keeps_content [OF assms(2)]]
  by (simp add: receive_def)

section \<open>Messages of a node\<close>

text \<open>
  The ranges of the format, for what a node sends: its identifier, counters and indices fit,
  arrays have one dimension and leave room for the rest of the message.
\<close>

definition node_sendable :: "protocol \<Rightarrow> bool" where
  "node_sendable s \<longleftrightarrow>
     str_ok (p_id (gp_local s)) \<and> 0 \<le> gp_sequence_num s \<and> gp_sequence_num s + 1 < 2 ^ 64 \<and>
     0 \<le> gp_model_version s \<and> gp_model_version s < 2 ^ 64 \<and> 0 \<le> gp_step s \<and> gp_step s < 2 ^ 64 \<and>
     pred_option (\<lambda>g. flat_array g \<and> length (nd_data g) < 2 ^ 59) (current_gradients s) \<and>
     pred_option (\<lambda>i. flat_array i \<and> int64_array i \<and> length (nd_data i) < 2 ^ 58) (current_indices s)"

text \<open>What the two factories make of the state of a node.\<close>

definition own_message :: "number_format \<Rightarrow> real \<Rightarrow> rarray \<Rightarrow> protocol \<Rightarrow> gmsg \<Rightarrow> bool" where
  "own_message nf now g s m \<longleftrightarrow>
     (\<exists>create \<in> {create_push_gradient, create_push_pull_gradient}.
        m = create (astype (to_f32 nf)) now (p_id (gp_local s)) (gp_sequence_num s + 1) g
              (gp_model_version s) (gp_step s) (current_indices s))"

lemma own_message_fields:
  assumes "own_message nf now g s m" and "astype (to_f32 nf) g = g"
  shows "sender_id m = p_id (gp_local s)" "msg_sequence m = gp_sequence_num s + 1"
    "payload m = None" "gradient_data m = Some g" "msg_indices m = current_indices s"
    "msg_model_version m = gp_model_version s" "msg_step m = gp_step s" "target_id m = None"
    "msg_incarnation m = 0"
  using assms
  by (auto simp: own_message_def create_push_gradient_def create_push_pull_gradient_def new_message_def)

lemma own_message_travels:
  assumes "own_message nf now g s m" and "astype (to_f32 nf) g = g"
    and "node_sendable s" and "current_gradients s = Some g"
  shows "portable nf m \<and> (\<exists>bs. send nf m = Inr bs \<and> length bs < 2 ^ 63)"
proof -
  note f = own_message_fields [OF assms(1,2)]
  have ok: "flat_array g" "length (nd_data g) < 2 ^ 59"
    "pred_option (\<lambda>i. flat_array i \<and> int64_array i \<and> length (nd_data i) < 2 ^ 58) (current_indices s)"
    using assms(3,4) by (simp_all add: node_sendable_def)
  have portable: "portable nf m"
    using assms(2) ok by (cases "current_indices s") (simp_all add: portable_def f)
  let ?w = "on_wire nf m"
  have w: "payload_bytes ?w = []" "array_bytes (gradient_data ?w) = 4 * length (nd_data g)"
    "array_bytes (msg_indices ?w) < 2 ^ 61"
    using ok(3) by (cases "current_indices s"; simp add: on_wire_def f payload_bytes_def array_bytes_def)+
  have "pack_ok ?w"
    using assms(3) ok(2,3)
    by (cases "current_indices s")
      (simp_all add: pack_ok_def node_sendable_def on_wire_def f payload_bytes_def block_ok_def)
  then obtain bs where bs: "pack ?w = Inr bs"
    using succeeds_pack [of ?w] unfolding succeeds_def by blast
  have "length bs < 2 ^ 63" using length_pack [OF bs] w ok(2) by simp
  with portable bs show ?thesis by (auto simp: send_def)
qed

lemma push_frame:
  "gp_local (handle_push_gradient f32 now msg s) = gp_local s"
  "gp_sequence_num (handle_push_gradient f32 now msg s) = gp_sequence_num s"
  "gp_model_version (handle_push_gradient f32 now msg s) = gp_model_version s"
  "gp_step (handle_push_gradient f32 now msg s) = gp_step s"
  "current_indices (handle_push_gradient f32 now msg s) = current_indices s"
  "current_gradients (handle_push_gradient f32 now msg s) = current_gradients s"
  by (auto simp: handle_push_gradient_def process_gradient_def aggregate_gradients_def gp_local_def
      Let_def split: option.split)

text \<open>The reply to a push-pull message is the own message of the node that answers.\<close>

lemma reply_is_own:
  assumes "msg_type msg = PUSH_PULL_GRADIENT" and "current_gradients s = Some g"
    and "protocol_handle_message (to_f32 nf) now msg s = (s', r)"
  shows "\<exists>reply. r = Some reply \<and> own_message nf now g s reply \<and> msg_type reply = PUSH_GRADIENT"
proof -
  have "gp_local (s\<lparr>messages_received := n\<rparr>) = gp_local s" for n by (simp add: gp_local_def)
  moreover have "gp_local (s\<lparr>gp_sequence_num := n\<rparr>) = gp_local s" for n s by (simp add: gp_local_def)
  ultimately show ?thesis
    using assms
    by (auto simp: protocol_handle_message_def handle_push_pull_gradient_def handle_pull_gradient_def
        gp_next_sequence_def push_frame own_message_def create_push_gradient_def new_message_def Let_def)
qed

lemma round_message_own:
  assumes "table_wf (membership_of a)" and "current_gradients a = Some g"
    and "gossip_round (to_f32 nf) ds now a = Inr (a1, Some (msg, sel))"
  shows "own_message nf now g a msg"
  using assms(1)
proof (cases rule: gossip_round_cases [of a "to_f32 nf" ds now, OF assms(1)])
  case 1
  with assms(3) show ?thesis by simp
next
  case (2 g' sel' n b)
  with assms(2,3) show ?thesis by (auto simp: own_message_def)
qed

lemma push_has_no_reply:
  "msg_type msg = PUSH_GRADIENT \<Longrightarrow> snd (protocol_handle_message f32 now msg s) = None"
  by (simp add: protocol_handle_message_def Let_def)

section \<open>A concrete format\<close>

text \<open>Whole numbers, as signed words.\<close>

definition demo_format :: number_format where
  "demo_format = \<lparr>enc32 = (\<lambda>x. word_of_int \<lfloor>x\<rfloor>), dec32 = (\<lambda>w. real_of_int (sint w)),
     enc64 = (\<lambda>x. word_of_int \<lfloor>x\<rfloor>), dec64 = (\<lambda>w. real_of_int (sint w))\<rparr>"

definition wire_node :: "real \<Rightarrow> protocol" where
  "wire_node x = set_gradients (to_f32 demo_format) (demo_array [x]) None 0 0 (demo_protocol 3)"

lemma demo_f32: "to_f32 demo_format 1 = 1" "to_f32 demo_format 4 = 4"
  by (simp_all add: to_f32_def demo_format_def)

lemma wire_node_simps:
  assumes "to_f32 demo_format x = x"
  shows "table_wf (membership_of (wire_node x))" "cfg_push_pull (wire_node x)"
    "gradient_cache (wire_node x) = []" "current_gradients (wire_node x) = Some (demo_array [x])"
    "node_sendable (wire_node x)" "astype (to_f32 demo_format) (demo_array [x]) = demo_array [x]"
  using demo_protocol_wf [of 3] assms
  by (simp_all add: wire_node_def demo_protocol_def new_protocol_def set_gradients_def astype_def
      demo_array_def node_sendable_def flat_array_def gp_local_def new_peer_def str_ok_def
      scalar_def utf8_cp_def)

lemma wire_node_round:
  assumes "to_f32 demo_format x = x"
  shows "\<exists>a1 msg sel. gossip_round (to_f32 demo_format) (\<lambda>_. [0]) 1 (wire_node x) = Inr (a1, Some (msg, sel))"
proof -
  note n = wire_node_simps [OF assms]
  have "available 1 (wire_node x) = [1]" "cfg_fanout (wire_node x) = 3"
    using demo_available [of 1 3]
    by (simp_all add: wire_node_def set_gradients_def available_def in_backoff_def demo_protocol_def
        new_protocol_def)
  then obtain sel where "select_gossip_peers (\<lambda>_. [0]) 1 (wire_node x) = Inr sel" "length sel = 1"
    using selection_contract [OF n(1), of "\<lambda>_. [0]" 1] by auto
  then show ?thesis by (auto simp: gossip_round_def n(4) Let_def case_prod_beta)
qed

section \<open>Properties\<close>

text \<open>
  A manager that is told it is suspected at the largest incarnation the format carries refutes
  with an incarnation that cannot be packed: the update it queues never leaves the node.
\<close>

lemma refutation_overflows:
  assumes "msg_type msg = SUSPECT" and "target_id msg = Some (p_id (local_peer s))"
    and "msg_incarnation msg = 2 ^ 32 - 1"
  shows "\<exists>upd. updates_queue (fst (membership_handle_message now msg s)) = updates_queue s @ [upd] \<and>
    (\<forall>bs. send nf upd \<noteq> Inr bs)"
proof -
  let ?i = "max (p_incarnation (local_peer s)) (msg_incarnation msg) + 1"
  have "\<not> pack_ok (on_wire nf upd)" if "msg_incarnation upd = ?i" for upd
    using that assms(3) by (simp add: pack_ok_def on_wire_def)
  then have "send nf upd \<noteq> Inr bs" if "msg_incarnation upd = ?i" for upd bs
    using that succeeds_pack [of "on_wire nf upd"] unfolding send_def succeeds_def by blast
  then show ?thesis
    using assms(1,2)
    by (simp add: membership_handle_message_def handle_suspect_def broadcast_alive_def
        next_sequence_def enqueue_update_def set_peer_def local_peer_def Let_def)
qed

lemma refutation_overflows_witness:
  "\<exists>upd. updates_queue (fst (membership_handle_message 7
      ((new_message SUSPECT [98] 1 0)\<lparr>target_id := Some [97], msg_incarnation := 2 ^ 32 - 1\<rparr>)
      (demo_membership PS_ALIVE 0))) = [upd] \<and> (\<forall>bs. send demo_format upd \<noteq> Inr bs)"
  using refutation_overflows [of "(new_message SUSPECT [98] 1 0)\<lparr>target_id := Some [97],
      msg_incarnation := 2 ^ 32 - 1\<rparr>" "demo_membership PS_ALIVE 0" 7 demo_format]
  by (simp add: local_peer_def new_peer_def new_message_def)

text \<open>
  C6. The wire is transparent for the protocol: if a message (gradients in single precision,
  arrays of one dimension, 64-bit indices) can be packed, then unpacking the bytes, whatever
  follows them, and handling the result has the effect and the reply of handling the message
  itself, in every state of the receiver and for every type of message.
\<close>

theorem wire_transparent:
  assumes "send nf msg = Inr bs" and "portable nf msg" and "length (bs @ junk) < 2 ^ 63"
  shows "receive nf now (bs @ junk) s = Inr (protocol_handle_message (to_f32 nf) now msg s)"
  using assms by (rule receive_sent)

theorem wire_transparent_witness:
  "\<exists>bs msg. send demo_format msg = Inr bs \<and> gradient_data msg = Some (demo_array [4]) \<and>
     receive demo_format 2 bs (wire_node 1) =
       Inr (protocol_handle_message (to_f32 demo_format) 2 msg (wire_node 1))"
proof -
  note n = wire_node_simps [OF demo_f32(2)]
  define msg :: gmsg where "msg = create_push_gradient (astype (to_f32 demo_format)) 1 (p_id (gp_local (wire_node 4)))
      (gp_sequence_num (wire_node 4) + 1) (demo_array [4]) (gp_model_version (wire_node 4))
      (gp_step (wire_node 4)) (current_indices (wire_node 4))"
  have own: "own_message demo_format 1 (demo_array [4]) (wire_node 4) msg"
    by (auto simp: own_message_def msg_def)
  from own_message_travels [OF own n(6,5,4)] obtain bs where
    "portable demo_format msg" "send demo_format msg = Inr bs" "length bs < 2 ^ 63" by blast
  with wire_transparent [of demo_format msg bs "[]" 2 "wire_node 1"] own_message_fields(4) [OF own n(6)]
  show ?thesis by auto
qed

text \<open>
  C5. A push-pull exchange over the wire makes two nodes agree: when \<open>a\<close> in a round addresses
  \<open>b\<close> and the ranges of the format hold on both sides, the message and the reply can be packed,
  arrive, and both nodes end with the same aggregate, the average of the two gradients (of equal
  length and in single precision, no earlier gradients cached).
\<close>

theorem push_pull_on_wire:
  assumes "table_wf (membership_of a)" and "cfg_push_pull a" and "node_sendable a" and "node_sendable b"
    and "current_gradients a = Some ga" and "current_gradients b = Some gb"
    and "length (nd_data ga) = length (nd_data gb)"
    and "astype (to_f32 nf) ga = ga" and "astype (to_f32 nf) gb = gb"
    and "gradient_cache a = []" and "gradient_cache b = []"
    and round: "gossip_round (to_f32 nf) ds t a = Inr (a1, Some (msg, sel))"
  shows "\<exists>bs b1 reply bs' a2.
    send nf msg = Inr bs \<and> receive nf t' bs b = Inr (b1, Some reply) \<and>
    send nf reply = Inr bs' \<and> receive nf t'' bs' a1 = Inr (a2, None) \<and>
    aggregated_gradients a2 = Some (astype (to_f32 nf) (np_mean [ga, gb])) \<and>
    aggregated_gradients b1 = aggregated_gradients a2 \<and>
    gradients_aggregated a2 = 2 \<and> gradients_aggregated b1 = 2"
proof -
  have flat: "nd_shape ga = nd_shape gb" "shaped ga" "shaped gb"
    using assms(3-7) by (simp_all add: node_sendable_def flat_array_def shaped_def)
  have type: "msg_type msg = PUSH_PULL_GRADIENT" using round_gradients [OF assms(1,2) round] by auto
  obtain b1 r where "protocol_handle_message (to_f32 nf) t' msg b = (b1, r)"
    by (cases "protocol_handle_message (to_f32 nf) t' msg b")
  with reply_is_own [OF type assms(6)] obtain reply where
    b1: "protocol_handle_message (to_f32 nf) t' msg b = (b1, Some reply)"
    and own: "own_message nf t' gb b reply" and push: "msg_type reply = PUSH_GRADIENT" by blast
  from own_message_travels [OF round_message_own [OF assms(1,5) round] assms(8,3,5)] obtain bs where
    bs: "portable nf msg" "send nf msg = Inr bs" "length bs < 2 ^ 63" by blast
  from own_message_travels [OF own assms(9,4,6)] obtain bs' where
    bs': "portable nf reply" "send nf reply = Inr bs'" "length bs' < 2 ^ 63" by blast
  have "receive nf t' bs b = Inr (b1, Some reply)"
    using receive_sent [OF bs(2,1), of "[]" t' b] bs(3) b1 by simp
  moreover have "receive nf t'' bs' a1 = Inr (fst (protocol_handle_message (to_f32 nf) t'' reply a1), None)"
    using receive_sent [OF bs'(2,1), of "[]" t'' a1] bs'(3) push_has_no_reply [OF push, of "to_f32 nf" t'' a1]
    by (simp add: prod_eq_iff)
  ultimately show ?thesis
    using push_pull_agree [OF assms(1,2,5,6) flat assms(8-11) round b1, of t''] bs(2) bs'(2)
    by (auto simp: Let_def)
qed

theorem push_pull_on_wire_witness:
  "\<exists>a1 msg sel bs b1 reply bs' a2.
     gossip_round (to_f32 demo_format) (\<lambda>_. [0]) 1 (wire_node 1) = Inr (a1, Some (msg, sel)) \<and>
     send demo_format msg = Inr bs \<and> receive demo_format 2 bs (wire_node 4) = Inr (b1, Some reply) \<and>
     send demo_format reply = Inr bs' \<and> receive demo_format 3 bs' a1 = Inr (a2, None) \<and>
     aggregated_gradients b1 = aggregated_gradients a2"
proof -
  note a = wire_node_simps [OF demo_f32(1)] and b = wire_node_simps [OF demo_f32(2)]
  obtain a1 msg sel where
    round: "gossip_round (to_f32 demo_format) (\<lambda>_. [0]) 1 (wire_node 1) = Inr (a1, Some (msg, sel))"
    using wire_node_round [OF demo_f32(1)] by blast
  have "length (nd_data (demo_array [1])) = length (nd_data (demo_array [4]))" by (simp add: demo_array_def)
  from push_pull_on_wire [OF a(1,2,5) b(5) a(4) b(4) this a(6) b(6) a(3) b(3) round, of 2 3] round
  show ?thesis by blast
qed

end
