(* ===== verification/Compression.thy ===== *)
theory Compression
  imports Prelude
begin

text \<open>
  \<open>gossip/compression.py\<close>: Top-K sparsification with error feedback, random sparsification,
  quantisation, and the dispatching function. Gradients are flat arrays, here lists.
  \<open>np.argpartition\<close>, \<open>np.argsort\<close>, \<open>np.random.choice\<close> and the conversion of one number to
  float32 are arguments; elementwise arithmetic is written out. \<open>itemsize\<close> is the size of an
  element of the given array.
\<close>

section \<open>Arrays\<close>

text \<open>\<open>int(x)\<close> truncates towards zero.\<close>

definition py_int :: "real \<Rightarrow> int" where
  "py_int x = (if 0 \<le> x then \<lfloor>x\<rfloor> else \<lceil>x\<rceil>)"

text \<open>
  \<open>a[indices] = values\<close>: negative indices count from the end, one value may serve for all
  indices, later assignments win.
\<close>

fun put_all :: "real list \<Rightarrow> (int \<times> real) list \<Rightarrow> real list result" where
  "put_all a [] = Inr a"
| "put_all a ((i, v) # ivs) =
     (let n = int (length a) in
      if 0 \<le> i \<and> i < n then put_all (a[nat i := v]) ivs
      else if - n \<le> i \<and> i < 0 then put_all (a[nat (i + n) := v]) ivs
      else Inl IndexError)"

definition scatter :: "real list \<Rightarrow> int list \<Rightarrow> real list \<Rightarrow> real list result" where
  "scatter a indices values =
     (if length values = length indices then put_all a (zip indices values)
      else if length values = 1 then put_all a (map (\<lambda>i. (i, values ! 0)) indices)
      else Inl ValueError)"

record compression_stats =
  original_size :: int
  compressed_size :: int
  compression_ratio :: real
  nnz :: int

definition sparse_stats :: "int \<Rightarrow> int \<Rightarrow> nat \<Rightarrow> nat \<Rightarrow> compression_stats" where
  "sparse_stats itemsize value_size n k =
     \<lparr>original_size = itemsize * int n, compressed_size = value_size * int k + 8 * int k,
      compression_ratio = real k / real n, nnz = int k\<rparr>"

text \<open>\<open>k = max(1, int(len(gradients) * ratio))\<close>.\<close>

definition kept :: "real \<Rightarrow> nat \<Rightarrow> int" where
  "kept ratio n = max 1 (py_int (real n * ratio))"

section \<open>Top-K\<close>

record topk =
  tk_ratio :: real
  error_feedback :: "real list option"

definition new_topk :: "real \<Rightarrow> topk" where
  "new_topk ratio = \<lparr>tk_ratio = ratio, error_feedback = None\<rparr>"

type_synonym partitioner = "real list \<Rightarrow> nat \<Rightarrow> nat list"
type_synonym sorter = "real list \<Rightarrow> nat list"

text \<open>
  \<open>part a k\<close> is \<open>np.argpartition(a, -k)\<close>, which raises \<open>ValueError\<close> if there are fewer than
  \<open>k\<close> elements.
\<close>

definition topk_compress ::
  "partitioner \<Rightarrow> sorter \<Rightarrow> (real \<Rightarrow> real) \<Rightarrow> int \<Rightarrow> real list \<Rightarrow> bool \<Rightarrow> topk \<Rightarrow>
     (topk \<times> real list \<times> int list \<times> compression_stats) result"
where
  "topk_compress part sorter f32 itemsize gradients0 use_error_feedback s =
     ebind (case error_feedback s of
              None \<Rightarrow> Inr gradients0
            | Some e \<Rightarrow> if use_error_feedback then np_add gradients0 e else Inr gradients0) (\<lambda>gradients.
     let k = kept (tk_ratio s) (length gradients);
         abs_grads = map abs gradients
     in if int (length gradients) < k then Inl ValueError
        else
          let indices0 = py_from (part abs_grads (nat k)) (- k);
              indices = map (\<lambda>j. indices0 ! j) (rev (sorter (map (\<lambda>i. abs_grads ! i) indices0)));
              values = map (\<lambda>i. f32 (gradients ! i)) indices;
              s' = (if use_error_feedback
                    then s\<lparr>error_feedback := Some (foldl (\<lambda>e i. e[i := 0]) gradients indices)\<rparr>
                    else s)
          in Inr (s', values, map int indices,
                  sparse_stats itemsize 4 (length gradients) (length values)))"

definition topk_decompress :: "real list \<Rightarrow> int list \<Rightarrow> nat \<Rightarrow> real list result" where
  "topk_decompress values indices n = scatter (replicate n 0) indices values"

definition reset_error_feedback :: "topk \<Rightarrow> topk" where
  "reset_error_feedback s = s\<lparr>error_feedback := None\<rparr>"

section \<open>Random-K\<close>

text \<open>
  \<open>choice n k\<close> is \<open>np.random.choice(n, k, replace=False)\<close>, which raises \<open>ValueError\<close> for
  \<open>k > n\<close>. A ratio of 0 makes numpy divide by zero (infinities); it is excluded here.
\<close>

definition randomk_compress ::
  "(nat \<Rightarrow> nat \<Rightarrow> nat list) \<Rightarrow> (real \<Rightarrow> real) \<Rightarrow> int \<Rightarrow> real \<Rightarrow> real list \<Rightarrow>
     (real list \<times> int list \<times> compression_stats) result"
where
  "randomk_compress choice f32 itemsize ratio gradients =
     (let n = length gradients; k = kept ratio n in
      if int n < k then Inl ValueError
      else if ratio = 0 then Inl ZeroDivisionError
      else
        let indices = choice n (nat k);
            values = map (\<lambda>i. gradients ! i / ratio) indices
        in Inr (map f32 values, map int indices, sparse_stats itemsize itemsize n (length values)))"

definition randomk_decompress :: "real \<Rightarrow> real list \<Rightarrow> int list \<Rightarrow> nat \<Rightarrow> real list result" where
  "randomk_decompress ratio values indices n =
     scatter (replicate n 0) indices (map (\<lambda>v. v * ratio) values)"

section \<open>Quantisation\<close>

definition levels :: "nat \<Rightarrow> real" where
  "levels bits = 2 ^ bits"

text \<open>\<open>gradients.min()\<close> of an empty array raises \<open>ValueError\<close>.\<close>

definition quantize ::
  "nat \<Rightarrow> int \<Rightarrow> real list \<Rightarrow> (8 word list \<times> (real \<times> real) \<times> compression_stats) result" where
  "quantize bits itemsize gradients =
     (if gradients = [] then Inl ValueError
      else
        let min_val = Min (set gradients); max_val = Max (set gradients);
            normalized = (if max_val - min_val > 0
                          then map (\<lambda>g. (g - min_val) / (max_val - min_val)) gradients
                          else map (\<lambda>g. 0) gradients);
            quantized = map (\<lambda>x. word_of_int (np_round (x * (levels bits - 1)))) normalized;
            n = int (length gradients)
        in Inr (quantized, (min_val, max_val),
                \<lparr>original_size = itemsize * n, compressed_size = n + 16,
                 compression_ratio = real_of_int n / real_of_int (itemsize * n), nnz = n\<rparr>))"

definition dequantize :: "(real \<Rightarrow> real) \<Rightarrow> nat \<Rightarrow> 8 word list \<Rightarrow> real \<times> real \<Rightarrow> real list" where
  "dequantize f32 bits quantized params =
     (let (min_val, max_val) = params
      in map (\<lambda>q. f32 (real_of_int (uint q)) / (levels bits - 1) * (max_val - min_val) + min_val) quantized)"

section \<open>Dispatch\<close>

datatype compressed =
    Sparse "real list" "int list" compression_stats
  | Quantized "8 word list" "real \<times> real" compression_stats

definition compress_gradients ::
  "partitioner \<Rightarrow> sorter \<Rightarrow> (nat \<Rightarrow> nat \<Rightarrow> nat list) \<Rightarrow> (real \<Rightarrow> real) \<Rightarrow> int \<Rightarrow>
     real list \<Rightarrow> pystr \<Rightarrow> real \<Rightarrow> nat \<Rightarrow> compressed result"
where
  "compress_gradients part sorter choice f32 itemsize gradients meth ratio bits =
     (if meth = lit ''topk'' then
        ebind (topk_compress part sorter f32 itemsize gradients True (new_topk ratio))
          (\<lambda>(_, values, indices, stats). Inr (Sparse values indices stats))
      else if meth = lit ''random'' then
        ebind (randomk_compress choice f32 itemsize ratio gradients)
          (\<lambda>(values, indices, stats). Inr (Sparse values indices stats))
      else if meth = lit ''quantize'' then
        ebind (quantize bits itemsize gradients)
          (\<lambda>(values, params, stats). Inr (Quantized values params stats))
      else Inl ValueError)"

section \<open>Scattering\<close>

lemma put_all_length: "put_all a ivs = Inr b \<Longrightarrow> length b = length a"
  by (induction a ivs rule: put_all.induct) (auto simp: Let_def split: if_splits)

text \<open>Writing values that are a function of the index, at different indices in range.\<close>

lemma put_all_indices:
  assumes "set is \<subseteq> {..<length a}"
  shows "put_all a (map (\<lambda>i. (int i, f i)) is) =
     Inr (map (\<lambda>j. if j \<in> set is then f j else a ! j) [0..<length a])"
  using assms
proof (induction "is" arbitrary: a)
  case Nil
  show ?case by (simp add: map_nth)
next
  case (Cons i "is")
  have "map (\<lambda>j. if j \<in> set is then f j else a[i := f i] ! j) [0..<length a] =
      map (\<lambda>j. if j \<in> set (i # is) then f j else a ! j) [0..<length a]"
    by (auto simp: nth_list_update)
  with Cons show ?case by (simp add: Let_def)
qed

lemma scatter_indices:
  assumes "set is \<subseteq> {..<length a}"
  shows "scatter a (map int is) (map f is) =
     Inr (map (\<lambda>j. if j \<in> set is then f j else a ! j) [0..<length a])"
proof -
  have "zip (map int is) (map f is) = map (\<lambda>i. (int i, f i)) is" by (induction "is") simp_all
  with put_all_indices [OF assms] show ?thesis by (simp add: scatter_def)
qed

lemma zero_out:
  "foldl (\<lambda>e i. e[i := (0::real)]) a is = map (\<lambda>j. if j \<in> set is then 0 else a ! j) [0..<length a]"
proof (induction "is" arbitrary: a)
  case Nil
  show ?case by (simp add: map_nth)
next
  case (Cons i "is")
  show ?case by (auto simp: Cons.IH nth_list_update)
qed

section \<open>The documented behaviour of numpy's selection\<close>

text \<open>
  \<open>argpartition(a, -k)\<close> is a permutation of the positions whose last \<open>k\<close> carry values not
  below any of the others; \<open>argsort\<close> is a permutation that sorts ascending.
\<close>

definition partition_ok :: "partitioner \<Rightarrow> bool" where
  "partition_ok part \<longleftrightarrow>
     (\<forall>a k. 0 < k \<and> k \<le> length a \<longrightarrow>
        mset (part a k) = mset [0..<length a] \<and>
        (\<forall>i \<in> set (drop (length a - k) (part a k)). \<forall>j \<in> set (take (length a - k) (part a k)). a ! j \<le> a ! i))"

definition sorter_ok :: "sorter \<Rightarrow> bool" where
  "sorter_ok so \<longleftrightarrow>
     (\<forall>a. mset (so a) = mset [0..<length a] \<and> sorted (map (\<lambda>i. a ! i) (so a)))"

text \<open>What the code makes of them: the positions of the \<open>k\<close> largest values, largest first.\<close>

definition top_indices :: "partitioner \<Rightarrow> sorter \<Rightarrow> real list \<Rightarrow> nat \<Rightarrow> nat list" where
  "top_indices part so a k =
     (let i0 = py_from (part a k) (- int k)
      in map (\<lambda>j. i0 ! j) (rev (so (map (\<lambda>i. a ! i) i0))))"

lemma top_indices:
  assumes "partition_ok part" and "sorter_ok so" and "0 < k" and "k \<le> length a"
  shows "length (top_indices part so a k) = k" and "distinct (top_indices part so a k)"
    and "set (top_indices part so a k) \<subseteq> {..<length a}"
    and "sorted_wrt (\<lambda>i j. a ! j \<le> a ! i) (top_indices part so a k)"
    and "\<forall>i \<in> set (top_indices part so a k). \<forall>j < length a.
      j \<notin> set (top_indices part so a k) \<longrightarrow> a ! j \<le> a ! i"
proof -
  define p where "p = part a k"
  define i0 where "i0 = drop (length a - k) p"
  have p: "mset p = mset [0..<length a]"
    "\<forall>i \<in> set i0. \<forall>j \<in> set (take (length a - k) p). a ! j \<le> a ! i"
    using assms(1,3,4) unfolding partition_ok_def p_def i0_def by blast+
  have lp: "length p = length a" using p(1) by (metis length_upt minus_nat.diff_0 size_mset)
  have sp: "set p = {..<length a}" using p(1) by (metis atLeast_upt set_mset_mset)
  have dp: "distinct p" using p(1) by (metis distinct_upt mset_eq_imp_distinct_iff)
  have i0: "py_from p (- int k) = i0"
    using assms(3,4) lp by (simp add: py_from_def slice_pos_def i0_def nat_diff_distrib')
  have li0: "length i0 = k" using lp assms(4) by (simp add: i0_def)
  define r where "r = so (map (\<lambda>i. a ! i) i0)"
  have r: "mset r = mset [0..<k]" "sorted (map (\<lambda>j. map (\<lambda>i. a ! i) i0 ! j) r)"
    using assms(2) li0 unfolding sorter_ok_def r_def by (metis length_map)+
  have sr: "set r = {..<k}" using r(1) by (metis atLeast_upt set_mset_mset)
  have t: "top_indices part so a k = map (\<lambda>j. i0 ! j) (rev r)"
    unfolding top_indices_def p_def [symmetric] i0 Let_def r_def ..
  have mt: "mset (top_indices part so a k) = mset i0"
  proof -
    have "mset (map (\<lambda>j. i0 ! j) (rev r)) = image_mset (\<lambda>j. i0 ! j) (mset [0..<k])"
      by (simp add: r(1))
    also have "\<dots> = mset (map (\<lambda>j. i0 ! j) [0..<length i0])" by (simp add: li0)
    finally show ?thesis by (simp only: t map_nth)
  qed
  then have st: "set (top_indices part so a k) = set i0" by (metis set_mset_mset)
  show "length (top_indices part so a k) = k" using mt li0 by (metis size_mset)
  show "distinct (top_indices part so a k)"
    using mt dp by (metis distinct_drop i0_def mset_eq_imp_distinct_iff)
  show "set (top_indices part so a k) \<subseteq> {..<length a}"
    unfolding st using sp by (auto simp: i0_def dest: in_set_dropD)
  have "sorted (map (\<lambda>j. a ! (i0 ! j)) r)"
  proof -
    have "map (\<lambda>j. map (\<lambda>i. a ! i) i0 ! j) r = map (\<lambda>j. a ! (i0 ! j)) r"
      using sr li0 by auto
    with r(2) show ?thesis by simp
  qed
  then have "sorted_wrt (\<lambda>i j. a ! i \<le> a ! j) (map (\<lambda>j. i0 ! j) r)"
    by (simp add: sorted_wrt_map)
  then show "sorted_wrt (\<lambda>i j. a ! j \<le> a ! i) (top_indices part so a k)"
    unfolding t rev_map [symmetric] sorted_wrt_rev .
  show "\<forall>i \<in> set (top_indices part so a k). \<forall>j < length a.
      j \<notin> set (top_indices part so a k) \<longrightarrow> a ! j \<le> a ! i"
  proof (intro ballI allI impI)
    fix i j
    assume i: "i \<in> set (top_indices part so a k)" and j: "j < length a" "j \<notin> set (top_indices part so a k)"
    have "set p = set (take (length a - k) p) \<union> set i0"
      by (metis append_take_drop_id i0_def set_append)
    with j sp st have "j \<in> set (take (length a - k) p)" by auto
    with p(2) i st show "a ! j \<le> a ! i" by auto
  qed
qed

end
