(* ===== verification/Compression_Props.thy ===== *)
theory Compression_Props
  imports Compression
begin

text \<open>
  What the compressors guarantee: Top-K with error feedback loses nothing, random
  sparsification returns the selected entries unscaled, quantisation has a bounded error.
\<close>

section \<open>Top-K\<close>

definition with_feedback :: "topk \<Rightarrow> real list \<Rightarrow> real list" where
  "with_feedback s g = (case error_feedback s of None \<Rightarrow> g | Some e \<Rightarrow> map2 (+) g e)"

text \<open>The residual has the length of the gradients of the run.\<close>

definition feedback_fits :: "topk \<Rightarrow> nat \<Rightarrow> bool" where
  "feedback_fits s n \<longleftrightarrow> (case error_feedback s of None \<Rightarrow> True | Some e \<Rightarrow> length e = n)"

lemma with_feedback_length: "feedback_fits s (length g) \<Longrightarrow> length (with_feedback s g) = length g"
  by (simp add: feedback_fits_def with_feedback_def split: option.splits)

text \<open>The array that is sparsified, and the compression as a selection from it.\<close>

definition working :: "bool \<Rightarrow> topk \<Rightarrow> real list \<Rightarrow> real list" where
  "working fb s g = (if fb then with_feedback s g else g)"

lemma working_length: "fb \<longrightarrow> feedback_fits s (length g) \<Longrightarrow> length (working fb s g) = length g"
  by (simp add: working_def with_feedback_length)

lemma topk_compress_working:
  assumes "fb \<longrightarrow> feedback_fits s (length g)"
  shows "topk_compress part so f32 itemsize g fb s =
    (let t = working fb s g; k = kept (tk_ratio s) (length g) in
     if int (length g) < k then Inl ValueError
     else
       let ix = top_indices part so (map abs t) (nat k)
       in Inr (if fb then s\<lparr>error_feedback := Some (map (\<lambda>j. if j \<in> set ix then 0 else t ! j) [0..<length g])\<rparr> else s,
               map (\<lambda>i. f32 (t ! i)) ix, map int ix, sparse_stats itemsize 4 (length g) (length ix)))"
proof -
  have fb: "(case error_feedback s of None \<Rightarrow> Inr g | Some e \<Rightarrow> if fb then np_add g e else Inr g) =
      Inr (working fb s g)"
    using assms
    by (cases "error_feedback s") (simp_all add: feedback_fits_def working_def with_feedback_def np_add_def)
  have k: "0 < kept (tk_ratio s) n" for n by (simp add: kept_def)
  then have "int (nat (kept (tk_ratio s) n)) = kept (tk_ratio s) n" for n by (simp add: less_imp_le)
  then show ?thesis
    unfolding topk_compress_def fb ebind_simps zero_out working_length [OF assms]
      top_indices_def Let_def
    by (simp only: length_map)
qed

lemma topk_compress_eq:
  assumes "feedback_fits s (length g)"
  shows "topk_compress part so f32 itemsize g True s =
    (let t = with_feedback s g; k = kept (tk_ratio s) (length g) in
     if int (length g) < k then Inl ValueError
     else
       let ix = top_indices part so (map abs t) (nat k)
       in Inr (s\<lparr>error_feedback := Some (map (\<lambda>j. if j \<in> set ix then 0 else t ! j) [0..<length g])\<rparr>,
               map (\<lambda>i. f32 (t ! i)) ix, map int ix, sparse_stats itemsize 4 (length g) (length ix)))"
  using topk_compress_working [of True s g part so f32 itemsize] assms by (simp add: working_def Let_def)

lemma kept_range:
  assumes "0 < n" and "0 \<le> ratio" and "ratio \<le> 1"
  shows "0 < kept ratio n" and "kept ratio n \<le> int n"
proof -
  show "0 < kept ratio n" by (simp add: kept_def)
  have "real n * ratio \<le> real n" using assms by (simp add: mult_left_le)
  then have "\<lfloor>real n * ratio\<rfloor> \<le> int n" by linarith
  with assms show "kept ratio n \<le> int n" by (simp add: kept_def py_int_def)
qed

text \<open>One round of compression at the sender and decompression at the receiver.\<close>

definition topk_round ::
  "partitioner \<Rightarrow> sorter \<Rightarrow> (real \<Rightarrow> real) \<Rightarrow> real list \<Rightarrow> topk \<Rightarrow> (topk \<times> real list) result" where
  "topk_round part so f32 g s =
     ebind (topk_compress part so f32 4 g True s) (\<lambda>(s', values, indices, _).
     ebind (topk_decompress values indices (length g)) (\<lambda>dense. Inr (s', dense)))"

fun topk_rounds ::
  "partitioner \<Rightarrow> sorter \<Rightarrow> (real \<Rightarrow> real) \<Rightarrow> real list list \<Rightarrow> topk \<Rightarrow> (topk \<times> real list list) result" where
  "topk_rounds part so f32 [] s = Inr (s, [])"
| "topk_rounds part so f32 (g # gs) s =
     ebind (topk_round part so f32 g s) (\<lambda>(s', d).
     ebind (topk_rounds part so f32 gs s') (\<lambda>(s'', ds). Inr (s'', d # ds)))"

lemma topk_round_ok:
  assumes "partition_ok part" and "sorter_ok so" and "feedback_fits s (length g)"
    and "g \<noteq> []" and "0 \<le> tk_ratio s" and "tk_ratio s \<le> 1"
  shows "\<exists>s' d. topk_round part so f32 g s = Inr (s', d) \<and> tk_ratio s' = tk_ratio s \<and>
    length d = length g \<and> feedback_fits s' (length g) \<and>
    (\<forall>j < length g. d ! j = 0 \<and> the (error_feedback s') ! j = with_feedback s g ! j \<or>
       d ! j = f32 (with_feedback s g ! j) \<and> the (error_feedback s') ! j = 0) \<and>
    error_feedback s' \<noteq> None"
proof -
  let ?t = "with_feedback s g" and ?k = "nat (kept (tk_ratio s) (length g))"
  define ix where "ix = top_indices part so (map abs ?t) ?k"
  have k: "0 < kept (tk_ratio s) (length g)" "kept (tk_ratio s) (length g) \<le> int (length g)"
    using kept_range assms(4-6) by simp_all
  have len: "length ?t = length g" by (rule with_feedback_length [OF assms(3)])
  have ix: "set ix \<subseteq> {..<length g}"
    using top_indices(3) [OF assms(1,2), of ?k "map abs ?t"] k len by (simp add: ix_def)
  define e where "e = map (\<lambda>j. if j \<in> set ix then 0 else ?t ! j) [0..<length g]"
  define d where "d = map (\<lambda>j. if j \<in> set ix then f32 (?t ! j) else 0) [0..<length g]"
  have "topk_compress part so f32 4 g True s =
      Inr (s\<lparr>error_feedback := Some e\<rparr>, map (\<lambda>i. f32 (?t ! i)) ix, map int ix,
           sparse_stats 4 4 (length g) (length ix))"
    using k by (simp add: topk_compress_eq [OF assms(3)] Let_def ix_def e_def)
  moreover have "topk_decompress (map (\<lambda>i. f32 (?t ! i)) ix) (map int ix) (length g) = Inr d"
  proof -
    have "map (\<lambda>j. if j \<in> set ix then f32 (?t ! j) else replicate (length g) 0 ! j) [0..<length g] = d"
      by (simp add: d_def)
    with scatter_indices [of ix "replicate (length g) 0" "\<lambda>i. f32 (?t ! i)"] ix show ?thesis
      by (simp add: topk_decompress_def)
  qed
  ultimately have "topk_round part so f32 g s = Inr (s\<lparr>error_feedback := Some e\<rparr>, d)"
    by (simp add: topk_round_def)
  then show ?thesis by (simp add: e_def d_def feedback_fits_def)
qed

text \<open>The entry \<open>j\<close> of the residual.\<close>

definition residual :: "topk \<Rightarrow> nat \<Rightarrow> real" where
  "residual s j = (case error_feedback s of None \<Rightarrow> 0 | Some e \<Rightarrow> e ! j)"

lemma with_feedback_nth:
  assumes "feedback_fits s (length g)" and "j < length g"
  shows "with_feedback s g ! j = g ! j + residual s j"
  using assms by (simp add: with_feedback_def residual_def feedback_fits_def split: option.splits)

text \<open>
  Rounding to float32 has a relative error of at most \<open>u\<close>, and an absolute one of at most
  \<open>eta\<close> where numbers are tiny.
\<close>

definition f32_close :: "(real \<Rightarrow> real) \<Rightarrow> real \<Rightarrow> real \<Rightarrow> bool" where
  "f32_close f32 u eta \<longleftrightarrow> 0 \<le> u \<and> 0 \<le> eta \<and> (\<forall>x. \<bar>f32 x - x\<bar> \<le> u * \<bar>f32 x\<bar> + eta)"

lemma topk_rounds_ok:
  assumes "partition_ok part" and "sorter_ok so" and "f32_close f32 u eta"
    and "feedback_fits s n" and "0 < n" and "0 \<le> tk_ratio s" and "tk_ratio s \<le> 1"
    and "\<forall>g \<in> set gs. length g = n"
  shows "\<exists>s' ds. topk_rounds part so f32 gs s = Inr (s', ds) \<and> length ds = length gs \<and>
    (\<forall>d \<in> set ds. length d = n) \<and>
    (\<forall>j < n. \<bar>((\<Sum>d\<leftarrow>ds. d ! j) + residual s' j) - ((\<Sum>g\<leftarrow>gs. g ! j) + residual s j)\<bar>
       \<le> (\<Sum>d\<leftarrow>ds. u * \<bar>d ! j\<bar> + eta))"
  using assms(4,6-8)
proof (induction gs arbitrary: s)
  case Nil
  then show ?case by simp
next
  case (Cons g gs)
  have g: "length g = n" "g \<noteq> []" using Cons.prems(4) assms(5) by auto
  then obtain s1 d where r: "topk_round part so f32 g s = Inr (s1, d)" "tk_ratio s1 = tk_ratio s"
    "length d = n" "feedback_fits s1 n" "error_feedback s1 \<noteq> None"
    "\<forall>j < n. d ! j = 0 \<and> the (error_feedback s1) ! j = with_feedback s g ! j \<or>
       d ! j = f32 (with_feedback s g ! j) \<and> the (error_feedback s1) ! j = 0"
    using topk_round_ok [OF assms(1,2), of s g f32] Cons.prems(1-3) by auto
  have step: "\<bar>(d ! j + residual s1 j) - (g ! j + residual s j)\<bar> \<le> u * \<bar>d ! j\<bar> + eta" if "j < n" for j
  proof -
    have w: "with_feedback s g ! j = g ! j + residual s j"
      using that with_feedback_nth [of s g j] Cons.prems(1) g(1) by simp
    have "0 \<le> u * \<bar>d ! j\<bar> + eta" using assms(3) by (simp add: f32_close_def)
    moreover have "\<bar>f32 (with_feedback s g ! j) - with_feedback s g ! j\<bar> \<le> u * \<bar>f32 (with_feedback s g ! j)\<bar> + eta"
      using assms(3) by (simp add: f32_close_def)
    ultimately show ?thesis
      using r(6) [rule_format, OF that] r(5) unfolding w [symmetric] by (auto simp: residual_def)
  qed
  obtain s' ds where rest: "topk_rounds part so f32 gs s1 = Inr (s', ds)" "length ds = length gs"
    "\<forall>d \<in> set ds. length d = n"
    "\<forall>j < n. \<bar>((\<Sum>d\<leftarrow>ds. d ! j) + residual s' j) - ((\<Sum>g\<leftarrow>gs. g ! j) + residual s1 j)\<bar>
       \<le> (\<Sum>d\<leftarrow>ds. u * \<bar>d ! j\<bar> + eta)"
    using Cons.IH [of s1] Cons.prems r(2,4) by auto
  have "\<bar>((\<Sum>d\<leftarrow>d # ds. d ! j) + residual s' j) - ((\<Sum>g\<leftarrow>g # gs. g ! j) + residual s j)\<bar>
       \<le> (\<Sum>d\<leftarrow>d # ds. u * \<bar>d ! j\<bar> + eta)" if "j < n" for j
  proof -
    have sum: "(\<Sum>x\<leftarrow>y # ys. F x) = F y + (\<Sum>x\<leftarrow>ys. F x)" for F :: "real list \<Rightarrow> real" and y ys by simp
    show ?thesis using rest(4) [rule_format, OF that] step [OF that] unfolding sum by linarith
  qed
  with r rest show ?case by (intro exI [of _ s'] exI [of _ "d # ds"]) simp
qed

section \<open>Quantisation\<close>

lemma np_round_range:
  assumes "0 \<le> x" and "x \<le> of_int n"
  shows "0 \<le> np_round x" and "np_round x \<le> n"
proof -
  have "0 \<le> \<lfloor>x\<rfloor>" using assms(1) by simp
  then show "0 \<le> np_round x" by (auto simp: np_round_def Let_def)
  show "np_round x \<le> n"
  proof (cases "\<lfloor>x\<rfloor> = n")
    case True
    with assms(2) have "x - of_int \<lfloor>x\<rfloor> = 0" using of_int_floor_le [of x] by simp
    then show ?thesis using True by (simp add: np_round_def)
  next
    case False
    then have "\<lfloor>x\<rfloor> + 1 \<le> n" using assms(2) by linarith
    then show ?thesis by (auto simp: np_round_def Let_def)
  qed
qed

definition quant_int :: "nat \<Rightarrow> real \<Rightarrow> real \<Rightarrow> real \<Rightarrow> int" where
  "quant_int bits lo hi g =
     np_round ((if hi - lo > 0 then (g - lo) / (hi - lo) else 0) * (levels bits - 1))"

lemma levels_bounds:
  assumes "1 \<le> bits" and "bits \<le> 8"
  shows "1 \<le> levels bits - 1" and "levels bits - 1 \<le> 255" and "of_int \<lfloor>levels bits - 1\<rfloor> = levels bits - 1"
proof -
  have "(2::real) ^ 1 \<le> 2 ^ bits" "(2::real) ^ bits \<le> 2 ^ 8"
    using assms by (simp_all only: power_increasing one_le_numeral)
  then show "1 \<le> levels bits - 1" "levels bits - 1 \<le> 255" by (simp_all add: levels_def)
  have "levels bits - 1 = of_int (2 ^ bits - 1)" by (simp add: levels_def)
  then show "of_int \<lfloor>levels bits - 1\<rfloor> = levels bits - 1" by (simp only: floor_of_int)
qed

lemma quant_int:
  assumes "1 \<le> bits" and "bits \<le> 8" and "lo \<le> g" and "g \<le> hi"
  shows "0 \<le> quant_int bits lo hi g" and "quant_int bits lo hi g \<le> 255"
    and "\<bar>of_int (quant_int bits lo hi g) / (levels bits - 1) * (hi - lo) + lo - g\<bar>
           \<le> (hi - lo) / (2 * (levels bits - 1))"
proof -
  define L where "L = levels bits - 1"
  define x where "x = (if hi - lo > 0 then (g - lo) / (hi - lo) else 0)"
  have L: "1 \<le> L" "L \<le> 255" "of_int \<lfloor>L\<rfloor> = L"
    using levels_bounds [OF assms(1,2)] by (simp_all add: L_def)
  have x: "0 \<le> x" "x \<le> 1" "x * (hi - lo) = g - lo"
    using assms(3,4) by (auto simp: x_def)
  have xl: "0 \<le> x * L" "x * L \<le> L" using x L by (simp_all add: mult_le_cancel_right1)
  have q: "quant_int bits lo hi g = np_round (x * L)" by (simp add: quant_int_def x_def L_def)
  show "0 \<le> quant_int bits lo hi g" unfolding q
    by (rule np_round_range(1) [OF xl(1), of "\<lfloor>L\<rfloor>", unfolded L(3), OF xl(2)])
  have "np_round (x * L) \<le> \<lfloor>L\<rfloor>" 
    by (rule np_round_range(2) [OF xl(1), of "\<lfloor>L\<rfloor>", unfolded L(3), OF xl(2)])
  also have "\<lfloor>L\<rfloor> \<le> 255" using L(2) by linarith
  finally show "quant_int bits lo hi g \<le> 255" unfolding q .
  define r where "r = real_of_int (np_round (x * L)) - x * L"
  have r: "\<bar>r\<bar> \<le> 1 / 2" unfolding r_def by (rule np_round_error)
  have "r / L = real_of_int (np_round (x * L)) / L - x"
    using L(1) by (simp add: r_def diff_divide_distrib)
  then have "r / L * (hi - lo) = real_of_int (np_round (x * L)) / L * (hi - lo) - (g - lo)"
    by (simp only: left_diff_distrib x(3))
  then have "real_of_int (np_round (x * L)) / L * (hi - lo) + lo - g = r / L * (hi - lo)" by simp
  also have "\<bar>\<dots>\<bar> = \<bar>r\<bar> / L * (hi - lo)" using L(1) assms(3,4) by (simp add: abs_mult)
  also have "\<dots> \<le> (1 / 2) / L * (hi - lo)"
    using r L(1) assms(3,4) by (intro mult_right_mono divide_right_mono) simp_all
  finally show "\<bar>of_int (quant_int bits lo hi g) / (levels bits - 1) * (hi - lo) + lo - g\<bar>
      \<le> (hi - lo) / (2 * (levels bits - 1))"
    unfolding q L_def [symmetric] by (simp add: field_simps)
qed

section \<open>Concrete selections\<close>

definition demo_sorter :: sorter where
  "demo_sorter a = sort_key (\<lambda>i. a ! i) [0..<length a]"

definition demo_part :: partitioner where
  "demo_part a k = demo_sorter a"

lemma demo_sorter_ok: "sorter_ok demo_sorter"
  by (simp add: sorter_ok_def demo_sorter_def)

lemma demo_part_ok: "partition_ok demo_part"
  unfolding partition_ok_def
proof (intro allI impI conjI)
  fix a :: "real list" and k
  show "mset (demo_part a k) = mset [0..<length a]" by (simp add: demo_part_def demo_sorter_def)
  define p where "p = demo_part a k"
  have "sorted (map (\<lambda>i. a ! i) (take (length a - k) p @ drop (length a - k) p))"
    by (simp add: p_def demo_part_def demo_sorter_def)
  then show "\<forall>i \<in> set (drop (length a - k) (demo_part a k)). \<forall>j \<in> set (take (length a - k) (demo_part a k)).
      a ! j \<le> a ! i"
    unfolding map_append sorted_append p_def [symmetric] by auto
qed

section \<open>Properties\<close>

text \<open>
  C23. Error feedback: over any number of rounds, what the receiver has decompressed and what
  the sender still holds back add up, entry by entry, to all gradients put in, up to the
  rounding of the transmitted values to float32 (which the code does not feed back).
\<close>

theorem topk_conserves:
  assumes "partition_ok part" and "sorter_ok so" and "f32_close f32 u eta"
    and "feedback_fits s n" and "0 < n" and "0 \<le> tk_ratio s" and "tk_ratio s \<le> 1"
    and "\<forall>g \<in> set gs. length g = n"
  shows "\<exists>s' ds. topk_rounds part so f32 gs s = Inr (s', ds) \<and> length ds = length gs \<and>
    (\<forall>d \<in> set ds. length d = n) \<and>
    (\<forall>j < n. \<bar>((\<Sum>d\<leftarrow>ds. d ! j) + residual s' j) - ((\<Sum>g\<leftarrow>gs. g ! j) + residual s j)\<bar>
       \<le> (\<Sum>d\<leftarrow>ds. u * \<bar>d ! j\<bar> + eta))"
  using assms by (rule topk_rounds_ok)

theorem topk_conserves_witness:
  "\<exists>s' ds. topk_rounds demo_part demo_sorter (\<lambda>x. x) [[3, -5, 1], [1, 1, 1]] (new_topk (1/3)) = Inr (s', ds) \<and>
     (\<forall>j < 3. (\<Sum>d\<leftarrow>ds. d ! j) + residual s' j = (\<Sum>g\<leftarrow>[[3, -5, 1], [1, 1, 1]]. g ! j))"
proof -
  have "f32_close (\<lambda>x. x) 0 0" "feedback_fits (new_topk (1/3)) 3" "residual (new_topk (1/3)) j = 0" for j
    by (simp_all add: f32_close_def feedback_fits_def new_topk_def residual_def)
  with topk_conserves [OF demo_part_ok demo_sorter_ok, of "\<lambda>x. x" 0 0 "new_topk (1/3)" 3 "[[3, -5, 1], [1, 1, 1]]"]
  show ?thesis by (simp add: new_topk_def) blast
qed

text \<open>The entry \<open>j\<close> of the array that is sparsified.\<close>

definition sparsified :: "bool \<Rightarrow> topk \<Rightarrow> real list \<Rightarrow> nat \<Rightarrow> real" where
  "sparsified fb s g j = (if fb then g ! j + residual s j else g ! j)"

lemma working_nth:
  assumes "fb \<longrightarrow> feedback_fits s (length g)" and "j < length g"
  shows "working fb s g ! j = sparsified fb s g j"
  using assms by (simp add: working_def sparsified_def with_feedback_nth)



text \<open>
  Random sparsification: \<open>compress\<close> divides the selected entries by the ratio and
  \<open>decompress\<close> multiplies them back, so the receiver gets the selected entries themselves and
  zero elsewhere: the scaling that was to maintain the expectation is undone.
\<close>

lemma randomk_unscaled:
  assumes "ratio \<noteq> 0" and "kept ratio (length g) \<le> int (length g)"
    and "set (choice (length g) (nat (kept ratio (length g)))) \<subseteq> {..<length g}"
    and "\<forall>i \<in> set (choice (length g) (nat (kept ratio (length g)))). f32 (g ! i / ratio) = g ! i / ratio"
  shows "\<exists>values indices stats. randomk_compress choice f32 itemsize ratio g = Inr (values, indices, stats) \<and>
    randomk_decompress ratio values indices (length g) =
      Inr (map (\<lambda>j. if j \<in> set (choice (length g) (nat (kept ratio (length g)))) then g ! j else 0) [0..<length g])"
proof -
  define ix where "ix = choice (length g) (nat (kept ratio (length g)))"
  have c: "randomk_compress choice f32 itemsize ratio g =
      Inr (map f32 (map (\<lambda>i. g ! i / ratio) ix), map int ix, sparse_stats itemsize itemsize (length g) (length ix))"
    using assms(1,2) by (simp add: randomk_compress_def Let_def ix_def [symmetric])
  have v: "map (\<lambda>v. v * ratio) (map f32 (map (\<lambda>i. g ! i / ratio) ix)) = map (\<lambda>i. g ! i) ix"
    using assms(1,4) by (simp add: ix_def [symmetric])
  have "map (\<lambda>j. if j \<in> set ix then g ! j else replicate (length g) 0 ! j) [0..<length g] =
      map (\<lambda>j. if j \<in> set ix then g ! j else 0) [0..<length g]" by simp
  with scatter_indices [of ix "replicate (length g) 0" "\<lambda>i. g ! i"] assms(3)
  have "randomk_decompress ratio (map f32 (map (\<lambda>i. g ! i / ratio) ix)) (map int ix) (length g) =
      Inr (map (\<lambda>j. if j \<in> set ix then g ! j else 0) [0..<length g])"
    unfolding randomk_decompress_def v by (simp add: ix_def [symmetric])
  with c show ?thesis by (simp add: ix_def [symmetric])
qed

lemma randomk_unscaled_witness:
  "\<exists>values indices stats. randomk_compress (\<lambda>n k. [1]) (\<lambda>x. x) 4 (1/3) [3, -5, 1] = Inr (values, indices, stats) \<and>
     randomk_decompress (1/3) values indices 3 = Inr [0, -5, 0]"
proof -
  have "kept (1/3) (length [3, -5, 1::real]) = 1" by (simp add: kept_def py_int_def)
  with randomk_unscaled [of "1/3" "[3, -5, 1]" "\<lambda>n k. [1]" "\<lambda>x. x" 4] show ?thesis
    by (simp add: upt_rec numeral_3_eq_3)
qed

text \<open>
  C35. Quantisation to 1 to 8 bits: every value fits its byte, and decompression returns every
  gradient up to half a quantisation step (small integers being exact in float32).
\<close>

theorem quantize_error:
  assumes "1 \<le> bits" and "bits \<le> 8" and "g \<noteq> []"
    and "\<forall>i. 0 \<le> i \<and> i \<le> 255 \<longrightarrow> f32 (real_of_int i) = real_of_int i"
  shows "\<exists>q stats. quantize bits itemsize g = Inr (q, (Min (set g), Max (set g)), stats) \<and>
    length q = length g \<and>
    (\<forall>j < length g. \<bar>dequantize f32 bits q (Min (set g), Max (set g)) ! j - g ! j\<bar>
       \<le> (Max (set g) - Min (set g)) / (2 * (levels bits - 1)))"
proof -
  let ?lo = "Min (set g)" and ?hi = "Max (set g)"
  have norm: "(if ?hi - ?lo > 0 then map (\<lambda>g. (g - ?lo) / (?hi - ?lo)) g else map (\<lambda>g. 0) g) =
      map (\<lambda>g. if ?hi - ?lo > 0 then (g - ?lo) / (?hi - ?lo) else 0) g" by simp
  define q :: "8 word list" where "q = map (\<lambda>x. word_of_int (quant_int bits ?lo ?hi x)) g"
  obtain stats where c: "quantize bits itemsize g = Inr (q, (?lo, ?hi), stats)"
    using assms(3) by (simp add: quantize_def norm Let_def q_def quant_int_def comp_def del: of_int_diff)
  have "\<bar>dequantize f32 bits q (?lo, ?hi) ! j - g ! j\<bar> \<le> (?hi - ?lo) / (2 * (levels bits - 1))"
    if j: "j < length g" for j
  proof -
    have "?lo \<le> g ! j" "g ! j \<le> ?hi" using j by simp_all
    note qi = quant_int [OF assms(1,2) this]
    have "uint (word_of_int (quant_int bits ?lo ?hi (g ! j)) :: 8 word) = quant_int bits ?lo ?hi (g ! j)"
      using qi(1,2) by (simp add: uint_word_of_int)
    then have "dequantize f32 bits q (?lo, ?hi) ! j =
        of_int (quant_int bits ?lo ?hi (g ! j)) / (levels bits - 1) * (?hi - ?lo) + ?lo"
      using qi(1,2) assms(4) j unfolding dequantize_def q_def Let_def prod.case
      by (simp only: nth_map length_map)
    with qi(3) show ?thesis by (simp only:)
  qed
  with c show ?thesis by (intro exI conjI) (auto simp: q_def)
qed

theorem quantize_error_witness:
  "\<exists>q stats. quantize 1 4 [0, 1, 10] = Inr (q, (0, 10), stats) \<and>
     (\<forall>j < 3. \<bar>dequantize (\<lambda>x. x) 1 q (0, 10) ! j - [0, 1, 10] ! j\<bar> \<le> 5)"
  using quantize_error [of 1 "[0, 1, 10]" "\<lambda>x. x" 4] by (simp add: levels_def numeral_3_eq_3) blast

end
