(* ===== verification/Accountant.thy ===== *)
theory Accountant
  imports Prelude
begin

text \<open>
  \<open>privacy/accountant.py\<close> and the bisection of \<open>privacy/mechanism.py\<close>: Renyi accounting of
  the subsampled Gaussian mechanism, its conversion to epsilon, the accountant that convolves
  discretised privacy losses, and the search for a noise multiplier. \<open>scipy.special.gammaln\<close>
  is an argument. Divisions by zero of numpy arrays, which give infinities, are not modelled;
  divisions of Python floats raise.
\<close>

section \<open>Records of steps\<close>

record privacy_spent =
  ps_epsilon :: real
  ps_delta :: real
  ps_noise_multiplier :: real
  ps_sample_rate :: real
  ps_step :: int

section \<open>The Renyi accountant\<close>

record rdp_accountant =
  orders :: "real list"
  rdp_epsilon :: "real list"
  rdp_history :: "privacy_spent list"
  rdp_step_count :: int

definition default_orders :: "real list" where
  "default_orders = map (\<lambda>x. 1 + real x / 10) [1..<100] @ map real [12..<64]"

definition new_rdp :: "real list option \<Rightarrow> rdp_accountant" where
  "new_rdp given =
     (let os = (case given of None \<Rightarrow> default_orders | Some l \<Rightarrow> l)
      in \<lparr>orders = os, rdp_epsilon = replicate (length os) 0, rdp_history = [], rdp_step_count = 0\<rparr>)"

text \<open>\<open>None\<close> is \<open>float('-inf')\<close>.\<close>

definition log_comb :: "(real \<Rightarrow> real) \<Rightarrow> real \<Rightarrow> nat \<Rightarrow> real option" where
  "log_comb gammaln n k =
     (if k = 0 then Some 0
      else if real k > n then None
      else Some (gammaln (n + 1) - gammaln (real k + 1) - gammaln (n - real k + 1)))"

definition log_term :: "(real \<Rightarrow> real) \<Rightarrow> real \<Rightarrow> real \<Rightarrow> real \<Rightarrow> nat \<Rightarrow> real option" where
  "log_term gammaln sigma q alpha k =
     map_option (\<lambda>c. c + real k * ln q + (alpha - real k) * ln (1 - q)
                      + real k * (real k - 1) / (2 * sigma\<^sup>2))
       (log_comb gammaln alpha k)"

text \<open>\<open>max\<close> and the sum of exponentials over the terms, those that are minus infinity adding 0.\<close>

definition log_sum_exp :: "real option list \<Rightarrow> real" where
  "log_sum_exp ts =
     (let xs = map the (filter (\<lambda>t. t \<noteq> None) ts); max_log = Max (set xs)
      in max_log + ln (\<Sum>x\<leftarrow>xs. exp (x - max_log)))"

text \<open>
  A sample rate outside 0 to 1 makes a logarithm fail (\<open>ValueError\<close>); a zero \<open>sigma\<close> is a
  division by zero. The first failing operation of the loop is the logarithm.
\<close>

definition subsampled_rdp :: "(real \<Rightarrow> real) \<Rightarrow> real \<Rightarrow> real \<Rightarrow> real \<Rightarrow> real result" where
  "subsampled_rdp gammaln sigma q alpha =
     (if alpha \<le> 1 then Inr 0
      else if q = 0 then Inr 0
      else if q = 1 then (if sigma = 0 then Inl ZeroDivisionError else Inr (alpha / (2 * sigma\<^sup>2)))
      else if q < 0 \<or> 1 < q then Inl ValueError
      else if sigma = 0 then Inl ZeroDivisionError
      else
        let n = min (nat \<lfloor>alpha\<rfloor> + 1) 100
        in Inr (log_sum_exp (map (log_term gammaln sigma q alpha) [0..<n]) / (alpha - 1)))"

definition rdp_of_order :: "(real \<Rightarrow> real) \<Rightarrow> real \<Rightarrow> real \<Rightarrow> real \<Rightarrow> real result" where
  "rdp_of_order gammaln sigma q alpha =
     (if q = 1 then (if sigma = 0 then Inl ZeroDivisionError else Inr (alpha / (2 * sigma\<^sup>2)))
      else subsampled_rdp gammaln sigma q alpha)"

definition compute_rdp :: "(real \<Rightarrow> real) \<Rightarrow> real \<Rightarrow> real \<Rightarrow> rdp_accountant \<Rightarrow> real list result" where
  "compute_rdp gammaln sigma q a = results (map (rdp_of_order gammaln sigma q) (orders a))"

text \<open>
  One step. When it raises, the counter has already been incremented; the callers drop the
  accountant then, so the state is only returned on success.
\<close>

definition rdp_step :: "(real \<Rightarrow> real) \<Rightarrow> real \<Rightarrow> real \<Rightarrow> rdp_accountant \<Rightarrow> rdp_accountant result" where
  "rdp_step gammaln sigma q a0 =
     (let a = a0\<lparr>rdp_step_count := rdp_step_count a0 + 1\<rparr> in
      ebind (compute_rdp gammaln sigma q a) (\<lambda>rdp.
      Inr (a\<lparr>rdp_epsilon := map2 (+) (rdp_epsilon a) rdp,
             rdp_history := rdp_history a @
               [\<lparr>ps_epsilon = 0, ps_delta = 0, ps_noise_multiplier = sigma,
                 ps_sample_rate = q, ps_step = rdp_step_count a\<rparr>]\<rparr>)))"

fun rdp_steps :: "(real \<Rightarrow> real) \<Rightarrow> (real \<times> real) list \<Rightarrow> rdp_accountant \<Rightarrow> rdp_accountant result" where
  "rdp_steps gammaln [] a = Inr a"
| "rdp_steps gammaln ((sigma, q) # ss) a = ebind (rdp_step gammaln sigma q a) (rdp_steps gammaln ss)"

text \<open>What an order contributes to epsilon.\<close>

definition order_epsilon :: "real \<Rightarrow> real \<Rightarrow> real \<Rightarrow> real" where
  "order_epsilon delta alpha rdp = rdp + (ln delta + ln alpha) / (1 - alpha)"

definition get_epsilon :: "real \<Rightarrow> rdp_accountant \<Rightarrow> pyfloat" where
  "get_epsilon delta a =
     (if delta \<le> 0 then PInf
      else
        let eps_list = filter (\<lambda>e. e > 0)
              (map (\<lambda>(alpha, rdp). order_epsilon delta alpha rdp)
                (filter (\<lambda>(alpha, rdp). alpha > 1) (zip (orders a) (rdp_epsilon a))))
        in if eps_list = [] then PInf else Fin (Min (set eps_list)))"

definition get_privacy_spent :: "real \<Rightarrow> rdp_accountant \<Rightarrow> pyfloat \<times> real" where
  "get_privacy_spent delta a = (get_epsilon delta a, delta)"

definition is_budget_exhausted :: "pyfloat \<Rightarrow> real \<Rightarrow> rdp_accountant \<Rightarrow> bool" where
  "is_budget_exhausted max_epsilon delta a \<longleftrightarrow> get_epsilon delta a > max_epsilon"

text \<open>The loop of \<open>get_optimal_order\<close> keeps the smallest value so far and its order.\<close>

definition get_optimal_order :: "real \<Rightarrow> rdp_accountant \<Rightarrow> real result" where
  "get_optimal_order delta a =
     (if delta \<le> 0 then Inl ValueError
      else if orders a = [] then Inl IndexError
      else
        Inr (snd (foldl (\<lambda>(min_eps, best) (alpha, rdp).
                let eps = rdp + ln delta / (alpha - 1) in
                if alpha \<le> 1 then (min_eps, best)
                else if Fin eps < min_eps then (Fin eps, alpha) else (min_eps, best))
              (PInf, hd (orders a)) (zip (orders a) (rdp_epsilon a)))))"

section \<open>The accountant of privacy losses\<close>

record glw_accountant =
  discretization :: real
  truncation :: real
  pld :: "real list option"
  pld_domain :: "real list option"
  glw_history :: "privacy_spent list"
  glw_step_count :: int

definition new_glw :: "real \<Rightarrow> real \<Rightarrow> glw_accountant" where
  "new_glw disc trunc =
     \<lparr>discretization = disc, truncation = trunc, pld = None, pld_domain = None,
      glw_history = [], glw_step_count = 0\<rparr>"

definition normalised :: "real list \<Rightarrow> real list" where
  "normalised xs = map (\<lambda>x. x / sum_list xs) xs"

definition gaussian_pld :: "real \<Rightarrow> real list \<Rightarrow> real list" where
  "gaussian_pld sigma domain =
     (let mu = 1 / (2 * sigma\<^sup>2); std = 1 / sigma
      in normalised (map (\<lambda>x. exp (- (1 / 2) * ((x - mu) / std)\<^sup>2)) domain))"

text \<open>\<open>np.convolve(a, b, mode='full')\<close>.\<close>

definition convolve :: "real list \<Rightarrow> real list \<Rightarrow> real list" where
  "convolve a b =
     map (\<lambda>n. \<Sum>i\<leftarrow>[0..<length a]. if i \<le> n \<and> n - i < length b then a ! i * b ! (n - i) else 0)
       [0..<length a + length b - 1]"

definition glw_step :: "real \<Rightarrow> real \<Rightarrow> glw_accountant \<Rightarrow> glw_accountant result" where
  "glw_step sigma q a0 =
     (let a = a0\<lparr>glw_step_count := glw_step_count a0 + 1\<rparr> in
      if discretization a = 0 \<or> sigma = 0 then Inl ZeroDivisionError
      else if 2 * truncation a / discretization a \<le> - 1 then Inl ValueError
      else
        let n_points = nat \<lfloor>2 * truncation a / discretization a\<rfloor>;
            domain = linspace (- truncation a) (truncation a) n_points;
            step_pld = gaussian_pld sigma domain;
            new_pld = (case pld a of
                         None \<Rightarrow> step_pld
                       | Some old \<Rightarrow> normalised (convolve old step_pld))
        in if pld a = Some [] \<or> (pld a \<noteq> None \<and> step_pld = []) then Inl ValueError
           else Inr (a\<lparr>pld_domain := Some domain, pld := Some new_pld,
                  glw_history := glw_history a @
                    [\<lparr>ps_epsilon = 0, ps_delta = 0, ps_noise_multiplier = sigma,
                      ps_sample_rate = q, ps_step = glw_step_count a\<rparr>]\<rparr>))"

fun cumsum_from :: "real \<Rightarrow> real list \<Rightarrow> real list" where
  "cumsum_from acc [] = []"
| "cumsum_from acc (x # xs) = (acc + x) # cumsum_from (acc + x) xs"

text \<open>The loop over the domain; \<open>cdf[i]\<close> exists because the distribution is not shorter.\<close>

definition glw_get_epsilon :: "real \<Rightarrow> glw_accountant \<Rightarrow> real result" where
  "glw_get_epsilon delta a =
     (case (pld a, pld_domain a) of
        (Some p, Some domain) \<Rightarrow>
          (case find (\<lambda>(eps, c). 1 - c \<le> delta) (zip domain (cumsum_from 0 p)) of
             Some (eps, c) \<Rightarrow> Inr (max 0 eps)
           | None \<Rightarrow> if domain = [] then Inl IndexError else Inr (last domain))
      | _ \<Rightarrow> Inr 0)"

section \<open>The search for a noise multiplier\<close>

definition check_sigma ::
  "(real \<Rightarrow> real) \<Rightarrow> real \<Rightarrow> pyfloat \<Rightarrow> real \<Rightarrow> nat \<Rightarrow> real list option \<Rightarrow> real \<Rightarrow> bool result" where
  "check_sigma gammaln q target_epsilon target_delta steps os sigma =
     ebind (rdp_steps gammaln (replicate steps (sigma, q)) (new_rdp os)) (\<lambda>a.
     Inr (get_epsilon target_delta a \<le> target_epsilon))"

text \<open>
  The bisection; \<open>None\<close> is a loop that does not end. Whether it ends depends on the rounding, so
  here every operation on doubles is rounded: \<open>rnd\<close> is the rounding of the exact result. The
  square of a multiplier that overflows (\<open>OverflowError\<close>) is not modelled.
\<close>

partial_function (option) bisect ::
  "(real \<Rightarrow> real) \<Rightarrow> (real \<Rightarrow> bool result) \<Rightarrow> real \<Rightarrow> real \<Rightarrow> real \<Rightarrow> real result option" where
  "bisect rnd check tolerance low high =
     (if rnd (high - low) > tolerance then
        (let mid = rnd (rnd (low + high) / 2) in
         case check mid of
           Inl e \<Rightarrow> Some (Inl e)
         | Inr ok \<Rightarrow>
             (if ok then bisect rnd check tolerance low mid else bisect rnd check tolerance mid high))
      else Some (Inr high))"

definition compute_sigma_for_rdp ::
  "(real \<Rightarrow> real) \<Rightarrow> (real \<Rightarrow> real) \<Rightarrow> real \<Rightarrow> pyfloat \<Rightarrow> real \<Rightarrow> nat \<Rightarrow> real list option \<Rightarrow> real \<Rightarrow> real \<Rightarrow>
     real result option"
where
  "compute_sigma_for_rdp rnd gammaln q target_epsilon target_delta steps os max_sigma tolerance =
     bisect rnd (check_sigma gammaln q target_epsilon target_delta steps os) tolerance (rnd (1 / 10)) max_sigma"

end
