(* ===== verification/Accountant_Props.thy ===== *)
theory Accountant_Props
  imports Accountant
begin

text \<open>
  Facts about the privacy accountants: composition of steps, how epsilon depends on the number
  of steps and the noise without subsampling, what the truncated series makes of orders below
  two, and the bisection for the noise multiplier.
\<close>

section \<open>The bisection\<close>

text \<open>
  Rounding to the nearest double, as IEEE 754 has it: monotone, and with a relative error of at most
  \<open>2 ^ -53\<close> for normal numbers.
\<close>

definition double_ok :: "(real \<Rightarrow> real) \<Rightarrow> bool" where
  "double_ok rnd \<longleftrightarrow>
     (\<forall>x y. x \<le> y \<longrightarrow> rnd x \<le> rnd y) \<and>
     (\<forall>x. 1 / 2 ^ 1022 \<le> \<bar>x\<bar> \<and> \<bar>x\<bar> \<le> 2 ^ 1023 \<longrightarrow> \<bar>rnd x - x\<bar> \<le> \<bar>x\<bar> / 2 ^ 53)"

lemma rounded_mono: "double_ok rnd \<Longrightarrow> x \<le> y \<Longrightarrow> rnd x \<le> rnd y"
  by (simp add: double_ok_def)

lemma rounded_near:
  assumes "double_ok rnd" and "1 / 2 ^ 60 \<le> x" and "x \<le> 10 ^ 151"
  shows "\<bar>rnd x - x\<bar> \<le> x / 2 ^ 53"
proof -
  have "1 / 2 ^ 1022 \<le> (1 / 2 ^ 60 :: real)" "(10 ^ 151 :: real) \<le> 2 ^ 1023" "0 \<le> (1 / 2 ^ 60 :: real)" by simp_all
  with assms(2,3) have "1 / 2 ^ 1022 \<le> \<bar>x\<bar>" "\<bar>x\<bar> \<le> 2 ^ 1023" "\<bar>x\<bar> = x" by linarith+
  then show ?thesis using assms(1) unfolding double_ok_def by metis
qed

lemma rounded_tenth:
  assumes "double_ok rnd"
  shows "9 / 100 \<le> rnd (1 / 10)"
proof -
  have "\<bar>rnd (1 / 10) - 1 / 10\<bar> \<le> 1 / 10 / 2 ^ 53" by (rule rounded_near [OF assms]) simp_all
  moreover have "1 / 10 / 2 ^ 53 \<le> (1 / 100 :: real)" by simp
  ultimately show ?thesis by linarith
qed

text \<open>
  A turn that is made halves an interval wider than half the tolerance, up to a quarter of its
  width: the tolerance is not below \<open>2 ^ -48\<close> of the largest number in sight.
\<close>

lemma middle_inside:
  assumes "double_ok rnd" and "9 / 100 \<le> low" and "high \<le> m" and "9 / 100 \<le> m" and "m \<le> 10 ^ 150"
    and "m / 2 ^ 48 \<le> tolerance" and "tolerance < rnd (high - low)" and "mid = rnd (rnd (low + high) / 2)"
  shows "tolerance / 2 < high - low" "low + (high - low) / 4 < mid" "mid < high - (high - low) / 4"
proof -
  let ?w = "high - low"
  define y where "y = max ?w (m / 2 ^ 50)"
  have y: "m / 2 ^ 50 \<le> y" "y \<le> m" "?w \<le> y" using assms(2,3,4) by (simp_all add: y_def)
  have "1 / 2 ^ 60 \<le> (9 / 100 :: real) / 2 ^ 50" by simp
  with y(1) assms(4) have "1 / 2 ^ 60 \<le> y" by simp
  moreover have "y \<le> 10 ^ 151" using y(2) assms(5) by simp
  ultimately have "\<bar>rnd y - y\<bar> \<le> y / 2 ^ 53" by (rule rounded_near [OF assms(1)])
  then have "rnd y \<le> y + y / 2 ^ 53" by linarith
  then have t: "tolerance < 2 * y"
    using assms(7) rounded_mono [OF assms(1) y(3)] y(1) assms(4) by simp
  have "?w = y"
  proof (rule ccontr)
    assume "?w \<noteq> y"
    then have "y = m / 2 ^ 50" by (auto simp: y_def max_def split: if_splits)
    with t assms(4,6) show False by simp
  qed
  with t show w: "tolerance / 2 < ?w" by simp
  then have w8: "m / 2 ^ 49 < ?w" using assms(6) by simp
  moreover have "0 < m / 2 ^ 49" using assms(4) by simp
  ultimately have "low < high" by linarith
  then have sum: "9 / 50 \<le> low + high" "low + high \<le> 2 * m" using assms(2-4) by simp_all
  define a where "a = rnd (low + high)"
  have "1 / 2 ^ 60 \<le> (9 / 50 :: real)" by simp
  then have a: "\<bar>a - (low + high)\<bar> \<le> (low + high) / 2 ^ 53"
    unfolding a_def using sum assms(5) by (intro rounded_near [OF assms(1)]) simp_all
  moreover have "(low + high) / 2 ^ 53 \<le> (low + high) / 2" using sum by (simp add: divide_left_mono)
  ultimately have "\<bar>a - (low + high)\<bar> \<le> (low + high) / 2" by linarith
  note near = this
  from near have "a - (low + high) \<le> (low + high) / 2" "(low + high) - a \<le> (low + high) / 2"
    by (simp_all only: abs_le_iff minus_diff_eq)
  then have a2: "9 / 100 \<le> a" and a3: "a \<le> 4 * m" using sum by argo+
  have "1 / 2 ^ 60 \<le> (9 / 200 :: real)" by simp
  then have "\<bar>mid - a / 2\<bar> \<le> a / 2 / 2 ^ 53"
    unfolding assms(8) a_def [symmetric] using a2 a3 assms(5) by (intro rounded_near [OF assms(1)]) simp_all
  moreover have "a / 2 / 2 ^ 53 \<le> 2 * m / 2 ^ 53" using a3 by (simp add: divide_right_mono)
  moreover have "(low + high) / 2 ^ 53 \<le> 2 * m / 2 ^ 53" using sum(2) by (simp add: divide_right_mono)
  ultimately have "\<bar>mid - a / 2\<bar> + \<bar>a - (low + high)\<bar> / 2 \<le> 3 * (m / 2 ^ 53)" using a by argo
  moreover have "\<bar>mid - (low + high) / 2\<bar> \<le> \<bar>mid - a / 2\<bar> + \<bar>a - (low + high)\<bar> / 2"
    by (simp add: abs_if) argo
  ultimately have "mid - (low + high) / 2 \<le> 3 * (m / 2 ^ 53)" "(low + high) / 2 - mid \<le> 3 * (m / 2 ^ 53)"
    by (simp_all only: abs_le_iff minus_diff_eq) argo+
  moreover have "3 * (m / 2 ^ 53) < ?w / 4" using w8 assms(4) by simp
  ultimately show "low + ?w / 4 < mid" "mid < high - ?w / 4" by argo+
qed

text \<open>
  It ends, and unless a check raises it returns the upper end of an interval whose width, as the
  code computes it, is not above the tolerance, and whose ends are the initial ones or have been
  checked.
\<close>

definition bisect_ok ::
  "(real \<Rightarrow> real) \<Rightarrow> (real \<Rightarrow> bool result) \<Rightarrow> real \<Rightarrow> real \<Rightarrow> real \<Rightarrow> real result \<Rightarrow> bool" where
  "bisect_ok rnd check tolerance low high r \<longleftrightarrow>
     (case r of
        Inl e \<Rightarrow> \<exists>s. low < s \<and> s < high \<and> check s = Inl e
      | Inr y \<Rightarrow>
          (y = high \<or> check y = Inr True) \<and> y \<le> high \<and>
          (\<exists>l. (l = low \<or> check l = Inr False) \<and> low \<le> l \<and> rnd (y - l) \<le> tolerance \<and> (low \<le> high \<longrightarrow> l \<le> y)))"

lemma bisect_stops:
  assumes "\<not> tolerance < rnd (high - low)"
  shows "bisect rnd check tolerance low high = Some (Inr high) \<and>
    bisect_ok rnd check tolerance low high (Inr high)"
  using assms by (auto simp: bisect.simps bisect_ok_def intro!: exI [of _ low])

lemma bisect_ok_lower:
  assumes "bisect_ok rnd check tolerance low mid r" and "check mid = Inr True" and "low < mid" and "mid < high"
  shows "bisect_ok rnd check tolerance low high r"
  using assms by (cases r) (force simp: bisect_ok_def)+

lemma bisect_ok_upper:
  assumes "bisect_ok rnd check tolerance mid high r" and "check mid = Inr False" and "low < mid" and "mid < high"
  shows "bisect_ok rnd check tolerance low high r"
proof (cases r)
  case (Inl e)
  with assms(1) obtain s where "mid < s" "s < high" "check s = Inl e" by (auto simp: bisect_ok_def)
  moreover have "low < s" using \<open>mid < s\<close> assms(3) by linarith
  ultimately show ?thesis using Inl by (auto simp: bisect_ok_def)
next
  case (Inr y)
  with assms(1,4) obtain l where "l = mid \<or> check l = Inr False" "mid \<le> l" "rnd (y - l) \<le> tolerance" "l \<le> y"
    "y = high \<or> check y = Inr True" "y \<le> high" by (auto simp: bisect_ok_def)
  then show ?thesis using Inr assms(2,3) by (auto simp: bisect_ok_def intro!: exI [of _ l])
qed

lemma bisect_terminates:
  assumes "double_ok rnd" and "9 / 100 \<le> m" and "m \<le> 10 ^ 150" and "m / 2 ^ 48 \<le> tolerance"
  shows "9 / 100 \<le> low \<Longrightarrow> high \<le> m \<Longrightarrow> high - low \<le> tolerance / 2 * (4 / 3) ^ n \<Longrightarrow>
    \<exists>r. bisect rnd check tolerance low high = Some r \<and> bisect_ok rnd check tolerance low high r"
proof (induction n arbitrary: low high)
  case 0
  then have "\<not> tolerance < rnd (high - low)" using middle_inside(1) [OF assms(1) 0(1,2) assms(2-4)] by force
  then show ?case using bisect_stops by blast
next
  case (Suc n)
  show ?case
  proof (cases "tolerance < rnd (high - low)")
    case False
    then show ?thesis using bisect_stops by blast
  next
    case True
    define mid where "mid = rnd (rnd (low + high) / 2)"
    note inside = middle_inside [OF assms(1) Suc.prems(1,2) assms(2-4) True mid_def]
    have pos: "0 < tolerance" using assms(2,4) by simp
    then have "0 < high - low" using inside(1) by simp
    then have mid: "low < mid" "mid < high" using inside(2,3) by argo+
    have "3 / 4 * (high - low) \<le> tolerance / 2 * (4 / 3) ^ n" using Suc.prems(3) by simp
    then have half: "mid - low \<le> tolerance / 2 * (4 / 3) ^ n" "high - mid \<le> tolerance / 2 * (4 / 3) ^ n"
      using inside(2,3) by argo+
    have unfold: "bisect rnd check tolerance low high =
       (case check mid of Inl e \<Rightarrow> Some (Inl e)
        | Inr ok \<Rightarrow> if ok then bisect rnd check tolerance low mid else bisect rnd check tolerance mid high)"
      using True unfolding mid_def by (subst bisect.simps) (simp add: Let_def)
    have "mid \<le> m" "9 / 100 \<le> mid" using mid Suc.prems(1,2) by linarith+
    then obtain r r' where
      "bisect rnd check tolerance low mid = Some r" "bisect_ok rnd check tolerance low mid r"
      "bisect rnd check tolerance mid high = Some r'" "bisect_ok rnd check tolerance mid high r'"
      using Suc.IH [OF Suc.prems(1) _ half(1)] Suc.IH [OF _ Suc.prems(2) half(2)] by blast
    with unfold mid show ?thesis
      by (cases "check mid")
        (auto simp: bisect_ok_def [of _ _ _ _ _ "Inl _"] intro: bisect_ok_lower bisect_ok_upper)
  qed
qed

lemma bisect_total:
  assumes "double_ok rnd" and "9 / 100 \<le> m" and "m \<le> 10 ^ 150" and "m / 2 ^ 48 \<le> tolerance"
    and "9 / 100 \<le> low" and "high \<le> m"
  shows "\<exists>r. bisect rnd check tolerance low high = Some r \<and> bisect_ok rnd check tolerance low high r"
proof -
  have pos: "0 < tolerance" using assms(2,4) by simp
  obtain n where "(high - low) / (tolerance / 2) < (4 / 3) ^ n" using real_arch_pow [of "4 / 3"] by auto
  then have "high - low \<le> tolerance / 2 * (4 / 3) ^ n" using pos by (simp add: field_simps)
  then show ?thesis by (rule bisect_terminates [OF assms])
qed

section \<open>Composition\<close>

text \<open>The cost of one step at one order; for a valid rate and positive noise it exists.\<close>

definition cost :: "(real \<Rightarrow> real) \<Rightarrow> real \<Rightarrow> real \<Rightarrow> real \<Rightarrow> real" where
  "cost gammaln sigma q alpha =
     (case rdp_of_order gammaln sigma q alpha of Inl e \<Rightarrow> 0 | Inr c \<Rightarrow> c)"

lemma cost_exists:
  assumes "0 < sigma" and "0 \<le> q" and "q \<le> 1"
  shows "rdp_of_order gammaln sigma q alpha = Inr (cost gammaln sigma q alpha)"
  using assms by (simp add: cost_def rdp_of_order_def subsampled_rdp_def Let_def)

lemma rdp_step_eq:
  assumes "0 < sigma" and "0 \<le> q" and "q \<le> 1"
  shows "rdp_step gammaln sigma q a =
    Inr (a\<lparr>rdp_step_count := rdp_step_count a + 1,
           rdp_epsilon := map2 (+) (rdp_epsilon a) (map (cost gammaln sigma q) (orders a)),
           rdp_history := rdp_history a @
             [\<lparr>ps_epsilon = 0, ps_delta = 0, ps_noise_multiplier = sigma, ps_sample_rate = q,
               ps_step = rdp_step_count a + 1\<rparr>]\<rparr>)"
proof -
  have "results (map (rdp_of_order gammaln sigma q) (orders a)) = Inr (map (cost gammaln sigma q) (orders a))"
    by (rule results_map) (rule cost_exists [OF assms])
  then show ?thesis by (simp add: rdp_step_def compute_rdp_def Let_def)
qed

definition valid_steps :: "(real \<times> real) list \<Rightarrow> bool" where
  "valid_steps ss \<longleftrightarrow> (\<forall>(sigma, q) \<in> set ss. 0 < sigma \<and> 0 \<le> q \<and> q \<le> 1)"

definition total_cost :: "(real \<Rightarrow> real) \<Rightarrow> (real \<times> real) list \<Rightarrow> real \<Rightarrow> real" where
  "total_cost gammaln ss alpha = (\<Sum>(sigma, q)\<leftarrow>ss. cost gammaln sigma q alpha)"

lemma map2_map_plus: "map2 (+) (map f xs) (map g xs) = map (\<lambda>x. f x + (g x :: real)) xs"
  by (induction xs) simp_all

lemma rdp_steps_total:
  assumes "valid_steps ss" and "rdp_epsilon a = map f (orders a)"
  shows "\<exists>b. rdp_steps gammaln ss a = Inr b \<and> orders b = orders a \<and>
    rdp_epsilon b = map (\<lambda>alpha. f alpha + total_cost gammaln ss alpha) (orders a) \<and>
    rdp_step_count b = rdp_step_count a + int (length ss) \<and>
    map (\<lambda>h. (ps_noise_multiplier h, ps_sample_rate h)) (rdp_history b) =
      map (\<lambda>h. (ps_noise_multiplier h, ps_sample_rate h)) (rdp_history a) @ ss"
  using assms
proof (induction ss arbitrary: a f)
  case Nil
  then show ?case by (simp add: total_cost_def)
next
  case (Cons s ss)
  obtain sigma q where s: "s = (sigma, q)" by (cases s)
  have v: "0 < sigma" "0 \<le> q" "q \<le> 1" "valid_steps ss" using Cons.prems(1) by (auto simp: valid_steps_def s)
  define a1 where "a1 = a\<lparr>rdp_step_count := rdp_step_count a + 1,
           rdp_epsilon := map2 (+) (rdp_epsilon a) (map (cost gammaln sigma q) (orders a)),
           rdp_history := rdp_history a @
             [\<lparr>ps_epsilon = 0, ps_delta = 0, ps_noise_multiplier = sigma, ps_sample_rate = q,
               ps_step = rdp_step_count a + 1\<rparr>]\<rparr>"
  have step: "rdp_step gammaln sigma q a = Inr a1"
    unfolding a1_def by (rule rdp_step_eq [OF v(1-3)])
  have "rdp_epsilon a1 = map (\<lambda>alpha. f alpha + cost gammaln sigma q alpha) (orders a1)"
    by (simp add: a1_def Cons.prems(2) map2_map_plus)
  from Cons.IH [OF v(4) this] step show ?case
    by (fastforce simp: s a1_def total_cost_def add.assoc)
qed

lemma replicate_eq_map: "replicate (length xs) c = map (\<lambda>_. c) xs"
  by (simp add: map_replicate_const)

lemma rdp_steps_new:
  assumes "valid_steps ss"
  shows "\<exists>b. rdp_steps gammaln ss (new_rdp (Some os)) = Inr b \<and> orders b = os \<and>
    rdp_epsilon b = map (total_cost gammaln ss) os \<and> rdp_step_count b = int (length ss) \<and>
    map (\<lambda>h. (ps_noise_multiplier h, ps_sample_rate h)) (rdp_history b) = ss"
proof -
  have "rdp_epsilon (new_rdp (Some os)) = map (\<lambda>_. 0) (orders (new_rdp (Some os)))"
    by (simp add: new_rdp_def replicate_eq_map)
  from rdp_steps_total [OF assms this, of gammaln] show ?thesis by (auto simp: new_rdp_def)
qed

section \<open>Epsilon of an accountant\<close>

definition epsilons :: "real \<Rightarrow> real list \<Rightarrow> (real \<Rightarrow> real) \<Rightarrow> real set" where
  "epsilons delta os f = (\<lambda>alpha. order_epsilon delta alpha (f alpha)) ` set os"

lemma zip_map_self: "zip xs (map f xs) = map (\<lambda>x. (x, f x)) xs"
  by (induction xs) simp_all

text \<open>When every order is above one and contributes a positive value.\<close>

lemma get_epsilon_Min:
  assumes "0 < delta" and "orders a \<noteq> []" and "rdp_epsilon a = map f (orders a)"
    and "\<forall>alpha \<in> set (orders a). 1 < alpha \<and> 0 < order_epsilon delta alpha (f alpha)"
  shows "get_epsilon delta a = Fin (Min (epsilons delta (orders a) f))"
proof -
  have "filter (\<lambda>(alpha, rdp). alpha > 1) (zip (orders a) (rdp_epsilon a)) = zip (orders a) (rdp_epsilon a)"
    using assms(4) by (auto simp: filter_id_conv dest: set_zip_leftD)
  moreover have "map (\<lambda>(alpha, rdp). order_epsilon delta alpha rdp) (zip (orders a) (rdp_epsilon a)) =
      map (\<lambda>alpha. order_epsilon delta alpha (f alpha)) (orders a)"
    by (simp add: assms(3) zip_map_self)
  moreover have "filter (\<lambda>e. e > 0) (map (\<lambda>alpha. order_epsilon delta alpha (f alpha)) (orders a)) =
      map (\<lambda>alpha. order_epsilon delta alpha (f alpha)) (orders a)"
    using assms(4) by (auto simp: filter_id_conv)
  ultimately show ?thesis using assms(1,2) by (simp add: get_epsilon_def epsilons_def)
qed

text \<open>If delta is small enough for an order, the conversion adds a non-negative amount.\<close>

lemma conversion_nonneg:
  assumes "0 < delta" and "1 < alpha" and "alpha * delta \<le> 1"
  shows "0 \<le> (ln delta + ln alpha) / (1 - alpha :: real)"
proof -
  have "ln delta + ln alpha = ln (alpha * delta)" using assms by (simp add: ln_mult_pos)
  also have "\<dots> \<le> 0" using assms by (simp add: ln_le_zero_iff)
  finally show ?thesis using assms(2) by (simp add: divide_nonpos_neg)
qed

lemma Min_image_mono:
  fixes f g :: "'a \<Rightarrow> real"
  assumes "finite A" and "A \<noteq> {}" and "\<And>x. x \<in> A \<Longrightarrow> f x \<le> g x"
  shows "Min (f ` A) \<le> Min (g ` A)"
proof -
  have "Min (g ` A) \<in> g ` A" using assms(1,2) by (intro Min_in) auto
  then obtain x where x: "x \<in> A" "Min (g ` A) = g x" by auto
  have "Min (f ` A) \<le> f x" using assms(1) x(1) by (intro Min_le) auto
  with assms(3) [OF x(1)] x(2) show ?thesis by simp
qed

section \<open>Orders below two\<close>

text \<open>What \<open>gammaln\<close> is documented to be: the logarithm of the gamma function.\<close>

definition gammaln_ok :: "(real \<Rightarrow> real) \<Rightarrow> bool" where
  "gammaln_ok gammaln \<longleftrightarrow> gammaln 1 = 0 \<and> (\<forall>x > 0. gammaln (x + 1) = gammaln x + ln x)"

lemma log_comb_one:
  assumes "gammaln_ok gammaln" and "1 \<le> alpha"
  shows "log_comb gammaln alpha 1 = Some (ln alpha)"
proof -
  have g1: "gammaln 1 = 0" and rec: "\<And>x. 0 < x \<Longrightarrow> gammaln (x + 1) = gammaln x + ln x"
    using assms(1) by (auto simp: gammaln_ok_def)
  have "gammaln 2 = 0" using rec [of 1] g1 by simp
  moreover have "gammaln (alpha + 1) = gammaln alpha + ln alpha" using rec [of alpha] assms(2) by simp
  ultimately show ?thesis using assms(2) by (simp add: log_comb_def)
qed

text \<open>Two terms, neither of which contains the noise.\<close>

lemma low_order_cost:
  assumes "gammaln_ok gammaln" and "0 < sigma" and "0 < q" and "q < 1" and "1 < alpha" and "alpha < 2"
  shows "cost gammaln sigma q alpha = ((alpha - 1) * ln (1 - q) + ln (1 + (alpha - 1) * q)) / (alpha - 1)"
proof -
  have "\<lfloor>alpha\<rfloor> = 1" using assms(5,6) by linarith
  then have n: "min (nat \<lfloor>alpha\<rfloor> + 1) 100 = 2" by simp
  define t0 where "t0 = alpha * ln (1 - q)"
  define t1 where "t1 = ln alpha + ln q + (alpha - 1) * ln (1 - q)"
  have lt: "log_term gammaln sigma q alpha 0 = Some t0" "log_term gammaln sigma q alpha 1 = Some t1"
    using log_comb_one [OF assms(1), of alpha] assms(5)
    by (simp_all add: log_term_def t0_def t1_def) (simp add: log_comb_def)
  have terms: "map (log_term gammaln sigma q alpha) [0..<2] = [Some t0, Some t1]"
    using lt by (simp add: upt_rec)
  define M where "M = max t0 t1"
  have "log_sum_exp [Some t0, Some t1] = M + ln (exp (t0 - M) + exp (t1 - M))"
    by (simp add: log_sum_exp_def Let_def M_def)
  also have "exp (t0 - M) + exp (t1 - M) = (exp t0 + exp t1) / exp M"
    by (simp add: exp_diff add_divide_distrib)
  also have "M + ln ((exp t0 + exp t1) / exp M) = ln (exp t0 + exp t1)"
    using add_pos_pos [OF exp_gt_zero exp_gt_zero, of t0 t1] by (simp add: ln_div)
  also have "exp t0 + exp t1 = exp ((alpha - 1) * ln (1 - q)) * (1 + (alpha - 1) * q)"
  proof -
    have "exp t0 = exp ((alpha - 1) * ln (1 - q)) * (1 - q)"
      using assms(4) by (simp add: t0_def left_diff_distrib exp_diff)
    moreover have "exp t1 = exp ((alpha - 1) * ln (1 - q)) * (alpha * q)"
      using assms(3,5) by (simp add: t1_def exp_add)
    ultimately show ?thesis by (simp add: algebra_simps)
  qed
  also have "ln \<dots> = (alpha - 1) * ln (1 - q) + ln (1 + (alpha - 1) * q)"
    using add_pos_pos [of 1 "(alpha - 1) * q"] assms(3,5) by (simp add: ln_mult)
  finally have "log_sum_exp [Some t0, Some t1] = (alpha - 1) * ln (1 - q) + ln (1 + (alpha - 1) * q)" .
  with assms(2-6) n lt show ?thesis
    by (simp add: cost_def rdp_of_order_def subsampled_rdp_def upt_rec)
qed

lemma low_order_cost_negative:
  fixes q alpha :: real
  assumes "0 < q" and "q < 1" and "1 < alpha"
  shows "((alpha - 1) * ln (1 - q) + ln (1 + (alpha - 1) * q)) / (alpha - 1) < 0"
proof -
  have "ln (1 - q) \<le> (1 - q) - 1" "ln (1 - q) \<noteq> (1 - q) - 1"
    using assms(1,2) ln_eq_minus_one [of "1 - q"] ln_le_minus_one [of "1 - q"] by auto
  then have "ln (1 - q) < - q" by simp
  then have "(alpha - 1) * ln (1 - q) < (alpha - 1) * (- q)"
    using assms(3) by (intro mult_strict_left_mono) simp_all
  moreover have "ln (1 + (alpha - 1) * q) \<le> (alpha - 1) * q"
    using assms by (intro ln_add_one_self_le_self) simp
  ultimately have "(alpha - 1) * ln (1 - q) + ln (1 + (alpha - 1) * q) < 0" by simp
  then show ?thesis using assms(3) by (simp add: divide_neg_pos)
qed

section \<open>Concrete parameters\<close>

text \<open>A function with the documented recursion, zero on the first unit interval.\<close>

definition demo_gammaln :: "real \<Rightarrow> real" where
  "demo_gammaln x = (\<Sum>k = 1..nat \<lceil>x\<rceil> - 1. ln (x - real k))"

lemma demo_gammaln_ok: "gammaln_ok demo_gammaln"
  unfolding gammaln_ok_def
proof (intro conjI allI impI)
  show "demo_gammaln 1 = 0" by (simp add: demo_gammaln_def)
  fix x :: real
  assume x: "0 < x"
  define n where "n = nat \<lceil>x\<rceil> - 1"
  have c: "nat \<lceil>x\<rceil> = Suc n" "nat \<lceil>x + 1\<rceil> - 1 = Suc n"
    using x by (simp_all add: n_def)
  have "demo_gammaln (x + 1) = (\<Sum>k = 1..Suc n. ln (x + 1 - real k))"
    unfolding demo_gammaln_def c(2) ..
  also have "\<dots> = (\<Sum>k = 0..n. ln (x + 1 - real (Suc k)))"
    unfolding One_nat_def sum.shift_bounds_cl_Suc_ivl ..
  also have "\<dots> = ln x + (\<Sum>k = 1..n. ln (x - real k))"
    by (simp add: sum.atLeast_Suc_atMost)
  also have "(\<Sum>k = 1..n. ln (x - real k)) = demo_gammaln x"
    unfolding demo_gammaln_def c(1) by simp
  finally show "demo_gammaln (x + 1) = demo_gammaln x + ln x" by simp
qed

section \<open>Convolved losses\<close>

lemma glw_lengths [simp]:
  "length (normalised xs) = length xs"
  "length (gaussian_pld sigma domain) = length domain"
  "length (convolve a b) = length a + length b - 1"
  by (simp_all add: normalised_def gaussian_pld_def convolve_def Let_def)

text \<open>Steps without subsampling: their cost and the epsilon they are reported as.\<close>

lemma full_cost:
  "0 < s \<Longrightarrow> total_cost gammaln (replicate k (s, 1)) alpha = real k * (alpha / (2 * s\<^sup>2))"
  by (simp add: total_cost_def cost_def rdp_of_order_def sum_list_replicate)

lemma full_order_pos:
  assumes "0 < k" and "0 < s" and "0 < delta" and "1 < alpha \<and> alpha * delta \<le> 1"
  shows "0 < order_epsilon delta alpha (total_cost gammaln (replicate k (s, 1)) alpha)"
proof -
  have "0 \<le> (ln delta + ln alpha) / (1 - alpha)" "0 < real k * (alpha / (2 * s\<^sup>2))"
    using conversion_nonneg [OF assms(3)] assms by auto
  then show ?thesis by (simp add: order_epsilon_def full_cost [OF assms(2)])
qed

lemma full_epsilon:
  assumes "0 < k" and "0 < s" and "0 < delta" and "os \<noteq> []"
    and "\<forall>alpha \<in> set os. 1 < alpha \<and> alpha * delta \<le> 1"
  shows "\<exists>a. rdp_steps gammaln (replicate k (s, 1)) (new_rdp (Some os)) = Inr a \<and>
    get_epsilon delta a = Fin (Min (epsilons delta os (total_cost gammaln (replicate k (s, 1)))))"
proof -
  have "valid_steps (replicate k (s, 1))" using assms(2) by (auto simp: valid_steps_def)
  then obtain a where a: "rdp_steps gammaln (replicate k (s, 1)) (new_rdp (Some os)) = Inr a"
    "orders a = os" "rdp_epsilon a = map (total_cost gammaln (replicate k (s, 1))) os"
    using rdp_steps_new by blast
  have "get_epsilon delta a = Fin (Min (epsilons delta (orders a) (total_cost gammaln (replicate k (s, 1)))))"
    using a assms full_order_pos [OF assms(1-3)] by (intro get_epsilon_Min) auto
  with a show ?thesis by auto
qed

section \<open>Properties\<close>

text \<open>
  C26. Composition: after any sequence of valid steps the accountant holds, for every order,
  the sum of the costs of the single steps, and its history and counter are those steps.
\<close>

theorem rdp_composition:
  assumes "valid_steps ss"
  shows "\<exists>b. rdp_steps gammaln ss (new_rdp (Some os)) = Inr b \<and>
    (\<forall>i < length os. rdp_epsilon b ! i =
       (\<Sum>(sigma, q)\<leftarrow>ss. case rdp_of_order gammaln sigma q (os ! i) of Inl e \<Rightarrow> 0 | Inr c \<Rightarrow> c)) \<and>
    (\<forall>(sigma, q) \<in> set ss. \<forall>alpha. \<exists>c. rdp_of_order gammaln sigma q alpha = Inr c) \<and>
    rdp_step_count b = int (length ss) \<and>
    map (\<lambda>h. (ps_noise_multiplier h, ps_sample_rate h)) (rdp_history b) = ss"
proof -
  have "\<forall>(sigma, q) \<in> set ss. \<forall>alpha. \<exists>c. rdp_of_order gammaln sigma q alpha = Inr c"
    using assms cost_exists [of _ _ gammaln] by (fastforce simp: valid_steps_def)
  then show ?thesis
    using rdp_steps_new [OF assms, of gammaln os] by (auto simp: total_cost_def cost_def)
qed

theorem rdp_composition_witness:
  "\<exists>b. rdp_steps demo_gammaln [(1, 1), (2, 1)] (new_rdp (Some [2])) = Inr b \<and> rdp_epsilon b ! 0 = 5 / 4"
  using rdp_composition [of "[(1, 1), (2, 1)]" demo_gammaln "[2]"]
  by (force simp: valid_steps_def rdp_of_order_def)

text \<open>
  C27. Without subsampling the reported epsilon is positive, does not decrease with further
  steps and does not increase with more noise, provided delta is below one over the largest
  order (below 1/63 for the default orders).
\<close>

theorem full_batch_monotone:
  assumes "0 < tau" and "tau \<le> sigma" and "0 < n" and "n \<le> m" and "0 < delta" and "os \<noteq> []"
    and "\<forall>alpha \<in> set os. 1 < alpha \<and> alpha * delta \<le> 1"
  shows "\<exists>a b x. rdp_steps gammaln (replicate n (sigma, 1)) (new_rdp (Some os)) = Inr a \<and>
    rdp_steps gammaln (replicate m (tau, 1)) (new_rdp (Some os)) = Inr b \<and>
    get_epsilon delta a = Fin x \<and> 0 < x \<and> get_epsilon delta a \<le> get_epsilon delta b"
proof -
  let ?f = "total_cost gammaln (replicate n (sigma, 1))" and ?g = "total_cost gammaln (replicate m (tau, 1))"
  have s: "0 < sigma" "0 < m" using assms by simp_all
  have le: "Min (epsilons delta os ?f) \<le> Min (epsilons delta os ?g)"
    unfolding epsilons_def
  proof (rule Min_image_mono)
    fix alpha
    assume "alpha \<in> set os"
    then have alpha: "1 < alpha" using assms(7) by auto
    have "tau\<^sup>2 \<le> sigma\<^sup>2" using assms(1,2) by (intro power_mono) simp_all
    then have "alpha / (2 * sigma\<^sup>2) \<le> alpha / (2 * tau\<^sup>2)"
      using assms(1) alpha s(1) by (intro divide_left_mono) simp_all
    then have "real n * (alpha / (2 * sigma\<^sup>2)) \<le> real m * (alpha / (2 * tau\<^sup>2))"
      using assms(4) alpha by (intro mult_mono) simp_all
    then show "order_epsilon delta alpha (?f alpha) \<le> order_epsilon delta alpha (?g alpha)"
      by (simp add: order_epsilon_def full_cost s(1) assms(1))
  qed (simp_all add: assms(6))
  have "Min (epsilons delta os ?f) \<in> epsilons delta os ?f"
    unfolding epsilons_def using assms(6) by (intro Min_in) auto
  then have "0 < Min (epsilons delta os ?f)"
    using full_order_pos [OF assms(3) s(1) assms(5)] assms(7) by (auto simp: epsilons_def)
  with le full_epsilon [OF assms(3) s(1) assms(5,6,7)] full_epsilon [OF s(2) assms(1,5,6,7)]
  show ?thesis by fastforce
qed

theorem full_batch_monotone_witness:
  "\<exists>a b x. rdp_steps demo_gammaln (replicate 1 (2, 1)) (new_rdp (Some [3 / 2, 8])) = Inr a \<and>
     rdp_steps demo_gammaln (replicate 3 (1, 1)) (new_rdp (Some [3 / 2, 8])) = Inr b \<and>
     get_epsilon (1 / 10) a = Fin x \<and> 0 < x \<and> get_epsilon (1 / 10) a \<le> get_epsilon (1 / 10) b"
  by (rule full_batch_monotone) simp_all

text \<open>
  With subsampling the orders between one and two are refunded: their cost per step is
  negative and does not depend on the noise at all, because the series is cut after
  \<open>int(alpha) + 1\<close> terms; an accountant with such an order reports a smaller epsilon after
  every further step, however small the noise.
\<close>

lemma low_orders_refund:
  assumes "gammaln_ok gammaln" and "0 < q" and "q < 1" and "1 < alpha" and "alpha < 2" and "0 < delta"
    and "0 < sigma" and "0 < sigma'"
  shows "\<exists>c < 0. rdp_of_order gammaln sigma q alpha = Inr c \<and> rdp_of_order gammaln sigma' q alpha = Inr c \<and>
    (\<forall>n. 0 < order_epsilon delta alpha (real (Suc n) * c) \<longrightarrow>
      (\<exists>a b. rdp_steps gammaln (replicate n (sigma, q)) (new_rdp (Some [alpha])) = Inr a \<and>
        rdp_steps gammaln (replicate (Suc n) (sigma, q)) (new_rdp (Some [alpha])) = Inr b \<and>
        get_epsilon delta b < get_epsilon delta a))"
proof -
  define c where "c = ((alpha - 1) * ln (1 - q) + ln (1 + (alpha - 1) * q)) / (alpha - 1)"
  have c: "c < 0" unfolding c_def using assms(2-4) by (rule low_order_cost_negative)
  have cost: "cost gammaln s q alpha = c" if "0 < s" for s
    unfolding c_def using assms(1) that assms(2-5) by (rule low_order_cost)
  have order: "rdp_of_order gammaln s q alpha = Inr c" if "0 < s" for s
    using cost_exists [of s q gammaln alpha] cost [OF that] that assms(2,3) by simp
  have acc: "\<exists>a. rdp_steps gammaln (replicate k (sigma, q)) (new_rdp (Some [alpha])) = Inr a \<and>
      get_epsilon delta a = Fin (order_epsilon delta alpha (real k * c))"
    if "0 < order_epsilon delta alpha (real k * c)" for k
  proof -
    have "valid_steps (replicate k (sigma, q))" using assms(2,3,7) by (auto simp: valid_steps_def)
    then obtain a where a: "rdp_steps gammaln (replicate k (sigma, q)) (new_rdp (Some [alpha])) = Inr a"
      "orders a = [alpha]" "rdp_epsilon a = map (total_cost gammaln (replicate k (sigma, q))) [alpha]"
      using rdp_steps_new by blast
    have t: "total_cost gammaln (replicate k (sigma, q)) alpha = real k * c"
      by (simp add: total_cost_def cost [OF assms(7)] sum_list_replicate)
    have "get_epsilon delta a = Fin (order_epsilon delta alpha (real k * c))"
      using a(2,3) assms(4,6) that by (simp add: get_epsilon_def t)
    with a(1) show ?thesis by blast
  qed
  have dec: "order_epsilon delta alpha (real (Suc n) * c) < order_epsilon delta alpha (real n * c)" for n
    using c by (simp add: order_epsilon_def algebra_simps)
  have "\<exists>a b. rdp_steps gammaln (replicate n (sigma, q)) (new_rdp (Some [alpha])) = Inr a \<and>
        rdp_steps gammaln (replicate (Suc n) (sigma, q)) (new_rdp (Some [alpha])) = Inr b \<and>
        get_epsilon delta b < get_epsilon delta a"
    if "0 < order_epsilon delta alpha (real (Suc n) * c)" for n
  proof -
    have "0 < order_epsilon delta alpha (real n * c)" using dec [of n] that by (rule less_trans [rotated])
    from acc [OF this] acc [OF that] dec [of n] show ?thesis by fastforce
  qed
  with c order assms(7,8) show ?thesis by blast
qed

lemma low_orders_refund_witness:
  "\<exists>a b. rdp_steps demo_gammaln [(1, 1 / 2)] (new_rdp (Some [3 / 2])) = Inr a \<and>
     rdp_steps demo_gammaln [] (new_rdp (Some [3 / 2])) = Inr b \<and>
     get_epsilon (1 / 100) a < get_epsilon (1 / 100) b"
proof -
  have "(1 / 2 :: real) < 1" "(1 :: real) < 3 / 2" "(3 / 2 :: real) < 2" by simp_all
  note r = low_orders_refund [OF demo_gammaln_ok, of "1 / 2" "3 / 2" "1 / 100" 1 1]
  then obtain c where c: "rdp_of_order demo_gammaln 1 (1 / 2) (3 / 2) = Inr c"
    "\<forall>n. 0 < order_epsilon (1 / 100) (3 / 2) (real (Suc n) * c) \<longrightarrow>
      (\<exists>a b. rdp_steps demo_gammaln (replicate n (1, 1 / 2)) (new_rdp (Some [3 / 2])) = Inr a \<and>
        rdp_steps demo_gammaln (replicate (Suc n) (1, 1 / 2)) (new_rdp (Some [3 / 2])) = Inr b \<and>
        get_epsilon (1 / 100) b < get_epsilon (1 / 100) a)" by auto
  have "c = cost demo_gammaln 1 (1 / 2) (3 / 2)" using c(1) by (simp add: cost_def)
  also have "\<dots> = ln (1 / 2) + 2 * ln (5 / 4)"
    by (subst low_order_cost [OF demo_gammaln_ok]) simp_all
  finally have c': "c = ln (1 / 2) + 2 * ln (5 / 4)" .
  have "ln (1 / 2) = - ln (2 :: real)" by (simp add: ln_div)
  moreover have "ln (2 :: real) \<le> 1" using ln_le_minus_one [of 2] by simp
  moreover have "0 \<le> ln (5 / 4 :: real)" by simp
  ultimately have "- 1 \<le> c" unfolding c' by linarith
  moreover have "ln (1 / 100) + ln (3 / 2) = - ln (200 / 3 :: real)"
    using ln_mult_pos [of 2 100] by (simp add: ln_div)
  moreover have "1 \<le> ln (200 / 3 :: real)"
    by (subst ln_ge_iff) (use exp_le in simp_all)
  ultimately have "0 < order_epsilon (1 / 100) (3 / 2) (real (Suc 0) * c)"
    by (simp add: order_epsilon_def)
  with c(2) [rule_format, of 0] show ?thesis by auto
qed

text \<open>
  C24. The search for the noise multiplier ends, its operations rounded to doubles, if the tolerance
  is at least \<open>2 ^ -48\<close> of \<open>max_sigma\<close> (by default it is 10^-5 of it), which is at most 10^150 (so
  that squares do not overflow) and not below the lower bound 0.1. For a sampling rate between 0
  and 1 it raises no error and returns a multiplier that has passed the check (or \<open>max_sigma\<close>, which is
  never checked); below it there is one that has failed (or the lower bound), at a distance which,
  as the code computes it, is at most the tolerance.
\<close>

theorem sigma_search:
  assumes "double_ok rnd" and "0 \<le> q" and "q \<le> 1" and "rnd (1 / 10) \<le> max_sigma" and "max_sigma \<le> 10 ^ 150"
    and "max_sigma / 2 ^ 48 \<le> tolerance"
  shows "\<exists>s l. compute_sigma_for_rdp rnd gammaln q te td steps (Some os) max_sigma tolerance = Some (Inr s) \<and>
    (s = max_sigma \<or> check_sigma gammaln q te td steps (Some os) s = Inr True) \<and>
    (l = rnd (1 / 10) \<or> check_sigma gammaln q te td steps (Some os) l = Inr False) \<and>
    rnd (1 / 10) \<le> l \<and> l \<le> s \<and> s \<le> max_sigma \<and> rnd (s - l) \<le> tolerance"
proof -
  let ?check = "check_sigma gammaln q te td steps (Some os)"
  note low = rounded_tenth [OF assms(1)]
  have "9 / 100 \<le> max_sigma" using low assms(4) by linarith
  then obtain r where r: "bisect rnd ?check tolerance (rnd (1 / 10)) max_sigma = Some r"
    "bisect_ok rnd ?check tolerance (rnd (1 / 10)) max_sigma r"
    using bisect_total [OF assms(1) _ assms(5,6) low order.refl] by blast
  have ok: "\<exists>b. ?check s = Inr b" if "rnd (1 / 10) < s" for s
  proof -
    have "0 < s" using that low by linarith
    then have "valid_steps (replicate steps (s, q))" using assms(2,3) by (auto simp: valid_steps_def)
    from rdp_steps_new [OF this, of gammaln os] show ?thesis by (auto simp: check_sigma_def)
  qed
  show ?thesis
  proof (cases r)
    case (Inl e)
    with r(2) ok show ?thesis by (fastforce simp: bisect_ok_def)
  next
    case (Inr s)
    with r assms(4) show ?thesis by (auto simp: bisect_ok_def compute_sigma_for_rdp_def)
  qed
qed

theorem sigma_search_witness:
  "\<exists>s. compute_sigma_for_rdp (\<lambda>x. x) demo_gammaln 1 (Fin 1) (1 / 100) 10 (Some [2]) 100 (1 / 100) = Some (Inr s) \<and>
     s \<le> 100"
  using sigma_search [of "\<lambda>x. x" 1 100 "1 / 100" demo_gammaln "Fin 1" "1 / 100" 10 "[2]"]
  by (auto simp: double_ok_def)

text \<open>
  With a smaller tolerance the search need not end: once the interval lies between two neighbouring
  doubles, its rounded middle is one of its ends, and if their distance is above the tolerance the
  loop goes on for ever.
\<close>

lemma search_stalls:
  assumes "tolerance < rnd (high - low)" and "rnd (rnd (low + high) / 2) \<in> {low, high}"
    and "check low = Inr False" and "check high = Inr True"
  shows "bisect rnd check tolerance low high = None"
proof (rule ccontr)
  assume "bisect rnd check tolerance low high \<noteq> None"
  then obtain r where r: "bisect rnd check tolerance low high = Some r" by auto
  have "(f, c, t, l, h) \<noteq> (rnd, check, tolerance, low, high)" if "bisect f c t l h = Some y" for f c t l h y
  proof (rule bisect.raw_induct [where P = "\<lambda>f c t l h y. (f, c, t, l, h) \<noteq> (rnd, check, tolerance, low, high)", OF _ that])
    fix b f c t l h y
    assume IH: "\<And>f c t l h y. b f c t l h = Some y \<Longrightarrow> (f, c, t, l, h) \<noteq> (rnd, check, tolerance, low, high)"
      and body: "(if t < f (h - l) then let mid = f (f (l + h) / 2) in
          case c mid of Inl e \<Rightarrow> Some (Inl e) | Inr ok \<Rightarrow> if ok then b f c t l mid else b f c t mid h
        else Some (Inr h)) = Some y"
    show "(f, c, t, l, h) \<noteq> (rnd, check, tolerance, low, high)"
    proof
      assume "(f, c, t, l, h) = (rnd, check, tolerance, low, high)"
      with body assms have "b rnd check tolerance low high = Some y" by (auto simp: Let_def)
      from IH [OF this] show False by simp
    qed
  qed
  from this [OF r] show False by simp
qed

lemma search_stalls_witness:
  "bisect (\<lambda>x. real_of_int \<lfloor>x\<rfloor>) (\<lambda>s. Inr (2 \<le> s)) (1 / 2) 1 2 = None"
  by (rule search_stalls) simp_all

text \<open>
  \<open>get_optimal_order\<close> adds \<open>log(delta)\<close> where the conversion subtracts it: after a
  full-batch step with orders 2 and 3 it names 2 for every delta up to 1/3, although for
  every sufficiently small delta the epsilon that \<open>get_epsilon\<close> reports is that of order 3.
\<close>

lemma optimal_order_differs:
  assumes "rdp_step gammaln sigma 1 (new_rdp (Some [2, 3])) = Inr a" and "0 < sigma"
    and "0 < delta" and "3 * delta \<le> 1" and "1 / sigma\<^sup>2 + 2 * ln 2 - ln 3 < - ln delta"
  shows "get_optimal_order delta a = Inr 2 \<and>
    get_epsilon delta a = Fin (order_epsilon delta 3 (3 / 2 / sigma\<^sup>2)) \<and>
    order_epsilon delta 3 (3 / 2 / sigma\<^sup>2) < order_epsilon delta 2 (1 / sigma\<^sup>2)"
proof -
  define x where "x = 1 / sigma\<^sup>2"
  have x: "0 < x" using assms(2) by (simp add: x_def)
  have a: "orders a = [2, 3]" "rdp_epsilon a = [x, 3 / 2 * x]"
    using assms(1,2) by (auto simp: rdp_step_eq new_rdp_def cost_def rdp_of_order_def x_def)
  have L: "x + 2 * ln 2 - ln 3 < - ln delta" using assms(5) by (simp add: x_def)
  have "ln (3 * delta) \<le> 0" using assms(3,4) by (simp add: ln_le_zero_iff)
  then have L3: "ln 3 + ln delta \<le> 0" using assms(3) by (simp add: ln_mult)
  have oe: "order_epsilon delta 2 x = x - ln delta - ln 2"
    "order_epsilon delta 3 (3 / 2 * x) = 3 / 2 * x - (ln delta + ln 3) / 2"
    by (simp_all add: order_epsilon_def)
  have lt: "order_epsilon delta 3 (3 / 2 * x) < order_epsilon delta 2 x"
    and pos: "0 < order_epsilon delta 3 (3 / 2 * x)"
    using L L3 x unfolding oe by (simp_all add: field_simps)
  have "get_epsilon delta a = Fin (order_epsilon delta 3 (3 / 2 * x))"
    using lt pos assms(3) by (simp add: get_epsilon_def a)
  moreover have "get_optimal_order delta a = Inr 2"
  proof -
    have "ln delta < 0" using assms(3,4) by (simp add: ln_less_zero)
    with x have "\<not> 3 / 2 * x + ln delta / 2 < x + ln delta" by (simp add: field_simps)
    then show ?thesis using assms(3) by (simp add: get_optimal_order_def a Let_def)
  qed
  ultimately show ?thesis using lt by (simp add: x_def)
qed

lemma optimal_order_differs_witness:
  "\<exists>a. rdp_step demo_gammaln 1 1 (new_rdp (Some [2, 3])) = Inr a \<and>
     get_optimal_order (exp (- 2)) a = Inr 2 \<and>
     get_epsilon (exp (- 2)) a = Fin (order_epsilon (exp (- 2)) 3 (3 / 2))"
proof -
  obtain a where a: "rdp_step demo_gammaln 1 1 (new_rdp (Some [2, 3])) = Inr a"
    by (simp add: rdp_step_eq)
  have "ln (4 :: real) = 2 * ln 2" using ln_mult_pos [of 2 "2 :: real"] by simp
  moreover have "ln (4 / 3 :: real) = ln 4 - ln 3" by (simp add: ln_div)
  moreover have "ln (4 / 3 :: real) \<le> 1 / 3" using ln_le_minus_one [of "4 / 3"] by simp
  ultimately have "1 + 2 * ln 2 - ln 3 < (2 :: real)" by linarith
  moreover have "3 * exp (- 2) \<le> (1 :: real)"
    using exp_ge_add_one_self [of 2] by (simp add: exp_minus field_simps)
  ultimately show ?thesis
    using optimal_order_differs [OF a, of "exp (- 2)"] a by auto
qed

text \<open>
  The accountant of privacy losses ignores the sampling rate, and from the second step on
  it convolves the distribution without extending the domain it is read against, so that the
  two have different lengths.
\<close>

lemma glw_ignores_rate:
  assumes "glw_step sigma q a = Inr b"
  shows "\<exists>b'. glw_step sigma q' a = Inr b' \<and> pld b' = pld b \<and> pld_domain b' = pld_domain b \<and>
    glw_get_epsilon delta b' = glw_get_epsilon delta b \<and>
    (\<exists>d p. pld_domain b = Some d \<and> pld b = Some p \<and>
      length p = (case pld a of None \<Rightarrow> length d | Some old \<Rightarrow> length old + length d - 1))"
proof -
  have same: "b' = b\<lparr>glw_history := glw_history b'\<rparr>" if "glw_step sigma q' a = Inr b'" for b'
    using assms that by (auto simp: glw_step_def Let_def split: if_splits)
  obtain b' where b': "glw_step sigma q' a = Inr b'"
    using assms by (auto simp: glw_step_def Let_def split: if_splits)
  then have f: "pld b' = pld b" "pld_domain b' = pld_domain b"
    using same [OF b'] by (metis glw_accountant.select_convs(3,4) glw_accountant.surjective
        glw_accountant.update_convs(5))+
  have "\<exists>d p. pld_domain b = Some d \<and> pld b = Some p \<and>
      length p = (case pld a of None \<Rightarrow> length d | Some old \<Rightarrow> length old + length d - 1)"
    using assms by (auto simp: glw_step_def Let_def split: if_splits option.split)
  moreover have "glw_get_epsilon delta b' = glw_get_epsilon delta b"
    unfolding glw_get_epsilon_def f ..
  ultimately show ?thesis using b' f by blast
qed

lemma glw_ignores_rate_witness:
  "\<exists>b c d p. glw_step 1 1 (new_glw 1 2) = Inr b \<and> glw_step 1 (1 / 2) b = Inr c \<and>
     pld_domain c = Some d \<and> pld c = Some p \<and> length p = length d + 3"
proof -
  obtain b where b: "glw_step 1 1 (new_glw 1 2) = Inr b" "discretization b = 1" "truncation b = 2"
    by (simp add: glw_step_def new_glw_def Let_def)
  from glw_ignores_rate [OF b(1), of 1 0] obtain d p where p: "pld_domain b = Some d" "pld b = Some p"
    "length p = length d" by (auto simp: new_glw_def)
  have "length d = 4"
    using b(1) p(1) by (auto simp: glw_step_def new_glw_def Let_def linspace_def)
  with p(3) have p4: "length p = 4" "p \<noteq> []" by auto
  have "length (gaussian_pld 1 (linspace (- 2) 2 4)) = 4" by (simp add: linspace_def)
  then have "gaussian_pld 1 (linspace (- 2) 2 4) \<noteq> []" by (metis list.size(3) zero_neq_numeral)
  then obtain c where c: "glw_step 1 1 b = Inr c"
    using p(2) p4(2) by (simp add: glw_step_def b(2,3) Let_def)
  from glw_ignores_rate [OF c, of "1 / 2" 0] p(2) p4(1) b(1) obtain c' d' p' where
    "glw_step 1 (1 / 2) b = Inr c'" "pld_domain c' = Some d'" "pld c' = Some p'"
    "length p' = 4 + length d' - 1" by auto
  with b(1) show ?thesis by fastforce
qed

end
