(* ===== verification/Mechanism.thy ===== *)
theory Mechanism
  imports Prelude
begin

text \<open>
  \<open>privacy/mechanism.py\<close>: differential privacy parameters, the mechanisms with their lazily
  computed noise multiplier, clipping, the pipeline of clipping and noise. Samples of
  \<open>np.random\<close> are an argument \<open>noise\<close> that gets the scale and the number of samples;
  the conversion to the array's element type is an argument \<open>cast\<close>. The bisection
  \<open>compute_sigma_for_rdp\<close> is in \<open>Accountant\<close>.
\<close>

section \<open>Parameters and mechanisms\<close>

record dp_params =
  dp_epsilon :: real
  dp_delta :: real
  dp_clip_norm :: real
  dp_noise_multiplier :: "real option"

datatype dp_kind = Gaussian | Laplace | Discretized int

record mechanism =
  mech_kind :: dp_kind
  params :: dp_params
  cached_multiplier :: "real option"

definition new_mechanism :: "dp_kind \<Rightarrow> dp_params \<Rightarrow> mechanism" where
  "new_mechanism k p = \<lparr>mech_kind = k, params = p, cached_multiplier = None\<rparr>"

text \<open>
  \<open>_compute_noise_multiplier\<close>: dividing by a zero \<open>epsilon\<close> or \<open>delta\<close> raises
  \<open>ZeroDivisionError\<close>, the logarithm or root of a negative number \<open>ValueError\<close>.
\<close>

definition gaussian_multiplier :: "dp_params \<Rightarrow> real result" where
  "gaussian_multiplier p =
     (if dp_delta p = 0 then Inl ZeroDivisionError
      else if 5 / 4 / dp_delta p \<le> 0 then Inl ValueError
      else
        let x = 2 * ln (5 / 4 / dp_delta p) in
        if x < 0 then Inl ValueError
        else if dp_epsilon p = 0 then Inl ZeroDivisionError
        else Inr (sqrt x / dp_epsilon p))"

definition laplace_multiplier :: "dp_params \<Rightarrow> real result" where
  "laplace_multiplier p =
     (if dp_epsilon p = 0 then Inl ZeroDivisionError else Inr (1 / dp_epsilon p))"

definition compute_noise_multiplier :: "mechanism \<Rightarrow> real result" where
  "compute_noise_multiplier m =
     (case mech_kind m of
        Laplace \<Rightarrow> laplace_multiplier (params m)
      | _ \<Rightarrow> gaussian_multiplier (params m))"

text \<open>The property \<open>noise_multiplier\<close> with its cache.\<close>

definition noise_multiplier :: "mechanism \<Rightarrow> (mechanism \<times> real) result" where
  "noise_multiplier m =
     (case dp_noise_multiplier (params m) of
        Some v \<Rightarrow> Inr (m, v)
      | None \<Rightarrow>
          (case cached_multiplier m of
             Some v \<Rightarrow> Inr (m, v)
           | None \<Rightarrow>
               ebind (compute_noise_multiplier m) (\<lambda>v.
               Inr (m\<lparr>cached_multiplier := Some v\<rparr>, v))))"

section \<open>Clipping\<close>

definition l2_norm :: "real list \<Rightarrow> real" where
  "l2_norm g = sqrt (\<Sum>x\<leftarrow>g. x\<^sup>2)"

definition clip_gradients :: "dp_params \<Rightarrow> real list \<Rightarrow> real list \<times> real" where
  "clip_gradients p g =
     (let grad_norm = l2_norm g in
      if grad_norm > dp_clip_norm p
      then (map (\<lambda>x. x * (dp_clip_norm p / grad_norm)) g, grad_norm)
      else (g, grad_norm))"

section \<open>Noise\<close>

text \<open>
  With no quantisation levels numpy would divide by zero and return NaNs; this is an error here.
\<close>

definition discretize :: "int \<Rightarrow> real \<Rightarrow> real" where
  "discretize levels x =
     np_clip (of_int (- levels div 2)) (of_int (levels div 2 - 1)) (of_int (np_round (x * (of_int levels / 2))))
       / (of_int levels / 2)"

definition add_noise ::
  "(real \<Rightarrow> nat \<Rightarrow> real list) \<Rightarrow> (real \<Rightarrow> real) \<Rightarrow> real list \<Rightarrow> mechanism \<Rightarrow> (mechanism \<times> real list) result"
where
  "add_noise noise cast g m =
     ebind (noise_multiplier m) (\<lambda>(m1, mult).
     let scale = mult * dp_clip_norm (params m1) in
     if scale < 0 then Inl ValueError
     else
       let ns = noise scale (length g) in
       case mech_kind m1 of
         Discretized levels \<Rightarrow>
           (if levels = 0 then Inl ZeroDivisionError
            else Inr (m1, map (\<lambda>x. cast (discretize levels x)) (map2 (+) g ns)))
       | _ \<Rightarrow> Inr (m1, map2 (\<lambda>x n. x + cast n) g ns))"

record dp_metadata =
  original_norm :: real
  clipped :: bool
  clip_norm_used :: real
  noise_scale :: real

definition privatize ::
  "(real \<Rightarrow> nat \<Rightarrow> real list) \<Rightarrow> (real \<Rightarrow> real) \<Rightarrow> real list \<Rightarrow> mechanism \<Rightarrow>
     (mechanism \<times> real list \<times> dp_metadata) result"
where
  "privatize noise cast g m =
     (let (c, norm) = clip_gradients (params m) g in
      ebind (add_noise noise cast c m) (\<lambda>(m1, noisy).
      ebind (noise_multiplier m1) (\<lambda>(m2, mult).
      Inr (m2, noisy,
           \<lparr>original_norm = norm, clipped = norm > dp_clip_norm (params m),
            clip_norm_used = dp_clip_norm (params m), noise_scale = mult * dp_clip_norm (params m)\<rparr>))))"

section \<open>Facts about norms and clipping\<close>

lemma sum_list_nonneg_sq: "0 \<le> (\<Sum>x\<leftarrow>g. (x::real)\<^sup>2)"
  by (induction g) simp_all

lemma l2_norm_nonneg: "0 \<le> l2_norm g"
  by (simp add: l2_norm_def sum_list_nonneg_sq)

lemma l2_norm_scale: "0 \<le> c \<Longrightarrow> l2_norm (map (\<lambda>x. x * c) g) = l2_norm g * c"
proof -
  assume c: "0 \<le> c"
  have "(\<Sum>x\<leftarrow>map (\<lambda>x. x * c) g. x\<^sup>2) = (\<Sum>x\<leftarrow>g. x\<^sup>2) * c\<^sup>2"
    by (induction g) (simp_all add: power_mult_distrib algebra_simps)
  with c show ?thesis by (simp add: l2_norm_def real_sqrt_mult)
qed

lemma clip_norm_exact:
  assumes "0 \<le> dp_clip_norm p"
  shows "l2_norm (fst (clip_gradients p g)) = min (l2_norm g) (dp_clip_norm p)"
proof (cases "l2_norm g > dp_clip_norm p")
  case True
  with assms have pos: "0 < l2_norm g" by simp
  have "fst (clip_gradients p g) = map (\<lambda>x. x * (dp_clip_norm p / l2_norm g)) g"
    using True by (simp add: clip_gradients_def Let_def)
  then have "l2_norm (fst (clip_gradients p g)) = l2_norm g * (dp_clip_norm p / l2_norm g)"
    using assms pos by (simp only: l2_norm_scale divide_nonneg_pos)
  with True pos show ?thesis by simp
qed (simp add: clip_gradients_def)

end
