(* ===== verification/Adaptive.thy ===== *)
theory Adaptive
  imports Prelude
begin

text \<open>
  \<open>privacy/adaptive.py\<close>: the noise scheduler with its precomputed schedules and the adaptive
  strategy, and the allocation of a privacy budget to phases. Floats are reals; the
  elementary functions of \<open>math\<close> and numpy are those of the reals.
\<close>

section \<open>Configuration and state\<close>

record noise_config =
  total_epsilon :: real
  nc_delta :: real
  total_steps :: int
  warmup_steps :: int
  min_noise_mult :: real
  max_noise_mult :: real
  gradient_window :: int
  convergence_threshold :: real
  allocation_strategy :: pystr

definition default_noise_config :: noise_config where
  "default_noise_config =
     \<lparr>total_epsilon = 1, nc_delta = 1 / 100000, total_steps = 10000, warmup_steps = 100,
      min_noise_mult = 1 / 10, max_noise_mult = 2, gradient_window = 100,
      convergence_threshold = 1 / 10, allocation_strategy = lit ''linear''\<rparr>"

text \<open>An adaptive scheduler has no schedule.\<close>

record scheduler =
  sc_config :: noise_config
  gradient_norms :: "real list"
  noise_history :: "real list"
  epsilon_spent :: real
  steps_completed :: int
  schedule :: "real list option"

definition precompute_schedule :: "noise_config \<Rightarrow> real list result" where
  "precompute_schedule c =
     (let hi = max_noise_mult c; lo = min_noise_mult c; n = nat (total_steps c) in
      if allocation_strategy c = lit ''linear'' then
        (if total_steps c < 0 then Inl ValueError else Inr (linspace hi lo n))
      else if allocation_strategy c = lit ''exponential'' then
        (if lo = 0 then Inl ZeroDivisionError
         else if hi / lo \<le> 0 then Inl ValueError
         else if total_steps c = 0 then Inl ZeroDivisionError
         else
           let decay_rate = ln (hi / lo) / real_of_int (total_steps c)
           in Inr (map (\<lambda>i. np_clip lo hi (hi * exp (- decay_rate * real i))) [0..<n]))
      else if allocation_strategy c = lit ''cosine'' then
        Inr (map (\<lambda>i. lo + 1 / 2 * (hi - lo) * (1 + cos (pi * real i / real_of_int (total_steps c)))) [0..<n])
      else if total_steps c < 0 then Inl ValueError
      else Inr (replicate n hi))"

definition new_scheduler :: "noise_config \<Rightarrow> scheduler result" where
  "new_scheduler c =
     (let s = \<lparr>sc_config = c, gradient_norms = [], noise_history = [], epsilon_spent = 0,
               steps_completed = 0, schedule = None\<rparr> in
      if allocation_strategy c = lit ''adaptive'' then Inr s
      else ebind (precompute_schedule c) (\<lambda>sch. Inr (s\<lparr>schedule := Some sch\<rparr>)))"

section \<open>Noise multipliers\<close>

definition list_mean :: "real list \<Rightarrow> real" where
  "list_mean xs = sum_list xs / real (length xs)"

definition list_std :: "real list \<Rightarrow> real" where
  "list_std xs = sqrt (list_mean (map (\<lambda>x. (x - list_mean xs)\<^sup>2) xs))"

definition remaining_budget_ratio :: "int \<Rightarrow> noise_config \<Rightarrow> real result" where
  "remaining_budget_ratio step c =
     (if total_steps c = 0 then Inl ZeroDivisionError
      else Inr (max 0 (1 - real_of_int step / real_of_int (total_steps c))))"

text \<open>
  Both this function and its caller append the gradient norm. The mean of an empty window is
  NaN in numpy; it is a \<open>ValueError\<close> here.
\<close>

definition adaptive_noise :: "int \<Rightarrow> real option \<Rightarrow> scheduler \<Rightarrow> (scheduler \<times> real) result" where
  "adaptive_noise step gradient_norm s0 =
     (let c = sc_config s0;
          s = (case gradient_norm of None \<Rightarrow> s0
               | Some g \<Rightarrow> s0\<lparr>gradient_norms := gradient_norms s0 @ [g]\<rparr>)
      in if int (length (gradient_norms s)) < gradient_window c then Inr (s, max_noise_mult c)
         else
           let recent = py_from (gradient_norms s) (- gradient_window c) in
           if recent = [] then Inl ValueError
           else
             let cv = list_std recent / (list_mean recent + 1 / 100000000);
                 noise1 = (if cv < convergence_threshold c
                           then min_noise_mult c
                                + cv / convergence_threshold c * (max_noise_mult c - min_noise_mult c)
                           else max_noise_mult c)
             in ebind (remaining_budget_ratio step c) (\<lambda>budget_ratio.
                let noise2 = (if budget_ratio < 1 / 2
                              then max noise1 (max_noise_mult c * (1 - budget_ratio)) else noise1)
                in Inr (s, np_clip (min_noise_mult c) (max_noise_mult c) noise2)))"

definition get_noise_multiplier :: "int \<Rightarrow> real option \<Rightarrow> scheduler \<Rightarrow> (scheduler \<times> real) result" where
  "get_noise_multiplier step gradient_norm s0 =
     (let c = sc_config s0; s = s0\<lparr>steps_completed := step\<rparr> in
      if step < warmup_steps c then Inr (s, max_noise_mult c)
      else
        ebind (case schedule s of
                 Some sch \<Rightarrow> ebind (py_index sch (min step (int (length sch) - 1))) (\<lambda>m. Inr (s, m))
               | None \<Rightarrow> adaptive_noise step gradient_norm s) (\<lambda>(s1, m).
        let s2 = s1\<lparr>noise_history := noise_history s1 @ [m]\<rparr>
        in Inr (case gradient_norm of None \<Rightarrow> s2
                | Some g \<Rightarrow> s2\<lparr>gradient_norms := gradient_norms s2 @ [g]\<rparr>, m)))"

definition update_epsilon_spent :: "real \<Rightarrow> scheduler \<Rightarrow> scheduler" where
  "update_epsilon_spent e s = s\<lparr>epsilon_spent := e\<rparr>"

definition recommended_total_noise :: "real \<Rightarrow> real \<Rightarrow> int \<Rightarrow> real result" where
  "recommended_total_noise target_epsilon target_delta steps =
     (if target_delta = 0 then Inl ZeroDivisionError
      else if 5 / 4 / target_delta \<le> 0 then Inl ValueError
      else
        let x = 2 * real_of_int steps * ln (5 / 4 / target_delta) in
        if x < 0 then Inl ValueError
        else if target_epsilon = 0 then Inl ZeroDivisionError
        else Inr (sqrt x / target_epsilon))"

definition scheduler_statistics :: "scheduler \<Rightarrow> (pystr \<times> real) list" where
  "scheduler_statistics s =
     (let h = noise_history s; g = gradient_norms s in
      [(lit ''steps_completed'', real_of_int (steps_completed s)),
       (lit ''epsilon_spent'', epsilon_spent s),
       (lit ''mean_noise'', if h \<noteq> [] then list_mean h else 0),
       (lit ''min_noise_used'', if h \<noteq> [] then Min (set h) else 0),
       (lit ''max_noise_used'', if h \<noteq> [] then Max (set h) else 0),
       (lit ''mean_gradient_norm'', if g \<noteq> [] then list_mean g else 0)])"

section \<open>Budget allocation\<close>

record allocator =
  al_epsilon :: real
  al_delta :: real
  num_phases :: int
  phase_epsilon :: real
  phase_delta :: real

definition new_allocator :: "real \<Rightarrow> real \<Rightarrow> int \<Rightarrow> allocator result" where
  "new_allocator e d n =
     (if n = 0 then Inl ZeroDivisionError
      else Inr \<lparr>al_epsilon = e, al_delta = d, num_phases = n,
                phase_epsilon = e / real_of_int n, phase_delta = d / real_of_int n\<rparr>)"

definition allocate_uniform :: "allocator \<Rightarrow> (real \<times> real) list" where
  "allocate_uniform a = replicate (nat (num_phases a)) (phase_epsilon a, phase_delta a)"

text \<open>Weights whose sum is zero give NaNs in numpy; see the hypotheses of the theorems.\<close>

definition allocate_weighted :: "real list \<Rightarrow> allocator \<Rightarrow> (real \<times> real) list" where
  "allocate_weighted weights a =
     map (\<lambda>w. (al_epsilon a * (w / sum_list weights), al_delta a / real_of_int (num_phases a))) weights"

definition allocate_exponential_decay :: "real \<Rightarrow> allocator \<Rightarrow> (real \<times> real) list" where
  "allocate_exponential_decay decay_rate a =
     allocate_weighted (map (\<lambda>i. decay_rate ^ i) [0..<nat (num_phases a)]) a"

definition allocate_importance_weighted :: "real list \<Rightarrow> allocator \<Rightarrow> (real \<times> real) list" where
  "allocate_importance_weighted importance a = allocate_weighted importance a"

end
