(* ===== verification/Privacy_Props.thy ===== *)
theory Privacy_Props
  imports Mechanism Adaptive
begin

text \<open>
  Facts about the mechanisms and the noise scheduler: clipping and calibration, the range of
  the noise multipliers over any history of calls, the double recording of gradient norms, and
  budgets that add up.
\<close>

section \<open>Schedules\<close>

definition config_ok :: "noise_config \<Rightarrow> bool" where
  "config_ok c \<longleftrightarrow>
     0 < min_noise_mult c \<and> min_noise_mult c \<le> max_noise_mult c \<and> 0 < total_steps c \<and>
     0 < gradient_window c"

lemma schedule_range:
  assumes "config_ok c"
  shows "\<exists>sch. precompute_schedule c = Inr sch \<and> length sch = nat (total_steps c) \<and>
    (\<forall>m \<in> set sch. min_noise_mult c \<le> m \<and> m \<le> max_noise_mult c)"
proof -
  let ?lo = "min_noise_mult c" and ?hi = "max_noise_mult c"
  have c: "0 < ?lo" "?lo \<le> ?hi" "0 < total_steps c" using assms by (simp_all add: config_ok_def)
  have cosine: "?lo \<le> ?lo + 1 / 2 * (?hi - ?lo) * (1 + cos x) \<and>
      ?lo + 1 / 2 * (?hi - ?lo) * (1 + cos x) \<le> ?hi" for x
  proof -
    have "0 \<le> 1 + cos x" "1 + cos x \<le> 2" using cos_ge_minus_one [of x] cos_le_one [of x] by linarith+
    then have "0 \<le> 1 / 2 * (?hi - ?lo) * (1 + cos x)"
      "1 / 2 * (?hi - ?lo) * (1 + cos x) \<le> 1 / 2 * (?hi - ?lo) * 2"
      using c(2) by (intro mult_nonneg_nonneg mult_left_mono; simp)+
    then show ?thesis by simp
  qed
  have nle: "\<not> ?hi / ?lo \<le> 0" using divide_pos_pos [of ?hi ?lo] c by linarith
  show ?thesis
    using c linspace_between [OF c(2)] np_clip_range [OF c(2)] cosine
    by (auto simp: precompute_schedule_def Let_def nle)
qed

lemma py_index_member:
  assumes "0 \<le> i" and "xs \<noteq> []"
  shows "\<exists>x \<in> set xs. py_index xs (min i (int (length xs) - 1)) = Inr x"
proof -
  have "min i (int (length xs) - 1) < int (length xs)" "0 \<le> min i (int (length xs) - 1)"
    using assms by (auto simp: min_def Suc_leI)
  then show ?thesis using assms(2) by (auto simp: py_index_def nat_less_iff intro!: nth_mem)
qed

section \<open>Runs of the scheduler\<close>

text \<open>Calls of \<open>get_noise_multiplier\<close>, each a step and perhaps a gradient norm.\<close>

fun noise_calls :: "(int \<times> real option) list \<Rightarrow> scheduler \<Rightarrow> (scheduler \<times> real list) result" where
  "noise_calls [] s = Inr (s, [])"
| "noise_calls ((step, g) # cs) s =
     ebind (get_noise_multiplier step g s) (\<lambda>(s1, m).
     ebind (noise_calls cs s1) (\<lambda>(s2, ms). Inr (s2, m # ms)))"

definition scheduler_ok :: "scheduler \<Rightarrow> bool" where
  "scheduler_ok s \<longleftrightarrow>
     config_ok (sc_config s) \<and>
     (case schedule s of None \<Rightarrow> True
      | Some sch \<Rightarrow> sch \<noteq> [] \<and>
          (\<forall>m \<in> set sch. min_noise_mult (sc_config s) \<le> m \<and> m \<le> max_noise_mult (sc_config s)))"

lemma adaptive_range:
  assumes "config_ok (sc_config s)"
  shows "\<exists>s' m. adaptive_noise step g s = Inr (s', m) \<and> sc_config s' = sc_config s \<and>
    schedule s' = schedule s \<and> min_noise_mult (sc_config s) \<le> m \<and> m \<le> max_noise_mult (sc_config s)"
proof -
  define t where "t = (case g of None \<Rightarrow> s | Some x \<Rightarrow> s\<lparr>gradient_norms := gradient_norms s @ [x]\<rparr>)"
  have t: "sc_config t = sc_config s" "schedule t = schedule s" by (simp_all add: t_def split: option.split)
  have c: "min_noise_mult (sc_config s) \<le> max_noise_mult (sc_config s)" "total_steps (sc_config s) \<noteq> 0"
    "0 < gradient_window (sc_config s)"
    using assms by (auto simp: config_ok_def)
  have "py_from (gradient_norms t) (- gradient_window (sc_config s)) \<noteq> []"
    if "\<not> int (length (gradient_norms t)) < gradient_window (sc_config s)"
    using that c(3) by (simp add: py_from_def slice_pos_def)
  then show ?thesis
    using c np_clip_range [OF c(1)] t
    by (simp add: adaptive_noise_def t_def [symmetric] Let_def remaining_budget_ratio_def)
qed

lemma get_noise_range:
  assumes "scheduler_ok s" and "0 \<le> step"
  shows "\<exists>s' m. get_noise_multiplier step g s = Inr (s', m) \<and> scheduler_ok s' \<and>
    sc_config s' = sc_config s \<and>
    min_noise_mult (sc_config s) \<le> m \<and> m \<le> max_noise_mult (sc_config s)"
proof -
  have c: "config_ok (sc_config s)" using assms(1) by (simp add: scheduler_ok_def)
  then have le: "min_noise_mult (sc_config s) \<le> max_noise_mult (sc_config s)" by (simp add: config_ok_def)
  show ?thesis
  proof (cases "step < warmup_steps (sc_config s)")
    case True
    with assms(1) le show ?thesis
      by (simp add: get_noise_multiplier_def scheduler_ok_def split: option.splits)
  next
    case warm: False
    show ?thesis
    proof (cases "schedule s")
      case None
      obtain s1 m where "adaptive_noise step g (s\<lparr>steps_completed := step\<rparr>) = Inr (s1, m)"
        "sc_config s1 = sc_config s" "schedule s1 = None"
        "min_noise_mult (sc_config s) \<le> m" "m \<le> max_noise_mult (sc_config s)"
        using adaptive_range [of "s\<lparr>steps_completed := step\<rparr>" step g] c None by auto
      with warm None c show ?thesis
        by (auto simp: get_noise_multiplier_def scheduler_ok_def Let_def split: option.split)
    next
      case (Some sch)
      then have sch: "sch \<noteq> []" "\<forall>m \<in> set sch. min_noise_mult (sc_config s) \<le> m \<and> m \<le> max_noise_mult (sc_config s)"
        using assms(1) by (simp_all add: scheduler_ok_def)
      obtain m where "m \<in> set sch" "py_index sch (min step (int (length sch) - 1)) = Inr m"
        using py_index_member [OF assms(2) sch(1)] by blast
      with warm Some sch c show ?thesis
        by (auto simp: get_noise_multiplier_def scheduler_ok_def Let_def split: option.split)
    qed
  qed
qed

lemma noise_calls_range:
  assumes "scheduler_ok s" and "\<forall>(step, g) \<in> set cs. 0 \<le> step"
  shows "\<exists>s' ms. noise_calls cs s = Inr (s', ms) \<and> length ms = length cs \<and>
    (\<forall>m \<in> set ms. min_noise_mult (sc_config s) \<le> m \<and> m \<le> max_noise_mult (sc_config s))"
  using assms
proof (induction cs arbitrary: s)
  case (Cons x cs)
  obtain step g where x: "x = (step, g)" by (cases x)
  obtain s1 m where s1: "get_noise_multiplier step g s = Inr (s1, m)" "scheduler_ok s1"
    "sc_config s1 = sc_config s" "min_noise_mult (sc_config s) \<le> m" "m \<le> max_noise_mult (sc_config s)"
    using get_noise_range [OF Cons.prems(1), of step g] Cons.prems(2) x by auto
  with Cons.IH [OF s1(2)] Cons.prems(2) show ?case by (auto simp: x)
qed simp

lemma new_scheduler_ok:
  assumes "config_ok c"
  shows "\<exists>s. new_scheduler c = Inr s \<and> scheduler_ok s \<and> sc_config s = c"
proof -
  obtain sch where sch: "precompute_schedule c = Inr sch" "length sch = nat (total_steps c)"
    "\<forall>m \<in> set sch. min_noise_mult c \<le> m \<and> m \<le> max_noise_mult c"
    using schedule_range [OF assms] by blast
  moreover have "sch \<noteq> []" using sch(2) assms by (auto simp: config_ok_def)
  ultimately show ?thesis using assms by (auto simp: new_scheduler_def scheduler_ok_def Let_def)
qed

text \<open>Past the warm-up the adaptive strategy records every norm twice.\<close>

lemma adaptive_call_records:
  assumes "schedule s = None" and "warmup_steps (sc_config s) \<le> step"
    and "get_noise_multiplier step (Some g) s = Inr (s', m)"
  shows "gradient_norms s' = gradient_norms s @ [g, g] \<and> schedule s' = None \<and> sc_config s' = sc_config s"
proof -
  have "gradient_norms t = gradient_norms s @ [g] \<and> schedule t = None \<and> sc_config t = sc_config s"
    if "adaptive_noise step (Some g) (s\<lparr>steps_completed := step\<rparr>) = Inr (t, m')" for t m'
    using that assms(1) by (auto simp: adaptive_noise_def Let_def ebind_Inr_iff split: if_splits)
  note rec = this
  show ?thesis
  proof (cases "adaptive_noise step (Some g) (s\<lparr>steps_completed := step\<rparr>)")
    case (Inl e)
    with assms show ?thesis by (simp add: get_noise_multiplier_def Let_def)
  next
    case (Inr r)
    obtain t m' where r: "r = (t, m')" by (cases r)
    with Inr assms have "s' = t\<lparr>noise_history := noise_history t @ [m'], gradient_norms := gradient_norms t @ [g]\<rparr>"
      by (auto simp: get_noise_multiplier_def Let_def)
    with rec Inr r show ?thesis by simp
  qed
qed

section \<open>Sums of allocations\<close>

lemma weighted_sums:
  assumes "sum_list weights \<noteq> 0" and "num_phases a = int (length weights)" and "weights \<noteq> []"
  shows "sum_list (map fst (allocate_weighted weights a)) = al_epsilon a \<and>
    sum_list (map snd (allocate_weighted weights a)) = al_delta a"
proof -
  have "sum_list (map (\<lambda>w. al_epsilon a * (w / sum_list weights)) weights) =
      al_epsilon a * (sum_list weights / sum_list weights)"
    by (simp add: sum_list_const_mult divide_inverse sum_list_mult_const)
  moreover have "sum_list (map (\<lambda>w. al_delta a / real_of_int (num_phases a)) weights) = al_delta a"
    using assms(2,3) by (simp add: sum_list_triv)
  ultimately show ?thesis using assms(1) by (simp add: allocate_weighted_def comp_def)
qed

lemma sum_powers_pos:
  assumes "0 < n" and "0 < (r :: real)"
  shows "0 < sum_list (map (\<lambda>i. r ^ i) [0..<n])"
proof -
  obtain k where "n = Suc k" using assms(1) gr0_implies_Suc by blast
  moreover have "0 \<le> sum_list (map (\<lambda>i. r ^ i) [0..<k])" using assms(2) by (intro sum_list_nonneg) auto
  ultimately show ?thesis using assms(2) by (simp add: add_nonneg_pos)
qed

section \<open>Properties\<close>

text \<open>
  C25. Clipping bounds the sensitivity: the clipped gradient has norm \<open>min norm clip_norm\<close>, is
  the gradient itself when that was within the bound and otherwise a positive multiple of
  it, and the reported norm is the one before clipping.
\<close>

theorem clipping_bounds_norm:
  assumes "0 < dp_clip_norm p"
  shows "l2_norm (fst (clip_gradients p g)) = min (l2_norm g) (dp_clip_norm p) \<and>
    snd (clip_gradients p g) = l2_norm g \<and>
    (\<exists>c. 0 < c \<and> c \<le> 1 \<and> fst (clip_gradients p g) = map (\<lambda>x. x * c) g \<and>
      (l2_norm g \<le> dp_clip_norm p \<longrightarrow> c = 1))"
proof -
  have "\<exists>c. 0 < c \<and> c \<le> 1 \<and> fst (clip_gradients p g) = map (\<lambda>x. x * c) g \<and>
      (l2_norm g \<le> dp_clip_norm p \<longrightarrow> c = 1)"
  proof (cases "l2_norm g > dp_clip_norm p")
    case True
    then have "0 < dp_clip_norm p / l2_norm g" "dp_clip_norm p / l2_norm g \<le> 1" using assms by simp_all
    with True show ?thesis
      by (intro exI [of _ "dp_clip_norm p / l2_norm g"]) (simp add: clip_gradients_def Let_def)
  next
    case False
    then show ?thesis by (intro exI [of _ 1]) (simp add: clip_gradients_def)
  qed
  with assms show ?thesis by (simp add: clip_norm_exact) (simp add: clip_gradients_def Let_def)
qed

theorem clipping_bounds_norm_witness:
  "l2_norm (fst (clip_gradients \<lparr>dp_epsilon = 1, dp_delta = 1 / 100, dp_clip_norm = 1, dp_noise_multiplier = None\<rparr>
     [3, 4])) = 1"
proof -
  have "sqrt 25 = (5 :: real)" by (rule real_sqrt_unique) simp_all
  then have "l2_norm [3, 4] = 5" by (simp add: l2_norm_def)
  with clipping_bounds_norm [of "\<lparr>dp_epsilon = 1, dp_delta = 1 / 100, dp_clip_norm = 1, dp_noise_multiplier = None\<rparr>" "[3, 4]"]
  show ?thesis by simp
qed

text \<open>
  Privatising a gradient without an override of the multiplier adds noise of the scale
  \<open>sqrt (2 ln (1.25/delta)) / epsilon * clip_norm\<close> to the clipped gradient, and asking again
  gives the same multiplier; a delta above 1.25 raises \<open>ValueError\<close>, an epsilon of zero
  \<open>ZeroDivisionError\<close>.
\<close>

lemma gaussian_privatize:
  assumes "mech_kind m = Gaussian" and "dp_noise_multiplier (params m) = None" and "cached_multiplier m = None"
    and "0 < dp_delta (params m)" and "0 \<le> dp_epsilon (params m)" and "0 < dp_clip_norm (params m)"
  shows "privatize noise cast g m =
    (if 5 / 4 < dp_delta (params m) then Inl ValueError
     else if dp_epsilon (params m) = 0 then Inl ZeroDivisionError
     else
       let mult = sqrt (2 * ln (5 / 4 / dp_delta (params m))) / dp_epsilon (params m);
           scale = mult * dp_clip_norm (params m);
           c = fst (clip_gradients (params m) g)
       in Inr (m\<lparr>cached_multiplier := Some mult\<rparr>,
               map2 (\<lambda>x n. x + cast n) c (noise scale (length g)),
               \<lparr>original_norm = l2_norm g, clipped = l2_norm g > dp_clip_norm (params m),
                clip_norm_used = dp_clip_norm (params m), noise_scale = scale\<rparr>))"
proof -
  define d where "d = dp_delta (params m)"
  have pos: "0 < 5 / 4 / d" using assms(4) by (simp add: d_def)
  have "ln (5 / 4 / d) < 0 \<longleftrightarrow> 5 / 4 / d < 1" using pos by (rule ln_less_zero_iff)
  also have "\<dots> \<longleftrightarrow> 5 / 4 < d" using assms(4) by (simp add: d_def divide_less_eq mult.commute)
  finally have neg: "ln (5 / 4 / d) < 0 \<longleftrightarrow> 5 / 4 < d" .
  have mult: "compute_noise_multiplier m =
      (if 5 / 4 < d then Inl ValueError else if dp_epsilon (params m) = 0 then Inl ZeroDivisionError
       else Inr (sqrt (2 * ln (5 / 4 / d)) / dp_epsilon (params m)))"
    using pos neg assms(1,4)
    by (simp add: compute_noise_multiplier_def gaussian_multiplier_def d_def [symmetric] Let_def)
  have len: "length (fst (clip_gradients (params m) g)) = length g"
    by (simp add: clip_gradients_def Let_def)
  have snd: "snd (clip_gradients (params m) g) = l2_norm g"
    by (simp add: clip_gradients_def Let_def)
  have nonneg: "0 \<le> sqrt (2 * ln (5 / 4 / d)) / dp_epsilon (params m) * dp_clip_norm (params m)"
    if "\<not> 5 / 4 < d" using that neg assms(5,6) by (simp add: not_less)
  show ?thesis
    using nonneg assms(1-3)
    by (simp add: privatize_def add_noise_def noise_multiplier_def mult d_def [symmetric] len snd
        case_prod_beta Let_def not_less [symmetric])
qed

lemma gaussian_privatize_witness:
  "privatize (\<lambda>s n. replicate n 0) (\<lambda>x. x) [1]
     (new_mechanism Gaussian \<lparr>dp_epsilon = 1, dp_delta = 2, dp_clip_norm = 1, dp_noise_multiplier = None\<rparr>)
   = Inl ValueError"
  by (subst gaussian_privatize) (simp_all add: new_mechanism_def)

text \<open>
  C36. Every noise multiplier the scheduler hands out lies between the configured minimum and
  maximum, for every strategy and any history of calls with steps from 0 on, and none of the
  calls raises, if the bounds are positive and ordered and steps and window are positive.
\<close>

theorem noise_within_bounds:
  assumes "config_ok c" and "new_scheduler c = Inr s" and "\<forall>(step, g) \<in> set calls. 0 \<le> step"
  shows "\<exists>s' ms. noise_calls calls s = Inr (s', ms) \<and> length ms = length calls \<and>
    (\<forall>m \<in> set ms. min_noise_mult c \<le> m \<and> m \<le> max_noise_mult c)"
proof -
  have "scheduler_ok s" "sc_config s = c" using new_scheduler_ok [OF assms(1)] assms(2) by auto
  with noise_calls_range [OF _ assms(3)] show ?thesis by blast
qed

theorem noise_within_bounds_witness:
  "\<exists>s s' ms. new_scheduler default_noise_config = Inr s \<and>
     noise_calls [(0, Some 1), (500, None), (20000, Some 2)] s = Inr (s', ms) \<and> length ms = 3 \<and>
     (\<forall>m \<in> set ms. 1 / 10 \<le> m \<and> m \<le> 2)"
proof -
  have c: "config_ok default_noise_config" by (simp add: config_ok_def default_noise_config_def)
  obtain s where s: "new_scheduler default_noise_config = Inr s" using new_scheduler_ok [OF c] by blast
  from noise_within_bounds [OF c s, of "[(0, Some 1), (500, None), (20000, Some 2)]"] s show ?thesis
    by (auto simp: default_noise_config_def)
qed

text \<open>
  The adaptive strategy records every gradient norm twice after the warm-up, once in
  \<open>_adaptive_noise\<close> and once in its caller, so a window of \<open>w\<close> norms covers only half as
  many steps.
\<close>

lemma norms_recorded_twice:
  assumes "allocation_strategy c = lit ''adaptive''" and "new_scheduler c = Inr s0"
    and "schedule s = schedule s0" and "sc_config s = c" and "warmup_steps c \<le> step"
    and "get_noise_multiplier step (Some g) s = Inr (s', m)"
  shows "gradient_norms s' = gradient_norms s @ [g, g]"
proof -
  have "schedule s0 = None" using assms(1,2) by (auto simp: new_scheduler_def Let_def)
  with adaptive_call_records [OF _ _ assms(6)] assms(3-5) show ?thesis by simp
qed

lemma norms_recorded_twice_witness:
  "let c = default_noise_config\<lparr>allocation_strategy := lit ''adaptive''\<rparr>;
       s = projr (new_scheduler c);
       s' = fst (projr (get_noise_multiplier 100 (Some 3) s))
   in gradient_norms s' = [3, 3]"
proof -
  define c where "c = default_noise_config\<lparr>allocation_strategy := lit ''adaptive''\<rparr>"
  define s where "s = projr (new_scheduler c)"
  have s: "new_scheduler c = Inr s" "gradient_norms s = []" "sc_config s = c" "allocation_strategy c = lit ''adaptive''"
    "schedule s = None"
    by (simp_all add: s_def c_def new_scheduler_def)
  have c: "config_ok c" "warmup_steps c \<le> 100"
    by (simp_all add: c_def default_noise_config_def config_ok_def)
  have "scheduler_ok s" using s c by (simp add: scheduler_ok_def)
  then obtain s' m where "get_noise_multiplier 100 (Some 3) s = Inr (s', m)"
    using get_noise_range [of s 100 "Some 3"] by auto
  with norms_recorded_twice [OF s(4,1) refl s(3) c(2) this] s(2) show ?thesis
    unfolding Let_def c_def [symmetric] s_def [symmetric] by simp
qed

text \<open>
  Every allocation splits the budget exactly: the epsilons of the phases add up to the
  total epsilon and the deltas to the total delta, for the uniform one, the exponentially
  decaying one with a positive rate, and the weighted one with one weight per phase and a
  sum of weights that is not zero.
\<close>

lemma allocations_add_up:
  assumes "new_allocator e d n = Inr a" and "0 < n" and "0 < rate"
    and "int (length importance) = n" and "sum_list importance \<noteq> 0"
  shows "\<forall>l \<in> {allocate_uniform a, allocate_exponential_decay rate a, allocate_importance_weighted importance a}.
    sum_list (map fst l) = e \<and> sum_list (map snd l) = d \<and> int (length l) = n"
proof -
  have a: "al_epsilon a = e" "al_delta a = d" "num_phases a = n"
    "phase_epsilon a = e / real_of_int n" "phase_delta a = d / real_of_int n"
    using assms(1) by (auto simp: new_allocator_def split: if_splits)
  have "real (nat n) = real_of_int n" using assms(2) by simp
  then have u: "sum_list (map fst (allocate_uniform a)) = e" "sum_list (map snd (allocate_uniform a)) = d"
    using assms(2) by (simp_all add: allocate_uniform_def a sum_list_replicate)
  let ?w = "map (\<lambda>i. rate ^ i) [0..<nat n]"
  have "sum_list ?w \<noteq> 0" using sum_powers_pos [of "nat n" rate] assms(2,3) by simp
  then have x: "sum_list (map fst (allocate_exponential_decay rate a)) = e"
    "sum_list (map snd (allocate_exponential_decay rate a)) = d"
    using weighted_sums [of ?w a] assms(2) by (simp_all add: allocate_exponential_decay_def a)
  have "importance \<noteq> []" using assms(5) by auto
  then have w: "sum_list (map fst (allocate_importance_weighted importance a)) = e"
    "sum_list (map snd (allocate_importance_weighted importance a)) = d"
    using weighted_sums [OF assms(5), of a] assms(4) by (simp_all add: allocate_importance_weighted_def a)
  from u x w assms(2,4) show ?thesis
    by (simp add: a allocate_uniform_def allocate_exponential_decay_def allocate_importance_weighted_def
        allocate_weighted_def)
qed

lemma allocations_add_up_witness:
  "\<exists>a. new_allocator 1 (1 / 100) 2 = Inr a \<and>
     sum_list (map fst (allocate_exponential_decay (1 / 2) a)) = 1 \<and>
     sum_list (map snd (allocate_importance_weighted [1, 3] a)) = 1 / 100"
proof -
  obtain a where a: "new_allocator 1 (1 / 100) 2 = Inr a" by (simp add: new_allocator_def)
  from allocations_add_up [OF a, of "1 / 2" "[1, 3]"] a show ?thesis by auto
qed

end
