(* ===== verification/Replay.thy ===== *)
theory Replay
  imports Prelude
begin

text \<open>
  \<open>training/replay.py\<close>: experiences and their dictionary form, the buffer of the latest
  experiences, the prioritised buffer, and the buffer that shares experiences through a
  message broker. Arrays are an abstract type \<open>'a\<close> with their list form \<open>'l\<close>; the metadata
  has type \<open>'i\<close>. Draws of \<open>np.random\<close> are arguments; the broker's client and the JSON codec
  are not part of the code, what they return is an argument.
\<close>

section \<open>Experiences\<close>

record ('a, 'i) experience =
  ex_obs :: 'a
  ex_action :: 'a
  ex_reward :: real
  ex_next_obs :: 'a
  ex_done :: bool
  ex_info :: 'i
  ex_priority :: real

datatype ('l, 'i) jval = JList 'l | JNum real | JBool bool | JInfo 'i

definition exp_to_dict :: "('a \<Rightarrow> 'l) \<Rightarrow> ('a, 'i) experience \<Rightarrow> (pystr \<times> ('l, 'i) jval) list" where
  "exp_to_dict tolist e =
     [(lit ''obs'', JList (tolist (ex_obs e))), (lit ''action'', JList (tolist (ex_action e))),
      (lit ''reward'', JNum (ex_reward e)), (lit ''next_obs'', JList (tolist (ex_next_obs e))),
      (lit ''done'', JBool (ex_done e)), (lit ''info'', JInfo (ex_info e)),
      (lit ''priority'', JNum (ex_priority e))]"

definition field :: "(pystr \<times> ('l, 'i) jval) list \<Rightarrow> pystr \<Rightarrow> ('l, 'i) jval result" where
  "field d k = (case map_of d k of None \<Rightarrow> Inl KeyError | Some v \<Rightarrow> Inr v)"

text \<open>Values of other types than \<open>to_dict\<close> writes have no counterpart in the record.\<close>

fun as_list :: "('l, 'i) jval \<Rightarrow> 'l result" where
  "as_list (JList l) = Inr l"
| "as_list _ = Inl TypeError"

fun as_num :: "('l, 'i) jval \<Rightarrow> real result" where
  "as_num (JNum x) = Inr x"
| "as_num _ = Inl TypeError"

fun as_bool :: "('l, 'i) jval \<Rightarrow> bool result" where
  "as_bool (JBool b) = Inr b"
| "as_bool _ = Inl TypeError"

fun as_info :: "('l, 'i) jval \<Rightarrow> 'i result" where
  "as_info (JInfo i) = Inr i"
| "as_info _ = Inl TypeError"

text \<open>
  \<open>array32\<close> is \<open>np.array(l, dtype=np.float32)\<close>, \<open>array\<close> is \<open>np.array(l)\<close>, \<open>no_info\<close> the
  empty dictionary.
\<close>

definition exp_from_dict ::
  "('l \<Rightarrow> 'a) \<Rightarrow> ('l \<Rightarrow> 'a) \<Rightarrow> 'i \<Rightarrow> (pystr \<times> ('l, 'i) jval) list \<Rightarrow> ('a, 'i) experience result" where
  "exp_from_dict array32 array no_info d =
     ebind (ebind (field d (lit ''obs'')) as_list) (\<lambda>obs.
     ebind (ebind (field d (lit ''action'')) as_list) (\<lambda>action.
     ebind (ebind (field d (lit ''reward'')) as_num) (\<lambda>reward.
     ebind (ebind (field d (lit ''next_obs'')) as_list) (\<lambda>next_obs.
     ebind (ebind (field d (lit ''done'')) as_bool) (\<lambda>done.
     ebind (case map_of d (lit ''info'') of None \<Rightarrow> Inr no_info | Some v \<Rightarrow> as_info v) (\<lambda>info.
     ebind (case map_of d (lit ''priority'') of None \<Rightarrow> Inr 1 | Some v \<Rightarrow> as_num v) (\<lambda>priority.
     Inr \<lparr>ex_obs = array32 obs, ex_action = array action, ex_reward = reward,
          ex_next_obs = array32 next_obs, ex_done = done, ex_info = info,
          ex_priority = priority\<rparr>)))))))"

section \<open>The buffer of the latest experiences\<close>

text \<open>\<open>deque(maxlen=n).append\<close>.\<close>

definition deque_append :: "nat \<Rightarrow> 'e \<Rightarrow> 'e list \<Rightarrow> 'e list" where
  "deque_append n x xs = (let ys = xs @ [x] in drop (length ys - n) ys)"

record ('a, 'i) buffer =
  capacity :: nat
  buf :: "('a, 'i) experience list"
  position :: int

definition new_buffer :: "nat \<Rightarrow> ('a, 'i) buffer" where
  "new_buffer n = \<lparr>capacity = n, buf = [], position = 0\<rparr>"

definition buffer_add :: "('a, 'i) experience \<Rightarrow> ('a, 'i) buffer \<Rightarrow> ('a, 'i) buffer" where
  "buffer_add e b = b\<lparr>buf := deque_append (capacity b) e (buf b)\<rparr>"

text \<open>\<open>add_batch\<close>: as many as there are observations; a shorter array is an \<open>IndexError\<close>.\<close>

fun buffer_add_batch ::
  "'i \<Rightarrow> 'a list \<Rightarrow> 'a list \<Rightarrow> real list \<Rightarrow> 'a list \<Rightarrow> bool list \<Rightarrow> ('a, 'i) buffer \<Rightarrow> ('a, 'i) buffer result"
where
  "buffer_add_batch no_info [] actions rewards nexts dones b = Inr b"
| "buffer_add_batch no_info (ob # obs) (ac # actions) (r # rewards) (nx # nexts) (d # dones) b =
     buffer_add_batch no_info obs actions rewards nexts dones
       (buffer_add \<lparr>ex_obs = ob, ex_action = ac, ex_reward = r, ex_next_obs = nx, ex_done = d,
                    ex_info = no_info, ex_priority = 1\<rparr> b)"
| "buffer_add_batch no_info _ _ _ _ _ b = Inl IndexError"

text \<open>
  \<open>np.random.randint(0, n, size=k)\<close> from a list of draws: nothing is drawn for \<open>k = 0\<close>,
  otherwise an empty range or a negative size raises \<open>ValueError\<close>.
\<close>

definition randint :: "nat list \<Rightarrow> nat \<Rightarrow> int \<Rightarrow> nat list result" where
  "randint ds n k =
     (if k = 0 then Inr []
      else if k < 0 \<or> n = 0 then Inl ValueError
      else Inr (map (\<lambda>i. (if i < length ds then ds ! i else 0) mod n) [0..<nat k]))"

definition buffer_sample :: "nat list \<Rightarrow> int \<Rightarrow> ('a, 'i) buffer \<Rightarrow> ('a, 'i) experience list result" where
  "buffer_sample ds batch_size b =
     ebind (randint ds (length (buf b)) batch_size) (\<lambda>indices. Inr (map (\<lambda>i. buf b ! i) indices))"

definition buffer_sample_batch ::
  "nat list \<Rightarrow> int \<Rightarrow> ('a, 'i) buffer \<Rightarrow>
     ('a list \<times> 'a list \<times> real list \<times> 'a list \<times> bool list) result"
where
  "buffer_sample_batch ds batch_size b =
     ebind (buffer_sample ds batch_size b) (\<lambda>es.
     Inr (map ex_obs es, map ex_action es, map ex_reward es, map ex_next_obs es, map ex_done es))"

definition buffer_len :: "('a, 'i) buffer \<Rightarrow> nat" where
  "buffer_len b = length (buf b)"

definition buffer_clear :: "('a, 'i) buffer \<Rightarrow> ('a, 'i) buffer" where
  "buffer_clear b = b\<lparr>buf := []\<rparr>"

section \<open>The prioritised buffer\<close>

record ('a, 'i) prioritized =
  base :: "('a, 'i) buffer"
  pr_alpha :: real
  pr_beta :: real
  beta_increment :: real
  priorities :: "real list"
  max_priority :: real

definition new_prioritized :: "nat \<Rightarrow> real \<Rightarrow> real \<Rightarrow> real \<Rightarrow> ('a, 'i) prioritized" where
  "new_prioritized n alpha beta inc =
     \<lparr>base = new_buffer n, pr_alpha = alpha, pr_beta = beta, beta_increment = inc,
      priorities = replicate n 0, max_priority = 1\<rparr>"

text \<open>\<open>% self.capacity\<close> with no capacity is a division by zero.\<close>

definition prioritized_add :: "('a, 'i) experience \<Rightarrow> ('a, 'i) prioritized \<Rightarrow> ('a, 'i) prioritized result" where
  "prioritized_add e p =
     (let b = buffer_add (e\<lparr>ex_priority := max_priority p\<rparr>) (base p) in
      if capacity b = 0 then Inl ZeroDivisionError
      else
        let idx = (length (buf b) - 1) mod capacity b
        in Inr (p\<lparr>base := b, priorities := (priorities p)[idx := max_priority p]\<rparr>))"

text \<open>\<open>x ** a\<close> for non-negative \<open>x\<close>.\<close>

definition np_pow :: "real \<Rightarrow> real \<Rightarrow> real" where
  "np_pow x a = (if a = 0 then 1 else x powr a)"

definition probabilities :: "('a, 'i) prioritized \<Rightarrow> real list" where
  "probabilities p =
     (let ps = map (\<lambda>x. np_pow x (pr_alpha p)) (take (length (buf (base p))) (priorities p))
      in map (\<lambda>x. x / sum_list ps) ps)"

text \<open>
  \<open>choice n k probs\<close> is \<open>np.random.choice(n, size=k, p=probs, replace=False)\<close>; the maximum
  of no weights is a \<open>ValueError\<close>.
\<close>

definition prioritized_sample ::
  "(nat \<Rightarrow> int \<Rightarrow> real list \<Rightarrow> nat list result) \<Rightarrow> int \<Rightarrow> ('a, 'i) prioritized \<Rightarrow>
     (('a, 'i) prioritized \<times> ('a, 'i) experience list \<times> nat list \<times> real list) result"
where
  "prioritized_sample choice batch_size p =
     (let n = length (buf (base p)); probs = probabilities p in
      ebind (choice n batch_size probs) (\<lambda>indices.
      let experiences = map (\<lambda>i. buf (base p) ! i) indices;
          ws = map (\<lambda>i. np_pow (real n * probs ! i) (- pr_beta p)) indices
      in if ws = [] then Inl ValueError
         else Inr (p\<lparr>pr_beta := min 1 (pr_beta p + beta_increment p)\<rparr>, experiences, indices,
                   map (\<lambda>w. w / Max (set ws)) ws)))"

text \<open>\<open>update_priorities\<close> goes through the two arrays as far as both reach.\<close>

fun update_priorities :: "int list \<Rightarrow> real list \<Rightarrow> ('a, 'i) prioritized \<Rightarrow> ('a, 'i) prioritized result" where
  "update_priorities (i # is) (x # xs) p =
     (let n = int (length (priorities p)) in
      if - n \<le> i \<and> i < n then
        update_priorities is xs
          (p\<lparr>priorities := (priorities p)[nat (i mod n) := x], max_priority := max (max_priority p) x\<rparr>)
      else Inl IndexError)"
| "update_priorities _ _ p = Inr p"

section \<open>The shared buffer\<close>

text \<open>
  \<open>outbox\<close> are the values given to the producer, with their keys. \<open>producer_ok\<close> and
  \<open>consumer_ok\<close> say whether the clients can be created; \<open>consumer_closed\<close> says whether the
  consumer that \<open>_consumer\<close> refers to has been closed.
\<close>

record ('a, 'i, 'v) replay =
  rp_agent_id :: pystr
  local_buffer :: "('a, 'i) buffer"
  producer_ok :: bool
  consumer_ok :: bool
  producer_made :: bool
  consumer_made :: bool
  consumer_closed :: bool
  consumer_running :: bool
  received_size :: nat
  received_buffer :: "('a, 'i) experience list"
  outbox :: "(pystr \<times> 'v) list"

definition new_replay :: "pystr \<Rightarrow> nat \<Rightarrow> bool \<Rightarrow> bool \<Rightarrow> ('a, 'i, 'v) replay" where
  "new_replay agent n can_produce can_consume =
     \<lparr>rp_agent_id = agent, local_buffer = new_buffer n, producer_ok = can_produce, consumer_ok = can_consume,
      producer_made = False, consumer_made = False, consumer_closed = False, consumer_running = False,
      received_size = n, received_buffer = [], outbox = []\<rparr>"

definition get_producer :: "('a, 'i, 'v) replay \<Rightarrow> ('a, 'i, 'v) replay" where
  "get_producer s = (if producer_made s then s else s\<lparr>producer_made := producer_ok s\<rparr>)"

definition get_consumer :: "('a, 'i, 'v) replay \<Rightarrow> ('a, 'i, 'v) replay" where
  "get_consumer s = (if consumer_made s then s else s\<lparr>consumer_made := consumer_ok s\<rparr>)"

text \<open>\<open>encode\<close> gives the serialised experience, \<open>None\<close> if an exception was logged.\<close>

definition replay_add ::
  "(('a, 'i) experience \<Rightarrow> 'v option) \<Rightarrow> ('a, 'i) experience \<Rightarrow> ('a, 'i, 'v) replay \<Rightarrow> ('a, 'i, 'v) replay"
where
  "replay_add encode e s =
     (let s1 = get_producer (s\<lparr>local_buffer := buffer_add e (local_buffer s)\<rparr>) in
      if producer_made s1 then
        (case encode e of
           None \<Rightarrow> s1
         | Some v \<Rightarrow> s1\<lparr>outbox := outbox s1 @ [(rp_agent_id s1, v)]\<rparr>)
      else s1)"

definition start_consumer :: "('a, 'i, 'v) replay \<Rightarrow> ('a, 'i, 'v) replay" where
  "start_consumer s =
     (if consumer_running s then s
      else let s1 = get_consumer s in if consumer_made s1 then s1\<lparr>consumer_running := True\<rparr> else s1)"

datatype 'v polled = NoMessage | BrokerError | Received "pystr option" 'v

text \<open>
  One turn of the consumer loop on what the client's \<open>poll\<close> gave: nothing, a broker error or
  an exception (both only logged), or a message. \<open>decode\<close> parses a value, an exception is logged.
  A message without a key counts as coming from the empty identifier.
\<close>

definition consume ::
  "('v \<Rightarrow> ('a, 'i) experience result) \<Rightarrow> 'v polled \<Rightarrow> ('a, 'i, 'v) replay \<Rightarrow> ('a, 'i, 'v) replay" where
  "consume decode m s =
     (if \<not> consumer_running s then s
      else case m of
        NoMessage \<Rightarrow> s
      | BrokerError \<Rightarrow> s
      | Received key v \<Rightarrow>
          (let sender = (case key of None \<Rightarrow> [] | Some k \<Rightarrow> k) in
           if sender = rp_agent_id s then s
           else case decode v of
             Inl e \<Rightarrow> s
           | Inr e \<Rightarrow> s\<lparr>received_buffer := deque_append (received_size s) e (received_buffer s)\<rparr>))"

text \<open>\<open>stop_consumer\<close> closes the consumer but does not forget it.\<close>

definition stop_consumer :: "('a, 'i, 'v) replay \<Rightarrow> ('a, 'i, 'v) replay" where
  "stop_consumer s =
     (let s1 = s\<lparr>consumer_running := False\<rparr>
      in if consumer_made s1 then s1\<lparr>consumer_closed := True\<rparr> else s1)"

text \<open>\<open>ds1\<close> and \<open>ds2\<close> are the draws from the local and the received buffer.\<close>

definition replay_sample ::
  "nat list \<Rightarrow> nat list \<Rightarrow> int \<Rightarrow> bool \<Rightarrow> ('a, 'i, 'v) replay \<Rightarrow> ('a, 'i) experience list result" where
  "replay_sample ds1 ds2 batch_size include_remote s =
     (let remote = include_remote \<and> received_buffer s \<noteq> [];
          local_count = (if remote then batch_size div 2 else batch_size)
      in ebind (if int (buffer_len (local_buffer s)) \<ge> local_count
                then buffer_sample ds1 local_count (local_buffer s) else Inr []) (\<lambda>local_samples.
         ebind (if remote then
                  let remote_count = batch_size - int (length local_samples) in
                  if int (length (received_buffer s)) \<ge> remote_count
                  then ebind (randint ds2 (length (received_buffer s)) remote_count)
                         (\<lambda>indices. Inr (map (\<lambda>i. received_buffer s ! i) indices))
                  else Inr []
                else Inr []) (\<lambda>remote_samples.
         Inr (local_samples @ remote_samples))))"

definition replay_len :: "('a, 'i, 'v) replay \<Rightarrow> nat" where
  "replay_len s = buffer_len (local_buffer s) + length (received_buffer s)"

text \<open>\<open>close\<close>: the consumer is stopped, the producer forgotten after a flush.\<close>

definition replay_close :: "('a, 'i, 'v) replay \<Rightarrow> ('a, 'i, 'v) replay" where
  "replay_close s = (stop_consumer s)\<lparr>producer_made := False\<rparr>"

end
