(* ===== verification/Replay_Props.thy ===== *)
theory Replay_Props
  imports Replay
begin

text \<open>
  Facts about experience replay: the buffer is a window over what was added, priorities lose
  their experiences once the buffer is full, importance weights are normalised, the shared
  buffer's consumer and samples.
\<close>

section \<open>The window\<close>

definition window :: "nat \<Rightarrow> 'e list \<Rightarrow> 'e list" where
  "window n xs = drop (length xs - n) xs"

lemma window_length [simp]: "length (window n xs) = min n (length xs)"
  by (simp add: window_def min_def)

lemma deque_append_window: "deque_append n x (window n xs) = window n (xs @ [x])"
  by (cases "length xs \<le> n") (auto simp: deque_append_def window_def Let_def Suc_diff_le)

lemma window_small: "length xs \<le> n \<Longrightarrow> window n xs = xs"
  by (simp add: window_def)

lemma fold_deque_append:
  assumes "length xs \<le> n"
  shows "fold (deque_append n) ys xs = window n (xs @ ys)"
proof (induction ys rule: rev_induct)
  case Nil
  with assms show ?case by (simp add: window_small)
next
  case (snoc y ys)
  then show ?case using deque_append_window [of n y "xs @ ys"] by simp
qed

lemma buffer_adds:
  "buf (fold buffer_add es b) = fold (deque_append (capacity b)) es (buf b) \<and>
   capacity (fold buffer_add es b) = capacity b"
  by (induction es arbitrary: b) (simp_all add: buffer_add_def)

section \<open>Random indices\<close>

lemma randint_ok:
  assumes "0 \<le> k" and "k \<le> int n"
  shows "\<exists>is. randint ds n k = Inr is \<and> int (length is) = k \<and> set is \<subseteq> {..<n}"
proof (cases "k = 0")
  case False
  then have "0 < n" using assms by linarith
  with False assms show ?thesis by (auto simp: randint_def)
qed (simp add: randint_def)

lemma pick_ok:
  assumes "0 \<le> k" and "k \<le> int (length xs)"
  shows "\<exists>es. ebind (randint ds (length xs) k) (\<lambda>is. Inr (map (\<lambda>i. xs ! i) is)) = Inr es \<and>
    int (length es) = k \<and> set es \<subseteq> set xs"
  using randint_ok [OF assms, of ds] by (fastforce intro!: nth_mem)

section \<open>Priorities\<close>

lemma np_pow_pos: "0 < x \<Longrightarrow> 0 < np_pow x a"
  by (simp add: np_pow_def)

definition priorities_ok :: "('a, 'i) prioritized \<Rightarrow> bool" where
  "priorities_ok p \<longleftrightarrow>
     length (priorities p) = capacity (base p) \<and> length (buf (base p)) \<le> capacity (base p) \<and>
     0 < max_priority p \<and> (\<forall>x \<in> set (take (length (buf (base p))) (priorities p)). 0 < x)"

lemma probabilities_ok:
  assumes "priorities_ok p" and "buf (base p) \<noteq> []"
  shows "length (probabilities p) = length (buf (base p)) \<and> sum_list (probabilities p) = 1 \<and>
    (\<forall>x \<in> set (probabilities p). 0 < x)"
proof -
  define ps where "ps = map (\<lambda>x. np_pow x (pr_alpha p)) (take (length (buf (base p))) (priorities p))"
  have ps: "\<forall>x \<in> set ps. 0 < x" "length ps = length (buf (base p))"
    using assms(1) np_pow_pos by (auto simp: ps_def priorities_ok_def)
  then obtain x xs where xs: "ps = x # xs" "0 < x" "\<forall>y \<in> set xs. 0 < y"
    using assms(2) by (cases ps) auto
  have "0 \<le> sum_list xs" using xs(3) by (intro sum_list_nonneg) (simp add: less_imp_le)
  with xs(1,2) have "0 < sum_list ps" by simp
  moreover have "sum_list (map (\<lambda>x. x / sum_list ps) ps) = sum_list ps / sum_list ps"
    by (simp add: divide_inverse sum_list_mult_const)
  ultimately show ?thesis
    using ps by (auto simp: probabilities_def ps_def [symmetric] Let_def)
qed

lemma prioritized_add_ok:
  assumes "priorities_ok p" and "prioritized_add e p = Inr p'"
  shows "priorities_ok p' \<and> base p' = buffer_add (e\<lparr>ex_priority := max_priority p\<rparr>) (base p) \<and>
    priorities p' = (priorities p)[length (buf (base p')) - 1 := max_priority p] \<and>
    max_priority p' = max_priority p"
proof -
  let ?n = "capacity (base p)" and ?b = "buffer_add (e\<lparr>ex_priority := max_priority p\<rparr>) (base p)"
  have ok: "length (priorities p) = ?n" "length (buf (base p)) \<le> ?n" "0 < max_priority p"
    "\<forall>x \<in> set (take (length (buf (base p))) (priorities p)). 0 < x"
    using assms(1) by (simp_all add: priorities_ok_def)
  have n: "0 < ?n" using assms(2) by (auto simp: prioritized_add_def buffer_add_def Let_def split: if_splits)
  have b: "capacity ?b = ?n" "length (buf ?b) = min ?n (Suc (length (buf (base p))))"
    by (simp_all add: buffer_add_def deque_append_def Let_def min_def) arith
  then have idx: "(length (buf ?b) - 1) mod ?n = length (buf ?b) - 1" "0 < length (buf ?b)"
    using n by (auto simp: min_def)
  have p': "p' = p\<lparr>base := ?b, priorities := (priorities p)[length (buf ?b) - 1 := max_priority p]\<rparr>"
    using assms(2) n idx(1) by (simp add: prioritized_add_def b(1) Let_def)
  have "0 < (priorities p)[length (buf ?b) - 1 := max_priority p] ! i" if "i < length (buf ?b)" for i
  proof (cases "i = length (buf ?b) - 1")
    case True
    then show ?thesis using that b(2) ok by (simp add: nth_list_update)
  next
    case False
    then have "i < length (buf (base p))" using that b(2) by linarith
    then have "priorities p ! i \<in> set (take (length (buf (base p))) (priorities p))"
      using ok(1,2) by (auto simp: in_set_conv_nth intro!: exI [of _ i])
    with False ok(4) show ?thesis by simp
  qed
  then have "\<forall>x \<in> set (take (length (buf ?b)) ((priorities p)[length (buf ?b) - 1 := max_priority p])). 0 < x"
    by (auto simp: in_set_conv_nth)
  then show ?thesis using ok b by (simp add: p' priorities_ok_def)
qed

lemma new_prioritized_ok: "priorities_ok (new_prioritized n alpha beta inc)"
  by (simp add: priorities_ok_def new_prioritized_def new_buffer_def)

section \<open>The consumer\<close>

text \<open>The experiences of a list of polled messages that the consumer keeps.\<close>

definition foreign ::
  "('v \<Rightarrow> ('a, 'i) experience result) \<Rightarrow> pystr \<Rightarrow> 'v polled list \<Rightarrow> ('a, 'i) experience list" where
  "foreign decode me ms =
     concat (map (\<lambda>m. case m of
         Received key v \<Rightarrow>
           (if (case key of None \<Rightarrow> [] | Some k \<Rightarrow> k) = me then []
            else case decode v of Inl e \<Rightarrow> [] | Inr e \<Rightarrow> [e])
       | _ \<Rightarrow> []) ms)"

lemma consume_frame:
  "consumer_running (consume decode m s) = consumer_running s"
  "consumer_closed (consume decode m s) = consumer_closed s"
  "rp_agent_id (consume decode m s) = rp_agent_id s"
  "received_size (consume decode m s) = received_size s"
  "local_buffer (consume decode m s) = local_buffer s"
  "outbox (consume decode m s) = outbox s"
  by (auto simp: consume_def Let_def split: polled.split sum.split option.split)

lemma consume_all:
  assumes "consumer_running s"
  shows "received_buffer (fold (consume decode) ms s) =
    fold (deque_append (received_size s)) (foreign decode (rp_agent_id s) ms) (received_buffer s)"
  using assms
proof (induction ms arbitrary: s)
  case (Cons m ms)
  have "received_buffer (consume decode m s) =
      fold (deque_append (received_size s)) (foreign decode (rp_agent_id s) [m]) (received_buffer s)"
    using Cons.prems by (auto simp: consume_def foreign_def Let_def split: polled.split sum.split option.split)
  moreover have "foreign decode (rp_agent_id s) (m # ms) =
      foreign decode (rp_agent_id s) [m] @ foreign decode (rp_agent_id s) ms"
    by (simp add: foreign_def)
  ultimately show ?case using Cons.IH [of "consume decode m s"] Cons.prems by (simp add: consume_frame)
qed (simp add: foreign_def)

section \<open>Small buffers\<close>

definition demo_exp :: "nat \<Rightarrow> (nat, nat) experience" where
  "demo_exp i = \<lparr>ex_obs = i, ex_action = i, ex_reward = 0, ex_next_obs = i, ex_done = False,
     ex_info = 0, ex_priority = 1\<rparr>"

text \<open>A full prioritised buffer of two experiences, the first with priority 9.\<close>

definition demo_prioritized :: "(nat, nat) prioritized" where
  "demo_prioritized =
     \<lparr>base = \<lparr>capacity = 2, buf = [demo_exp 1, demo_exp 2], position = 0\<rparr>, pr_alpha = 1, pr_beta = 1 / 2,
      beta_increment = 1 / 10, priorities = [9, 1], max_priority = 9\<rparr>"

lemma demo_prioritized_ok: "priorities_ok demo_prioritized"
  by (simp add: priorities_ok_def demo_prioritized_def)

definition demo_replay :: "(nat, nat, nat) replay" where
  "demo_replay = (new_replay [97] 2 True True)\<lparr>consumer_running := True\<rparr>"

section \<open>Properties\<close>

text \<open>
  An experience written to a dictionary is read back with the observations converted to
  float32 and the action as its list reads; reward, flag, metadata and priority are the same.
\<close>

lemma experience_roundtrip:
  "exp_from_dict array32 array no_info (exp_to_dict tolist e) =
     Inr (e\<lparr>ex_obs := array32 (tolist (ex_obs e)), ex_action := array (tolist (ex_action e)),
            ex_next_obs := array32 (tolist (ex_next_obs e))\<rparr>)"
  by (simp add: exp_from_dict_def exp_to_dict_def field_def lit_def)

text \<open>
  C37. The experience buffer is a window: after any additions it holds exactly the latest
  \<open>capacity\<close> experiences in their order, and a sample of up to that many is drawn from them.
\<close>

theorem buffer_is_window:
  assumes "0 \<le> k" and "k \<le> int (min n (length es))"
  shows "buf (fold buffer_add es (new_buffer n)) = drop (length es - n) es \<and>
    (\<exists>xs. buffer_sample ds k (fold buffer_add es (new_buffer n)) = Inr xs \<and> int (length xs) = k \<and>
       set xs \<subseteq> set (drop (length es - n) es))"
proof -
  have b: "buf (fold buffer_add es (new_buffer n)) = window n es"
    using buffer_adds [of es "new_buffer n"] fold_deque_append [of "[]" n es]
    by (simp add: new_buffer_def)
  obtain ix where ix: "randint ds (length (window n es)) k = Inr ix" "int (length ix) = k"
    "set ix \<subseteq> {..<length (window n es)}"
    using randint_ok [of k "length (window n es)" ds] assms by auto
  have "set (map (\<lambda>i. window n es ! i) ix) \<subseteq> set (window n es)" using ix(3) by (auto intro!: nth_mem)
  with ix b show ?thesis by (simp add: buffer_sample_def window_def)
qed

theorem buffer_is_window_witness:
  "buf (fold buffer_add [demo_exp 1, demo_exp 2, demo_exp 3] (new_buffer 2)) = [demo_exp 2, demo_exp 3]"
  using buffer_is_window [of 1 2 "[demo_exp 1, demo_exp 2, demo_exp 3]" "[]"] by simp

text \<open>
  Once the prioritised buffer is full its priorities belong to the wrong experiences: an
  addition moves every experience one place down but leaves the stored priorities in place,
  so what was at position \<open>i + 1\<close> is from then on sampled with the priority of what was at \<open>i\<close>.
\<close>

lemma priorities_misaligned:
  assumes "priorities_ok p" and "length (buf (base p)) = capacity (base p)"
    and "prioritized_add e p = Inr p'" and "Suc i < capacity (base p)"
  shows "buf (base p') ! i = buf (base p) ! Suc i \<and> priorities p' ! i = priorities p ! i"
proof -
  note a = prioritized_add_ok [OF assms(1,3)]
  have "buf (base p') = tl (buf (base p)) @ [e\<lparr>ex_priority := max_priority p\<rparr>]"
    using a assms(2,4) by (simp add: buffer_add_def deque_append_def Let_def drop_Suc drop_append)
  moreover have "length (buf (base p')) = capacity (base p)" using calculation assms(2,4) by simp
  ultimately show ?thesis using a assms(2,4) by (simp add: nth_append nth_tl)
qed

lemma priorities_misaligned_witness:
  "\<exists>p'. prioritized_add (demo_exp 3) demo_prioritized = Inr p' \<and>
     buf (base p') ! 0 = demo_exp 2 \<and> priorities p' ! 0 = 9 \<and> priorities demo_prioritized ! 1 = 1"
proof -
  obtain p' where p': "prioritized_add (demo_exp 3) demo_prioritized = Inr p'"
    by (simp add: prioritized_add_def demo_prioritized_def buffer_add_def Let_def)
  with priorities_misaligned [OF demo_prioritized_ok _ p', of 0] show ?thesis
    by (simp add: demo_prioritized_def)
qed

text \<open>
  Importance sampling: the probabilities are positive and add up to one, and whatever
  positions are drawn, the weights lie in \<open>(0, 1]\<close> with the largest equal to one; \<open>beta\<close>
  stays at most one and does not decrease.
\<close>

lemma importance_weights:
  assumes "priorities_ok p" and "buf (base p) \<noteq> []"
    and "choice (length (buf (base p))) k (probabilities p) = Inr ix" and "ix \<noteq> []"
    and "set ix \<subseteq> {..<length (buf (base p))}" and "pr_beta p \<le> 1" and "0 \<le> beta_increment p"
  shows "sum_list (probabilities p) = 1 \<and> (\<forall>x \<in> set (probabilities p). 0 < x) \<and>
    (\<exists>p' es ws. prioritized_sample choice k p = Inr (p', es, ix, ws) \<and>
      length es = length ix \<and> set es \<subseteq> set (buf (base p)) \<and> length ws = length ix \<and>
      (\<forall>w \<in> set ws. 0 < w \<and> w \<le> 1) \<and> 1 \<in> set ws \<and> pr_beta p \<le> pr_beta p' \<and> pr_beta p' \<le> 1)"
proof -
  note pr = probabilities_ok [OF assms(1,2)]
  define vs where "vs = map (\<lambda>i. np_pow (real (length (buf (base p))) * probabilities p ! i) (- pr_beta p)) ix"
  have "0 < probabilities p ! i" if "i \<in> set ix" for i
    using pr that assms(5) by (auto intro!: nth_mem)
  then have vs: "\<forall>v \<in> set vs. 0 < v" "vs \<noteq> []"
    using assms(2,4) np_pow_pos by (auto simp: vs_def)
  have M: "Max (set vs) \<in> set vs" "\<forall>v \<in> set vs. v \<le> Max (set vs)" using vs(2) by simp_all
  then have Mpos: "0 < Max (set vs)" using vs(1) by blast
  define ws where "ws = map (\<lambda>v. v / Max (set vs)) vs"
  have ws: "\<forall>w \<in> set ws. 0 < w \<and> w \<le> 1" using vs(1) M(2) Mpos by (auto simp: ws_def)
  have "Max (set vs) / Max (set vs) \<in> set ws" using M(1) by (auto simp: ws_def)
  then have one: "1 \<in> set ws" using Mpos by simp
  have "prioritized_sample choice k p =
      Inr (p\<lparr>pr_beta := min 1 (pr_beta p + beta_increment p)\<rparr>, map (\<lambda>i. buf (base p) ! i) ix, ix, ws)"
    using vs(2) assms(4) by (simp add: prioritized_sample_def assms(3) Let_def vs_def [symmetric] ws_def)
  moreover have "set (map (\<lambda>i. buf (base p) ! i) ix) \<subseteq> set (buf (base p))"
    using assms(5) by (auto intro!: nth_mem)
  moreover have "length ws = length ix" by (simp add: ws_def vs_def)
  ultimately show ?thesis using pr ws one assms(6,7) by auto
qed

lemma importance_weights_witness:
  "\<exists>p' es ws. prioritized_sample (\<lambda>n k ps. Inr [1]) 1 demo_prioritized = Inr (p', es, [1], ws) \<and>
     (\<forall>w \<in> set ws. 0 < w \<and> w \<le> 1) \<and> pr_beta p' \<le> 1"
proof -
  have "buf (base demo_prioritized) \<noteq> []" "set [1] \<subseteq> {..<length (buf (base demo_prioritized))}"
    "pr_beta demo_prioritized \<le> 1" "0 \<le> beta_increment demo_prioritized"
    by (simp_all add: demo_prioritized_def)
  from importance_weights [OF demo_prioritized_ok this(1), of "\<lambda>n k ps. Inr [1]" 1 "[1]",
      OF refl _ this(2-4)]
  show ?thesis by blast
qed

text \<open>
  The consumer keeps the latest experiences of the other agents: its own messages, broker
  errors and values that do not parse leave no trace, and the local buffer is not touched.
\<close>

lemma consumer_keeps_foreign:
  assumes "consumer_running s" and "length (received_buffer s) \<le> received_size s"
  shows "received_buffer (fold (consume decode) ms s) =
      window (received_size s) (received_buffer s @ foreign decode (rp_agent_id s) ms)"
  using consume_all [OF assms(1)] fold_deque_append [OF assms(2)] by simp

lemma consumer_keeps_foreign_witness:
  "received_buffer (fold (consume (\<lambda>v. Inr (demo_exp v)))
     [Received (Some [97]) 1, Received (Some [98]) 2, BrokerError, Received None 3] demo_replay) =
   [demo_exp 2, demo_exp 3]"
  using consumer_keeps_foreign [of demo_replay "\<lambda>v. Inr (demo_exp v)"
      "[Received (Some [97]) 1, Received (Some [98]) 2, BrokerError, Received None 3]"]
  by (simp add: demo_replay_def new_replay_def foreign_def window_def)

text \<open>
  A buffer that is stopped and started again polls the consumer it closed. The client documents
  that \<open>poll\<close> of a closed consumer raises (\<open>closed_polls\<close>); the loop logs that and goes on,
  so after a restart nothing is ever received again.
\<close>

definition closed_polls :: "('a, 'i, 'v) replay \<Rightarrow> 'v polled list \<Rightarrow> bool" where
  "closed_polls s ms \<longleftrightarrow> (consumer_closed s \<longrightarrow> set ms \<subseteq> {BrokerError})"

lemma restart_receives_nothing:
  assumes "consumer_made s"
  shows "let s' = start_consumer (stop_consumer s) in
    consumer_running s' \<and> consumer_closed s' \<and>
    (closed_polls s' ms \<longrightarrow> received_buffer (fold (consume decode) ms s') = received_buffer s)"
proof -
  define s' where "s' = start_consumer (stop_consumer s)"
  have s': "consumer_running s'" "consumer_closed s'" "received_buffer s' = received_buffer s"
    using assms by (simp_all add: s'_def start_consumer_def stop_consumer_def get_consumer_def Let_def)
  have "fold (consume decode) ms t = t" if "set ms \<subseteq> {BrokerError}" for t
    using that by (induction ms arbitrary: t) (auto simp: consume_def)
  with s' show ?thesis unfolding s'_def [symmetric] by (simp add: closed_polls_def)
qed

text \<open>
  The size of a sample from the shared buffer: half of the batch from the local
  experiences if there are that many and otherwise none, the rest from the received ones if
  there are that many and otherwise none; so a sample can be half empty or empty although the
  two buffers together hold more than the batch.
\<close>

lemma replay_sample_size:
  assumes "0 \<le> k"
  shows "\<exists>es. replay_sample ds1 ds2 k include_remote s = Inr es \<and>
    set es \<subseteq> set (buf (local_buffer s)) \<union> set (received_buffer s) \<and>
    int (length es) =
      (let L = int (buffer_len (local_buffer s)); R = int (length (received_buffer s)) in
       if include_remote \<and> 0 < R then
         let l = (if k div 2 \<le> L then k div 2 else 0) in l + (if k - l \<le> R then k - l else 0)
       else if k \<le> L then k else 0)"
proof -
  define remote where "remote \<longleftrightarrow> include_remote \<and> received_buffer s \<noteq> []"
  define c where "c = (if remote then k div 2 else k)"
  have c: "0 \<le> c" using assms by (simp add: c_def)
  have "\<exists>es. (if c \<le> int (buffer_len (local_buffer s)) then buffer_sample ds1 c (local_buffer s) else Inr []) = Inr es \<and>
      int (length es) = (if c \<le> int (buffer_len (local_buffer s)) then c else 0) \<and>
      set es \<subseteq> set (buf (local_buffer s))"
    using pick_ok [of c "buf (local_buffer s)" ds1] c by (auto simp: buffer_sample_def buffer_len_def)
  then obtain ls where ls:
    "(if c \<le> int (buffer_len (local_buffer s)) then buffer_sample ds1 c (local_buffer s) else Inr []) = Inr ls"
    "int (length ls) = (if c \<le> int (buffer_len (local_buffer s)) then c else 0)"
    "set ls \<subseteq> set (buf (local_buffer s))" by blast
  define r where "r = k - int (length ls)"
  have "0 \<le> r" using assms ls(2) by (auto simp: r_def c_def)
  then have "\<exists>rs. (if r \<le> int (length (received_buffer s)) then
        ebind (randint ds2 (length (received_buffer s)) r) (\<lambda>is. Inr (map (\<lambda>i. received_buffer s ! i) is))
      else Inr []) = Inr rs \<and>
      int (length rs) = (if r \<le> int (length (received_buffer s)) then r else 0) \<and>
      set rs \<subseteq> set (received_buffer s)"
    using pick_ok [of r "received_buffer s" ds2] by auto
  then obtain rs where rs: "(if r \<le> int (length (received_buffer s)) then
        ebind (randint ds2 (length (received_buffer s)) r) (\<lambda>is. Inr (map (\<lambda>i. received_buffer s ! i) is))
      else Inr []) = Inr rs"
    "int (length rs) = (if r \<le> int (length (received_buffer s)) then r else 0)"
    "set rs \<subseteq> set (received_buffer s)" by blast
  have "replay_sample ds1 ds2 k include_remote s = Inr (ls @ (if remote then rs else []))"
    unfolding replay_sample_def Let_def remote_def [symmetric] c_def [symmetric] ls(1) ebind_simps
      r_def [symmetric] rs(1) by simp
  then show ?thesis
    using ls(2,3) rs(2,3) by (auto simp: Let_def c_def r_def remote_def)
qed

lemma replay_sample_size_witness:
  "\<exists>es. replay_sample [] [] 4 True (demo_replay\<lparr>local_buffer := fold buffer_add [demo_exp 1, demo_exp 2] (new_buffer 9),
       received_buffer := [demo_exp 3]\<rparr>) = Inr es \<and> length es = 2"
  using replay_sample_size [of 4 "[]" "[]" True "demo_replay\<lparr>local_buffer := fold buffer_add
      [demo_exp 1, demo_exp 2] (new_buffer 9), received_buffer := [demo_exp 3]\<rparr>"]
  by (auto simp: buffer_len_def buffer_add_def new_buffer_def deque_append_def Let_def)

end
