(* ===== verification/Network.thy ===== *)
theory Network
  imports Prelude
begin

text \<open>
  \<open>training/networks.py\<close>: the policy, value and actor-critic networks over the layers of
  PyTorch the code uses (\<open>Linear\<close>, \<open>Sequential\<close>, the activations, the categorical and the
  normal distribution), and the conversion between a model's parameters or gradients and
  flat vectors. A parameter holds its entries in row-major order. Networks are applied to one
  observation; a batch is a list of observations, row by row. Random initial values, sampling
  from a distribution and the distribution function of the normal distribution (for \<open>GELU\<close>)
  are arguments. A matrix whose size does not fit raises \<open>RuntimeError\<close>.
\<close>

section \<open>Parameters and layers\<close>

record param =
  pm_shape :: "nat list"
  pm_data :: "real list"
  pm_grad :: "real list option"

definition numel :: "param \<Rightarrow> nat" where
  "numel p = prod_list (pm_shape p)"

definition new_param :: "nat list \<Rightarrow> real list \<Rightarrow> param" where
  "new_param shape xs = \<lparr>pm_shape = shape, pm_data = xs, pm_grad = None\<rparr>"

record linear =
  ln_weight :: param
  ln_bias :: param

datatype activation = Tanh | ReLU | ELU | GELU

datatype layer = Linear linear | Act activation

text \<open>The dictionaries of activations; an unknown name is \<open>tanh\<close>.\<close>

definition activation_of :: "pystr \<Rightarrow> activation" where
  "activation_of s =
     (if s = lit ''relu'' then ReLU else if s = lit ''elu'' then ELU
      else if s = lit ''gelu'' then GELU else Tanh)"

definition shared_activation_of :: "pystr \<Rightarrow> activation" where
  "shared_activation_of s = (if s = lit ''relu'' then ReLU else Tanh)"

fun activate :: "(real \<Rightarrow> real) \<Rightarrow> activation \<Rightarrow> real \<Rightarrow> real" where
  "activate Phi Tanh x = tanh x"
| "activate Phi ReLU x = max 0 x"
| "activate Phi ELU x = (if x > 0 then x else exp x - 1)"
| "activate Phi GELU x = x * Phi x"

definition dot :: "real list \<Rightarrow> real list \<Rightarrow> real" where
  "dot xs ys = sum_list (map2 (*) xs ys)"

text \<open>Row \<open>i\<close> of a matrix of \<open>n\<close> columns.\<close>

definition row :: "nat \<Rightarrow> real list \<Rightarrow> nat \<Rightarrow> real list" where
  "row n xs i = take n (drop (i * n) xs)"

definition linear_forward :: "linear \<Rightarrow> real list \<Rightarrow> real list result" where
  "linear_forward l x =
     (case pm_shape (ln_weight l) of
        [m, n] \<Rightarrow>
          (if length x = n
           then Inr (map2 (+) (map (\<lambda>i. dot (row n (pm_data (ln_weight l)) i) x) [0..<m]) (pm_data (ln_bias l)))
           else Inl RuntimeError)
      | _ \<Rightarrow> Inl RuntimeError)"

fun layer_forward :: "(real \<Rightarrow> real) \<Rightarrow> layer \<Rightarrow> real list \<Rightarrow> real list result" where
  "layer_forward Phi (Linear l) x = linear_forward l x"
| "layer_forward Phi (Act a) x = Inr (map (activate Phi a) x)"

text \<open>\<open>nn.Sequential\<close>.\<close>

fun sequential :: "(real \<Rightarrow> real) \<Rightarrow> layer list \<Rightarrow> real list \<Rightarrow> real list result" where
  "sequential Phi [] x = Inr x"
| "sequential Phi (l # ls) x = ebind (layer_forward Phi l x) (sequential Phi ls)"

section \<open>Construction and initialisation\<close>

text \<open>
  \<open>fresh n m\<close> are the random weights and biases \<open>nn.Linear(n, m)\<close> starts with, \<open>orth i g m n\<close>
  is the matrix the \<open>i\<close>-th call of \<open>nn.init.orthogonal_\<close> writes, with gain \<open>g\<close>.
\<close>

type_synonym fresh_init = "nat \<Rightarrow> nat \<Rightarrow> real list \<times> real list"
type_synonym orth_init = "nat \<Rightarrow> real \<Rightarrow> nat \<Rightarrow> nat \<Rightarrow> real list"

definition new_linear :: "fresh_init \<Rightarrow> nat \<Rightarrow> nat \<Rightarrow> linear" where
  "new_linear fresh n m =
     \<lparr>ln_weight = new_param [m, n] (fst (fresh n m)), ln_bias = new_param [m] (snd (fresh n m))\<rparr>"

text \<open>\<open>orthogonal_\<close> on the weight and \<open>constant_(bias, 0)\<close>.\<close>

definition init_linear :: "orth_init \<Rightarrow> nat \<Rightarrow> real \<Rightarrow> linear \<Rightarrow> linear" where
  "init_linear orth i gain l =
     (let w = ln_weight l; b = ln_bias l in
      \<lparr>ln_weight = w\<lparr>pm_data := orth i gain (pm_shape w ! 0) (pm_shape w ! 1)\<rparr>,
       ln_bias = b\<lparr>pm_data := replicate (numel b) 0\<rparr>\<rparr>)"

fun init_layers :: "orth_init \<Rightarrow> nat \<Rightarrow> real \<Rightarrow> layer list \<Rightarrow> layer list" where
  "init_layers orth i gain [] = []"
| "init_layers orth i gain (Linear l # ls) = Linear (init_linear orth i gain l) # init_layers orth (i + 1) gain ls"
| "init_layers orth i gain (Act a # ls) = Act a # init_layers orth i gain ls"

text \<open>The loop over \<open>hidden_dims\<close>.\<close>

fun hidden_layers :: "fresh_init \<Rightarrow> activation \<Rightarrow> nat \<Rightarrow> nat list \<Rightarrow> layer list" where
  "hidden_layers fresh a n [] = []"
| "hidden_layers fresh a n (h # hs) = Linear (new_linear fresh n h) # Act a # hidden_layers fresh a h hs"

record policy =
  pn_continuous :: bool
  pn_backbone :: "layer list"
  pn_head :: linear
  pn_log_std :: "param option"

text \<open>
  \<open>_init_weights\<close> goes through the linear layers in the order of their registration and then
  writes the head once more.
\<close>

definition new_policy ::
  "fresh_init \<Rightarrow> orth_init \<Rightarrow> nat \<Rightarrow> nat \<Rightarrow> nat \<Rightarrow> nat list \<Rightarrow> bool \<Rightarrow> real \<Rightarrow> pystr \<Rightarrow> policy" where
  "new_policy fresh orth i obs_dim action_dim hidden_dims is_cont log_std_init act =
     (let layers = hidden_layers fresh (activation_of act) obs_dim hidden_dims;
          k = i + length hidden_dims;
          head = init_linear orth k (sqrt 2) (new_linear fresh (last (obs_dim # hidden_dims)) action_dim)
      in \<lparr>pn_continuous = is_cont,
          pn_backbone = init_layers orth i (sqrt 2) layers,
          pn_head = init_linear orth (k + 1) (1 / 100) head,
          pn_log_std = (if is_cont then Some (new_param [action_dim] (replicate action_dim log_std_init))
                        else None)\<rparr>)"

record value_net =
  vn_layers :: "layer list"
  vn_final :: linear

definition new_value_net :: "fresh_init \<Rightarrow> orth_init \<Rightarrow> nat \<Rightarrow> nat \<Rightarrow> nat list \<Rightarrow> pystr \<Rightarrow> value_net" where
  "new_value_net fresh orth i obs_dim hidden_dims act =
     (let layers = hidden_layers fresh (activation_of act) obs_dim hidden_dims;
          k = i + length hidden_dims;
          final = init_linear orth k (sqrt 2) (new_linear fresh (last (obs_dim # hidden_dims)) 1)
      in \<lparr>vn_layers = init_layers orth i (sqrt 2) layers, vn_final = init_linear orth (k + 1) 1 final\<rparr>)"

record actor_critic =
  ac_continuous :: bool
  ac_backbone :: "layer list option"
  ac_policy :: policy
  ac_value :: value_net

text \<open>
  The shared backbone keeps its initial values: only the two heads initialise their weights.
  \<open>hidden_dims[-1]\<close> of an empty list raises.
\<close>

definition new_actor_critic ::
  "fresh_init \<Rightarrow> orth_init \<Rightarrow> nat \<Rightarrow> nat \<Rightarrow> nat list \<Rightarrow> bool \<Rightarrow> bool \<Rightarrow> pystr \<Rightarrow> actor_critic result" where
  "new_actor_critic fresh orth obs_dim action_dim hidden_dims is_cont shared act =
     (if shared then
        (if hidden_dims = [] then Inl IndexError
         else
           let dims = butlast hidden_dims; in_dim = last (obs_dim # dims); h = last hidden_dims in
           Inr \<lparr>ac_continuous = is_cont,
                ac_backbone = Some (hidden_layers fresh (shared_activation_of act) obs_dim dims),
                ac_policy = new_policy fresh orth 0 in_dim action_dim [h] is_cont 0 (lit ''tanh''),
                ac_value = new_value_net fresh orth 3 in_dim [h] (lit ''tanh'')\<rparr>)
      else
        Inr \<lparr>ac_continuous = is_cont, ac_backbone = None,
             ac_policy = new_policy fresh orth 0 obs_dim action_dim hidden_dims is_cont 0 (lit ''tanh''),
             ac_value = new_value_net fresh orth (length hidden_dims + 2) obs_dim hidden_dims (lit ''tanh'')\<rparr>)"

section \<open>Distributions\<close>

datatype action = Discrete nat | Continuous "real list"

datatype dist = Normal "real list" "real list" | Categorical "real list"

definition log_sum_exps :: "real list \<Rightarrow> real" where
  "log_sum_exps xs = ln (\<Sum>x\<leftarrow>xs. exp x)"

definition action_probs :: "real list \<Rightarrow> real list" where
  "action_probs logits = map (\<lambda>x. exp (x - log_sum_exps logits)) logits"

text \<open>\<open>argmax\<close>: the first index of a largest entry.\<close>

definition argmax :: "real list \<Rightarrow> nat" where
  "argmax xs = length (takeWhile (\<lambda>x. x \<noteq> Max (set xs)) xs)"

definition normal_log_prob :: "real \<Rightarrow> real \<Rightarrow> real \<Rightarrow> real" where
  "normal_log_prob mu std x = - (x - mu)\<^sup>2 / (2 * std\<^sup>2) - ln std - ln (sqrt (2 * pi))"

text \<open>\<open>log_prob\<close>, summed over the components of a continuous action.\<close>

fun dist_log_prob :: "dist \<Rightarrow> action \<Rightarrow> real result" where
  "dist_log_prob (Categorical logits) (Discrete i) =
     (if i < length logits then Inr (logits ! i - log_sum_exps logits) else Inl RuntimeError)"
| "dist_log_prob (Normal mean std) (Continuous xs) =
     (if length xs = length mean
      then Inr (sum_list (map (\<lambda>(m, s, x). normal_log_prob m s x) (zip mean (zip std xs))))
      else Inl RuntimeError)"
| "dist_log_prob _ _ = Inl TypeError"

fun dist_entropy :: "dist \<Rightarrow> real" where
  "dist_entropy (Categorical logits) =
     - (\<Sum>x\<leftarrow>logits. exp (x - log_sum_exps logits) * (x - log_sum_exps logits))"
| "dist_entropy (Normal mean std) = (\<Sum>s\<leftarrow>std. 1 / 2 + ln (2 * pi) / 2 + ln s)"

fun best_action :: "dist \<Rightarrow> action" where
  "best_action (Normal mean std) = Continuous mean"
| "best_action (Categorical logits) = Discrete (argmax (action_probs logits))"

section \<open>Forward passes\<close>

definition policy_forward :: "(real \<Rightarrow> real) \<Rightarrow> policy \<Rightarrow> real list \<Rightarrow> (real list \<times> real list option) result" where
  "policy_forward Phi p x =
     ebind (sequential Phi (pn_backbone p) x) (\<lambda>features.
     ebind (linear_forward (pn_head p) features) (\<lambda>out.
     Inr (out, map_option pm_data (pn_log_std p))))"

definition get_distribution :: "(real \<Rightarrow> real) \<Rightarrow> policy \<Rightarrow> real list \<Rightarrow> dist result" where
  "get_distribution Phi p x =
     ebind (policy_forward Phi p x) (\<lambda>(out, log_std).
     Inr (case log_std of Some s \<Rightarrow> Normal out (map exp s) | None \<Rightarrow> Categorical out))"

text \<open>\<open>smp\<close> is \<open>dist.sample()\<close>.\<close>

definition get_action ::
  "(real \<Rightarrow> real) \<Rightarrow> (dist \<Rightarrow> action) \<Rightarrow> policy \<Rightarrow> real list \<Rightarrow> bool \<Rightarrow> (action \<times> real) result" where
  "get_action Phi smp p x deterministic =
     ebind (get_distribution Phi p x) (\<lambda>d.
     let a = (if deterministic then best_action d else smp d) in
     ebind (dist_log_prob d a) (\<lambda>lp. Inr (a, lp)))"

definition evaluate_actions :: "(real \<Rightarrow> real) \<Rightarrow> policy \<Rightarrow> real list \<Rightarrow> action \<Rightarrow> (real \<times> real) result" where
  "evaluate_actions Phi p x a =
     ebind (get_distribution Phi p x) (\<lambda>d.
     ebind (dist_log_prob d a) (\<lambda>lp. Inr (lp, dist_entropy d)))"

text \<open>\<open>squeeze(-1)\<close> takes the only entry.\<close>

definition value_forward :: "(real \<Rightarrow> real) \<Rightarrow> value_net \<Rightarrow> real list \<Rightarrow> real result" where
  "value_forward Phi v x =
     ebind (sequential Phi (vn_layers v @ [Linear (vn_final v)]) x) (\<lambda>out. Inr (hd out))"

definition ac_forward :: "(real \<Rightarrow> real) \<Rightarrow> actor_critic \<Rightarrow> real list \<Rightarrow> (dist \<times> real) result" where
  "ac_forward Phi m x =
     ebind (case ac_backbone m of Some ls \<Rightarrow> sequential Phi ls x | None \<Rightarrow> Inr x) (\<lambda>features.
     ebind (get_distribution Phi (ac_policy m) features) (\<lambda>d.
     ebind (value_forward Phi (ac_value m) features) (\<lambda>v. Inr (d, v))))"

definition get_action_and_value ::
  "(real \<Rightarrow> real) \<Rightarrow> (dist \<Rightarrow> action) \<Rightarrow> actor_critic \<Rightarrow> real list \<Rightarrow> action option \<Rightarrow> bool \<Rightarrow>
     (action \<times> real \<times> real \<times> real) result"
where
  "get_action_and_value Phi smp m x given deterministic =
     ebind (ac_forward Phi m x) (\<lambda>(d, v).
     let a = (case given of Some a \<Rightarrow> a | None \<Rightarrow> if deterministic then best_action d else smp d) in
     ebind (dist_log_prob d a) (\<lambda>lp. Inr (a, v, lp, dist_entropy d)))"

section \<open>Parameters of a model\<close>

text \<open>\<open>model.parameters()\<close>: a module's own parameters before those of its children.\<close>

fun layer_params :: "layer list \<Rightarrow> param list" where
  "layer_params [] = []"
| "layer_params (Linear l # ls) = ln_weight l # ln_bias l # layer_params ls"
| "layer_params (Act a # ls) = layer_params ls"

definition policy_params :: "policy \<Rightarrow> param list" where
  "policy_params p =
     (case pn_log_std p of Some s \<Rightarrow> [s] | None \<Rightarrow> []) @ layer_params (pn_backbone p @ [Linear (pn_head p)])"

definition value_params :: "value_net \<Rightarrow> param list" where
  "value_params v = layer_params (vn_layers v @ [Linear (vn_final v)])"

definition parameters :: "actor_critic \<Rightarrow> param list" where
  "parameters m =
     (case ac_backbone m of Some ls \<Rightarrow> layer_params ls | None \<Rightarrow> [])
       @ policy_params (ac_policy m) @ value_params (ac_value m)"

text \<open>
  Writing parameters back: the code assigns to the parameter objects of the model, here the
  model is rebuilt with the new ones, in the same order.
\<close>

fun put_layers :: "layer list \<Rightarrow> param list \<Rightarrow> layer list \<times> param list" where
  "put_layers (Linear l # ls) (w # b # ps) =
     (let (ls', rest) = put_layers ls ps in (Linear \<lparr>ln_weight = w, ln_bias = b\<rparr> # ls', rest))"
| "put_layers (Act a # ls) ps = (let (ls', rest) = put_layers ls ps in (Act a # ls', rest))"
| "put_layers ls ps = (ls, ps)"

definition put_linear :: "linear \<Rightarrow> param list \<Rightarrow> linear \<times> param list" where
  "put_linear l ps =
     (case ps of w # b # rest \<Rightarrow> (\<lparr>ln_weight = w, ln_bias = b\<rparr>, rest) | _ \<Rightarrow> (l, ps))"

definition put_policy :: "policy \<Rightarrow> param list \<Rightarrow> policy \<times> param list" where
  "put_policy p ps =
     (let (s, ps1) = (case (pn_log_std p, ps) of (Some _, q # qs) \<Rightarrow> (Some q, qs) | (s, qs) \<Rightarrow> (s, qs));
          (ls, ps2) = put_layers (pn_backbone p) ps1;
          (h, ps3) = put_linear (pn_head p) ps2
      in (p\<lparr>pn_log_std := s, pn_backbone := ls, pn_head := h\<rparr>, ps3))"

definition put_value :: "value_net \<Rightarrow> param list \<Rightarrow> value_net \<times> param list" where
  "put_value v ps =
     (let (ls, ps1) = put_layers (vn_layers v) ps; (f, ps2) = put_linear (vn_final v) ps1
      in (v\<lparr>vn_layers := ls, vn_final := f\<rparr>, ps2))"

definition put_parameters :: "actor_critic \<Rightarrow> param list \<Rightarrow> actor_critic" where
  "put_parameters m ps =
     (let (bb, ps1) = (case ac_backbone m of
                         Some ls \<Rightarrow> (let (ls', r) = put_layers ls ps in (Some ls', r))
                       | None \<Rightarrow> (None, ps));
          (p, ps2) = put_policy (ac_policy m) ps1;
          (v, ps3) = put_value (ac_value m) ps2
      in m\<lparr>ac_backbone := bb, ac_policy := p, ac_value := v\<rparr>)"

section \<open>Flat vectors\<close>

text \<open>Parameters without a gradient are skipped; with none the array is empty.\<close>

fun grads_of :: "param list \<Rightarrow> real list" where
  "grads_of [] = []"
| "grads_of (p # ps) = (case pm_grad p of Some g \<Rightarrow> g | None \<Rightarrow> []) @ grads_of ps"

definition get_gradient_vector :: "actor_critic \<Rightarrow> real list" where
  "get_gradient_vector m = grads_of (parameters m)"

text \<open>A slice that is too short cannot be reshaped (\<open>ValueError\<close>); what is left over is ignored.\<close>

fun put_grads :: "real list \<Rightarrow> nat \<Rightarrow> param list \<Rightarrow> param list result" where
  "put_grads g off [] = Inr []"
| "put_grads g off (p # ps) =
     (if pm_grad p \<noteq> None then
        let chunk = take (numel p) (drop off g) in
        if length chunk = numel p
        then ebind (put_grads g (off + numel p) ps) (\<lambda>qs. Inr (p\<lparr>pm_grad := Some chunk\<rparr> # qs))
        else Inl ValueError
      else ebind (put_grads g off ps) (\<lambda>qs. Inr (p # qs)))"

definition set_gradient_vector :: "actor_critic \<Rightarrow> real list \<Rightarrow> actor_critic result" where
  "set_gradient_vector m g = ebind (put_grads g 0 (parameters m)) (\<lambda>ps. Inr (put_parameters m ps))"

text \<open>\<open>np.concatenate\<close> of no arrays would raise, but a network always has parameters.\<close>

definition get_parameter_vector :: "actor_critic \<Rightarrow> real list" where
  "get_parameter_vector m = concat (map pm_data (parameters m))"

fun put_data :: "real list \<Rightarrow> nat \<Rightarrow> param list \<Rightarrow> param list result" where
  "put_data v off [] = Inr []"
| "put_data v off (p # ps) =
     (let chunk = take (numel p) (drop off v) in
      if length chunk = numel p
      then ebind (put_data v (off + numel p) ps) (\<lambda>qs. Inr (p\<lparr>pm_data := chunk\<rparr> # qs))
      else Inl ValueError)"

definition set_parameter_vector :: "actor_critic \<Rightarrow> real list \<Rightarrow> actor_critic result" where
  "set_parameter_vector m v = ebind (put_data v 0 (parameters m)) (\<lambda>ps. Inr (put_parameters m ps))"

end
