(* ===== verification/Network_Props.thy ===== *)
theory Network_Props
  imports Network
begin

text \<open>
  Networks: the shapes of what the constructor builds and of what a forward pass returns, the
  policy as a probability distribution, and the round trips between a model and its flat
  vectors, proved in a locale for anything that holds parameters.
\<close>

section \<open>Flat vectors\<close>

definition grad_size :: "param list \<Rightarrow> nat" where
  "grad_size ps = (\<Sum>p\<leftarrow>ps. if pm_grad p = None then 0 else numel p)"

definition data_size :: "param list \<Rightarrow> nat" where
  "data_size ps = (\<Sum>p\<leftarrow>ps. numel p)"

definition param_ok :: "param \<Rightarrow> bool" where
  "param_ok p \<longleftrightarrow> length (pm_data p) = numel p \<and> (\<forall>g. pm_grad p = Some g \<longrightarrow> length g = numel p)"

lemma sizes_simps [simp]:
  "grad_size [] = 0"
  "grad_size (p # ps) = (if pm_grad p = None then 0 else numel p) + grad_size ps"
  "data_size [] = 0"
  "data_size (p # ps) = numel p + data_size ps"
  by (simp_all add: grad_size_def data_size_def)

lemma numel_update [simp]:
  "numel (p\<lparr>pm_grad := g\<rparr>) = numel p" "numel (p\<lparr>pm_data := d\<rparr>) = numel p"
  by (simp_all add: numel_def)

lemma put_grads_long:
  "off + grad_size ps \<le> length g \<Longrightarrow> \<exists>qs. put_grads g off ps = Inr qs \<and> length qs = length ps \<and>
     grads_of qs = take (grad_size ps) (drop off g) \<and> map pm_data qs = map pm_data ps"
proof (induction ps arbitrary: off)
  case (Cons p ps)
  then show ?case
  proof (cases "pm_grad p")
    case None
    with Cons.IH [of off] Cons.prems show ?thesis by auto
  next
    case (Some h)
    with Cons.prems have "off + numel p + grad_size ps \<le> length g" by simp
    from Cons.IH [OF this] obtain qs where qs: "put_grads g (off + numel p) ps = Inr qs"
      "length qs = length ps" "grads_of qs = take (grad_size ps) (drop (off + numel p) g)"
      "map pm_data qs = map pm_data ps" by auto
    have "take (numel p) (drop off g) @ take (grad_size ps) (drop (off + numel p) g) =
        take (numel p + grad_size ps) (drop off g)"
      by (simp add: take_add add.commute)
    with Some Cons.prems qs show ?thesis by (simp add: Let_def)
  qed
qed simp

lemma put_grads_short:
  "off \<le> length g \<Longrightarrow> length g < off + grad_size ps \<Longrightarrow> put_grads g off ps = Inl ValueError"
proof (induction ps arbitrary: off)
  case (Cons p ps)
  then show ?case
  proof (cases "pm_grad p = None \<or> length g < off + numel p")
    case False
    then have "put_grads g (off + numel p) ps = Inl ValueError"
      using Cons.prems by (intro Cons.IH) auto
    with False show ?thesis by (simp add: Let_def)
  qed (auto simp: Let_def)
qed simp

lemma put_grads_same:
  "\<forall>p \<in> set ps. param_ok p \<Longrightarrow> put_grads (xs @ grads_of ps @ ys) (length xs) ps = Inr ps"
proof (induction ps arbitrary: xs)
  case (Cons p ps)
  show ?case
  proof (cases "pm_grad p")
    case None
    with Cons show ?thesis by simp
  next
    case (Some h)
    then have "length h = numel p" using Cons.prems by (simp add: param_ok_def)
    with Cons.IH [of "xs @ h"] Cons.prems Some show ?thesis by (simp add: Let_def)
  qed
qed simp

lemma grads_length: "\<forall>p \<in> set ps. param_ok p \<Longrightarrow> length (grads_of ps) = grad_size ps"
  by (induction ps) (auto simp: param_ok_def split: option.split)

lemma put_data_long:
  "off + data_size ps \<le> length v \<Longrightarrow> \<exists>qs. put_data v off ps = Inr qs \<and> length qs = length ps \<and>
     concat (map pm_data qs) = take (data_size ps) (drop off v) \<and> map pm_grad qs = map pm_grad ps"
proof (induction ps arbitrary: off)
  case (Cons p ps)
  then have "off + numel p + data_size ps \<le> length v" by simp
  from Cons.IH [OF this] obtain qs where qs: "put_data v (off + numel p) ps = Inr qs"
    "length qs = length ps" "concat (map pm_data qs) = take (data_size ps) (drop (off + numel p) v)"
    "map pm_grad qs = map pm_grad ps" by auto
  have "take (numel p) (drop off v) @ take (data_size ps) (drop (off + numel p) v) =
      take (numel p + data_size ps) (drop off v)"
    by (simp add: take_add add.commute)
  with Cons.prems qs show ?case by (simp add: Let_def)
qed simp

lemma put_data_short:
  "off \<le> length v \<Longrightarrow> length v < off + data_size ps \<Longrightarrow> put_data v off ps = Inl ValueError"
proof (induction ps arbitrary: off)
  case (Cons p ps)
  then show ?case
  proof (cases "length v < off + numel p")
    case False
    then have "put_data v (off + numel p) ps = Inl ValueError"
      using Cons.prems by (intro Cons.IH) auto
    with False show ?thesis by (simp add: Let_def)
  qed (auto simp: Let_def)
qed simp

lemma put_data_same:
  "\<forall>p \<in> set ps. param_ok p \<Longrightarrow> put_data (xs @ concat (map pm_data ps) @ ys) (length xs) ps = Inr ps"
proof (induction ps arbitrary: xs)
  case (Cons p ps)
  then have "length (pm_data p) = numel p" by (simp add: param_ok_def)
  with Cons.IH [of "xs @ pm_data p"] Cons.prems show ?case by (simp add: Let_def)
qed simp

lemma data_length: "\<forall>p \<in> set ps. param_ok p \<Longrightarrow> length (concat (map pm_data ps)) = data_size ps"
  by (induction ps) (auto simp: param_ok_def)

section \<open>Anything that holds parameters\<close>

text \<open>
  The interface of a module: its parameters in their order, and writing them back. The
  parameters written are the parameters read, and writing back what was read changes nothing.
\<close>

locale parameter_holder =
  fixes params :: "'m \<Rightarrow> param list" and put :: "'m \<Rightarrow> param list \<Rightarrow> 'm"
  assumes put_params: "put m (params m) = m"
    and params_put: "length ps = length (params m) \<Longrightarrow> params (put m ps) = ps"
begin

lemma gradients_same:
  "\<forall>p \<in> set (params m). param_ok p \<Longrightarrow>
     ebind (put_grads (grads_of (params m)) 0 (params m)) (\<lambda>ps. Inr (put m ps)) = Inr m"
  using put_grads_same [of "params m" "[]" "[]"] by (simp add: put_params)

lemma gradients_set:
  assumes "grad_size (params m) \<le> length g"
  shows "\<exists>m'. ebind (put_grads g 0 (params m)) (\<lambda>ps. Inr (put m ps)) = Inr m' \<and>
    grads_of (params m') = take (grad_size (params m)) g \<and> map pm_data (params m') = map pm_data (params m)"
  using put_grads_long [of 0 "params m" g] assms params_put by fastforce

lemma data_same:
  "\<forall>p \<in> set (params m). param_ok p \<Longrightarrow>
     ebind (put_data (concat (map pm_data (params m))) 0 (params m)) (\<lambda>ps. Inr (put m ps)) = Inr m"
  using put_data_same [of "params m" "[]" "[]"] by (simp add: put_params)

lemma data_set:
  assumes "data_size (params m) \<le> length v"
  shows "\<exists>m'. ebind (put_data v 0 (params m)) (\<lambda>ps. Inr (put m ps)) = Inr m' \<and>
    concat (map pm_data (params m')) = take (data_size (params m)) v \<and>
    map pm_grad (params m') = map pm_grad (params m)"
  using put_data_long [of 0 "params m" v] assms params_put by fastforce

end

lemma put_layers_same: "put_layers ls (layer_params ls @ qs) = (ls, qs)"
  by (induction ls rule: layer_params.induct) (simp_all add: Let_def)

lemma put_layers_params:
  "length ps = length (layer_params ls) \<Longrightarrow>
     snd (put_layers ls (ps @ qs)) = qs \<and> layer_params (fst (put_layers ls (ps @ qs))) = ps"
proof (induction ls arbitrary: ps rule: layer_params.induct)
  case (2 l ls)
  then obtain w b rest where ps: "ps = w # b # rest" "length rest = length (layer_params ls)"
    by (auto simp: length_Suc_conv)
  with "2.IH" [of rest] show ?case by (simp add: case_prod_beta)
qed (simp_all add: case_prod_beta)

lemma layer_params_append: "layer_params (ls @ ms) = layer_params ls @ layer_params ms"
  by (induction ls rule: layer_params.induct) simp_all

lemma split_at_length:
  assumes "length ps = n + m"
  obtains xs ys where "ps = xs @ ys" "length xs = n" "length ys = m"
  using assms that [of "take n ps" "drop n ps"] by simp

lemma put_policy_same: "put_policy p (policy_params p @ qs) = (p, qs)"
  by (cases "pn_log_std p")
    (simp_all add: put_policy_def policy_params_def layer_params_append put_layers_same put_linear_def)

lemma put_value_same: "put_value v (value_params v @ qs) = (v, qs)"
  by (simp add: put_value_def value_params_def layer_params_append put_layers_same put_linear_def)

text \<open>The pieces of a list of parameters of a policy and of a value network.\<close>

lemma policy_pieces:
  assumes "length ps = length (policy_params p)"
  obtains ss ls w b where "ps = ss @ ls @ [w, b]" "length ss = (if pn_log_std p = None then 0 else 1)"
    "length ls = length (layer_params (pn_backbone p))"
proof -
  let ?k = "if pn_log_std p = None then 0 else (1::nat)"
  have "length ps = ?k + (length (layer_params (pn_backbone p)) + 2)"
    using assms by (auto simp: policy_params_def layer_params_append split: option.splits)
  then obtain ss rest where 1: "ps = ss @ rest" "length ss = ?k"
    "length rest = length (layer_params (pn_backbone p)) + 2" by (rule split_at_length)
  from 1(3) obtain ls hs where 2: "rest = ls @ hs"
    "length ls = length (layer_params (pn_backbone p))" "length hs = 2" by (rule split_at_length)
  from 2(3) obtain w b where "hs = [w, b]" by (auto simp: length_Suc_conv numeral_2_eq_2)
  with 1 2 show thesis by (intro that [of ss ls w b]) simp_all
qed

lemma put_policy_params:
  assumes "length ps = length (policy_params p)"
  shows "snd (put_policy p (ps @ qs)) = qs \<and> policy_params (fst (put_policy p (ps @ qs))) = ps"
proof -
  obtain ss ls w b where ps: "ps = ss @ ls @ [w, b]" "length ss = (if pn_log_std p = None then 0 else 1)"
    "length ls = length (layer_params (pn_backbone p))"
    using policy_pieces [OF assms] by blast
  show ?thesis
  proof (cases "pn_log_std p")
    case None
    with ps put_layers_params [OF ps(3), of "[w, b] @ qs"] show ?thesis
      by (simp add: put_policy_def put_linear_def policy_params_def layer_params_append case_prod_beta)
  next
    case (Some s)
    with ps obtain t where "ss = [t]" by (auto simp: length_Suc_conv)
    with Some ps put_layers_params [OF ps(3), of "[w, b] @ qs"] show ?thesis
      by (simp add: put_policy_def put_linear_def policy_params_def layer_params_append case_prod_beta)
  qed
qed

lemma put_value_params:
  assumes "length ps = length (value_params v)"
  shows "snd (put_value v (ps @ qs)) = qs \<and> value_params (fst (put_value v (ps @ qs))) = ps"
proof -
  have "length ps = length (layer_params (vn_layers v)) + 2"
    using assms by (simp add: value_params_def layer_params_append)
  then obtain ls hs where ps: "ps = ls @ hs" "length ls = length (layer_params (vn_layers v))" "length hs = 2"
    by (rule split_at_length)
  then obtain w b where hs: "hs = [w, b]" by (auto simp: length_Suc_conv numeral_2_eq_2)
  with ps put_layers_params [OF ps(2), of "[w, b] @ qs"] show ?thesis
    by (simp add: put_value_def put_linear_def value_params_def layer_params_append case_prod_beta)
qed

lemma put_parameters_same: "put_parameters m (parameters m) = m"
  using put_value_same [of "ac_value m" "[]"]
  by (cases "ac_backbone m")
    (simp_all add: put_parameters_def parameters_def put_layers_same put_policy_same)

lemma model_pieces:
  assumes "length ps = length (parameters m)"
  obtains bs xs ys where "ps = bs @ xs @ ys"
    "length bs = length (case ac_backbone m of Some ls \<Rightarrow> layer_params ls | None \<Rightarrow> [])"
    "length xs = length (policy_params (ac_policy m))" "length ys = length (value_params (ac_value m))"
proof -
  let ?b = "case ac_backbone m of Some ls \<Rightarrow> layer_params ls | None \<Rightarrow> []"
  have "length ps = length ?b + (length (policy_params (ac_policy m)) + length (value_params (ac_value m)))"
    using assms by (simp add: parameters_def)
  then obtain bs rest where 1: "ps = bs @ rest" "length bs = length ?b"
    "length rest = length (policy_params (ac_policy m)) + length (value_params (ac_value m))"
    by (rule split_at_length)
  from 1(3) obtain xs ys where "rest = xs @ ys"
    "length xs = length (policy_params (ac_policy m))" "length ys = length (value_params (ac_value m))"
    by (rule split_at_length)
  with 1 show thesis by (intro that [of bs xs ys]) simp_all
qed

lemma parameters_put:
  assumes "length ps = length (parameters m)"
  shows "parameters (put_parameters m ps) = ps"
proof -
  obtain bs xs ys where ps: "ps = bs @ xs @ ys"
    "length bs = length (case ac_backbone m of Some ls \<Rightarrow> layer_params ls | None \<Rightarrow> [])"
    "length xs = length (policy_params (ac_policy m))" "length ys = length (value_params (ac_value m))"
    using model_pieces [OF assms] by blast
  note parts = put_policy_params [OF ps(3), of ys] put_value_params [OF ps(4), of "[]"]
  show ?thesis
  proof (cases "ac_backbone m")
    case None
    with ps parts show ?thesis by (simp add: put_parameters_def parameters_def case_prod_beta)
  next
    case (Some ls)
    with ps parts put_layers_params [of bs ls "xs @ ys"] show ?thesis
      by (simp add: put_parameters_def parameters_def case_prod_beta)
  qed
qed

interpretation ac: parameter_holder parameters put_parameters
  by unfold_locales (simp_all add: put_parameters_same parameters_put)

section \<open>Shapes\<close>

definition linear_ok :: "nat \<Rightarrow> nat \<Rightarrow> linear \<Rightarrow> bool" where
  "linear_ok n m l \<longleftrightarrow>
     pm_shape (ln_weight l) = [m, n] \<and> length (pm_data (ln_weight l)) = m * n \<and>
     pm_shape (ln_bias l) = [m] \<and> length (pm_data (ln_bias l)) = m"

text \<open>A stack of layers from \<open>n\<close> inputs to \<open>m\<close> outputs.\<close>

fun layers_ok :: "nat \<Rightarrow> layer list \<Rightarrow> nat \<Rightarrow> bool" where
  "layers_ok n [] m \<longleftrightarrow> n = m"
| "layers_ok n (Act a # ls) m \<longleftrightarrow> layers_ok n ls m"
| "layers_ok n (Linear l # ls) m \<longleftrightarrow>
     linear_ok n (hd (pm_shape (ln_bias l))) l \<and> layers_ok (hd (pm_shape (ln_bias l))) ls m"

fun mlp_size :: "nat \<Rightarrow> nat list \<Rightarrow> nat" where
  "mlp_size n [] = 0"
| "mlp_size n (h # hs) = (n + 1) * h + mlp_size h hs"

definition orth_ok :: "orth_init \<Rightarrow> bool" where
  "orth_ok orth \<longleftrightarrow> (\<forall>i g m n. length (orth i g m n) = m * n)"

definition fresh_ok :: "fresh_init \<Rightarrow> bool" where
  "fresh_ok fresh \<longleftrightarrow> (\<forall>n m. length (fst (fresh n m)) = m * n \<and> length (snd (fresh n m)) = m)"

lemma linear_forward_fits:
  "linear_ok n m l \<Longrightarrow> length x = n \<Longrightarrow> \<exists>y. linear_forward l x = Inr y \<and> length y = m"
  by (simp add: linear_ok_def linear_forward_def)

lemma linear_forward_misfit: "linear_ok n m l \<Longrightarrow> length x \<noteq> n \<Longrightarrow> linear_forward l x = Inl RuntimeError"
  by (simp add: linear_ok_def linear_forward_def)

lemma linear_ok_bias: "linear_ok n m l \<Longrightarrow> hd (pm_shape (ln_bias l)) = m"
  by (simp add: linear_ok_def)

lemma sequential_fits:
  "layers_ok n ls m \<Longrightarrow> length x = n \<Longrightarrow> \<exists>y. sequential Phi ls x = Inr y \<and> length y = m"
proof (induction ls arbitrary: n x rule: layer_params.induct)
  case (2 l ls)
  then obtain y where "linear_forward l x = Inr y" "length y = hd (pm_shape (ln_bias l))"
    using linear_forward_fits by fastforce
  with "2.IH" [of "hd (pm_shape (ln_bias l))" y] "2.prems" show ?case by simp
qed simp_all

lemma sequential_misfit:
  "layers_ok n ls m \<Longrightarrow> length x \<noteq> n \<Longrightarrow>
     sequential Phi ls x = Inl RuntimeError \<or> (\<exists>y. sequential Phi ls x = Inr y \<and> length y \<noteq> m)"
proof (induction ls arbitrary: n x rule: layer_params.induct)
  case (2 l ls)
  then have "linear_forward l x = Inl RuntimeError" by (auto intro: linear_forward_misfit)
  then show ?case by simp
next
  case (3 a ls)
  then show ?case by (metis ebind_simps(2) layer_forward.simps(2) layers_ok.simps(2) length_map sequential.simps(2))
qed simp

lemma layers_ok_append:
  "layers_ok n ls k \<Longrightarrow> layers_ok n (ls @ ms) m \<longleftrightarrow> layers_ok k ms m"
  by (induction ls arbitrary: n rule: layer_params.induct) simp_all

lemma new_linear_ok: "fresh_ok fresh \<Longrightarrow> linear_ok n m (new_linear fresh n m)"
  by (simp add: linear_ok_def new_linear_def new_param_def fresh_ok_def)

lemma init_linear_ok: "orth_ok orth \<Longrightarrow> linear_ok n m l \<Longrightarrow> linear_ok n m (init_linear orth i g l)"
  by (simp add: linear_ok_def init_linear_def Let_def orth_ok_def numel_def)

lemma hidden_layers_ok: "fresh_ok fresh \<Longrightarrow> layers_ok n (hidden_layers fresh a n hs) (last (n # hs))"
  by (induction hs arbitrary: n) (auto simp: new_linear_ok linear_ok_bias [OF new_linear_ok])

lemma init_layers_ok:
  "orth_ok orth \<Longrightarrow> layers_ok n ls m \<Longrightarrow> layers_ok n (init_layers orth i g ls) m"
proof (induction orth i g ls arbitrary: n rule: init_layers.induct)
  case (2 orth i g l ls)
  then have "linear_ok n (hd (pm_shape (ln_bias l))) (init_linear orth i g l)" by (simp add: init_linear_ok)
  with 2 linear_ok_bias [OF this] show ?case by simp
qed simp_all

lemma linear_params_ok:
  "linear_ok n m l \<Longrightarrow> pm_grad (ln_weight l) = None \<Longrightarrow> pm_grad (ln_bias l) = None \<Longrightarrow>
     param_ok (ln_weight l) \<and> param_ok (ln_bias l) \<and> numel (ln_weight l) + numel (ln_bias l) = (n + 1) * m"
  by (simp add: linear_ok_def param_ok_def numel_def)

text \<open>Gradient-free layers of a given size.\<close>

definition clean :: "param list \<Rightarrow> nat \<Rightarrow> bool" where
  "clean ps k \<longleftrightarrow> (\<forall>p \<in> set ps. param_ok p \<and> pm_grad p = None) \<and> data_size ps = k"

lemma clean_append: "clean ps i \<Longrightarrow> clean qs j \<Longrightarrow> clean (ps @ qs) (i + j)"
  by (auto simp: clean_def data_size_def)

lemma new_linear_grads [simp]:
  "pm_grad (ln_weight (new_linear fresh n m)) = None" "pm_grad (ln_bias (new_linear fresh n m)) = None"
  "pm_grad (ln_weight (init_linear orth i g l)) = pm_grad (ln_weight l)"
  "pm_grad (ln_bias (init_linear orth i g l)) = pm_grad (ln_bias l)"
  by (simp_all add: new_linear_def new_param_def init_linear_def Let_def)

lemma clean_linear:
  "linear_ok n m l \<Longrightarrow> pm_grad (ln_weight l) = None \<Longrightarrow> pm_grad (ln_bias l) = None \<Longrightarrow>
     clean (layer_params [Linear l]) ((n + 1) * m)"
  using linear_params_ok [of n m l] by (simp add: clean_def)

lemma clean_hidden:
  "fresh_ok fresh \<Longrightarrow> clean (layer_params (hidden_layers fresh a n hs)) (mlp_size n hs)"
proof (induction hs arbitrary: n)
  case (Cons h hs)
  have "clean (layer_params [Linear (new_linear fresh n h)]) ((n + 1) * h)"
    using Cons.prems by (intro clean_linear new_linear_ok) simp_all
  from clean_append [OF this Cons.IH [OF Cons.prems, of h]] show ?case by simp
qed (simp add: clean_def)

lemma clean_init:
  assumes "orth_ok orth"
  shows "layers_ok n ls m \<Longrightarrow> clean (layer_params ls) k \<Longrightarrow> clean (layer_params (init_layers orth i g ls)) k"
  using assms
proof (induction orth i g ls arbitrary: n k rule: init_layers.induct)
  case (2 orth i g l ls)
  let ?h = "hd (pm_shape (ln_bias l))"
  have l: "linear_ok n ?h l" and rest: "clean (layer_params ls) (data_size (layer_params ls))"
    and grads: "pm_grad (ln_weight l) = None" "pm_grad (ln_bias l) = None"
    using "2.prems" by (simp_all add: clean_def)
  have k: "k = (n + 1) * ?h + data_size (layer_params ls)"
    using "2.prems"(2) linear_params_ok [OF l grads] by (simp add: clean_def)
  have "clean (layer_params [Linear (init_linear orth i g l)]) ((n + 1) * ?h)"
    using grads by (intro clean_linear init_linear_ok "2.prems" l) simp_all
  from clean_append [OF this "2.IH" [OF _ rest "2.prems"(3), of ?h]] "2.prems"(1) k
  show ?case by simp
qed simp_all

text \<open>The two networks.\<close>

definition policy_shape :: "nat \<Rightarrow> nat \<Rightarrow> bool \<Rightarrow> policy \<Rightarrow> bool" where
  "policy_shape n k is_cont p \<longleftrightarrow>
     (\<exists>h. layers_ok n (pn_backbone p) h \<and> linear_ok h k (pn_head p)) \<and>
     (case pn_log_std p of Some s \<Rightarrow> is_cont \<and> length (pm_data s) = k | None \<Rightarrow> \<not> is_cont)"

definition policy_ok :: "nat \<Rightarrow> nat \<Rightarrow> bool \<Rightarrow> nat \<Rightarrow> policy \<Rightarrow> bool" where
  "policy_ok n k is_cont sz p \<longleftrightarrow> policy_shape n k is_cont p \<and> clean (policy_params p) sz"

definition value_shape :: "nat \<Rightarrow> value_net \<Rightarrow> bool" where
  "value_shape n v \<longleftrightarrow> layers_ok n (vn_layers v @ [Linear (vn_final v)]) 1"

definition value_ok :: "nat \<Rightarrow> nat \<Rightarrow> value_net \<Rightarrow> bool" where
  "value_ok n sz v \<longleftrightarrow> value_shape n v \<and> clean (value_params v) sz"

lemma mlp_size_snoc: "mlp_size n (hs @ [m]) = mlp_size n hs + (last (n # hs) + 1) * m"
  by (induction hs arbitrary: n) simp_all

lemma new_policy_ok:
  assumes "orth_ok orth" and "fresh_ok fresh"
  shows "policy_ok n k is_cont ((if is_cont then k else 0) + mlp_size n (hs @ [k]))
    (new_policy fresh orth i n k hs is_cont s act)"
proof -
  let ?p = "new_policy fresh orth i n k hs is_cont s act" and ?h = "last (n # hs)"
  have body: "layers_ok n (pn_backbone ?p) ?h" "clean (layer_params (pn_backbone ?p)) (mlp_size n hs)"
    by (simp_all del: last.simps add: new_policy_def Let_def init_layers_ok [OF assms(1)]
        hidden_layers_ok [OF assms(2)] clean_init [OF assms(1) hidden_layers_ok [OF assms(2)] clean_hidden [OF assms(2)]])
  have head: "linear_ok ?h k (pn_head ?p)"
    using assms by (simp add: new_policy_def Let_def init_linear_ok new_linear_ok)
  have "clean (layer_params [Linear (pn_head ?p)]) ((?h + 1) * k)"
    by (rule clean_linear [OF head]) (simp_all add: new_policy_def Let_def)
  note both = clean_append [OF body(2) this]
  have "clean (policy_params ?p) ((if is_cont then k else 0) + mlp_size n (hs @ [k]))"
  proof (cases is_cont)
    case True
    then have "pn_log_std ?p = Some (new_param [k] (replicate k s))" by (simp add: new_policy_def Let_def)
    moreover have "clean [new_param [k] (replicate k s)] k"
      by (simp add: clean_def param_ok_def new_param_def numel_def)
    ultimately show ?thesis
      using clean_append [OF _ both, of "[new_param [k] (replicate k s)]" k] True
      by (simp add: policy_params_def layer_params_append mlp_size_snoc)
  next
    case False
    then have "pn_log_std ?p = None" by (simp add: new_policy_def Let_def)
    with both False show ?thesis by (simp add: policy_params_def layer_params_append mlp_size_snoc)
  qed
  moreover have "case pn_log_std ?p of Some t \<Rightarrow> is_cont \<and> length (pm_data t) = k | None \<Rightarrow> \<not> is_cont"
    by (simp add: new_policy_def Let_def new_param_def)
  ultimately show ?thesis using body head unfolding policy_ok_def policy_shape_def by blast
qed

lemma new_value_ok:
  assumes "orth_ok orth" and "fresh_ok fresh"
  shows "value_ok n (mlp_size n (hs @ [1])) (new_value_net fresh orth i n hs act)"
proof -
  let ?v = "new_value_net fresh orth i n hs act" and ?h = "last (n # hs)"
  have body: "layers_ok n (vn_layers ?v) ?h" "clean (layer_params (vn_layers ?v)) (mlp_size n hs)"
    by (simp_all del: last.simps add: new_value_net_def Let_def init_layers_ok [OF assms(1)]
        hidden_layers_ok [OF assms(2)] clean_init [OF assms(1) hidden_layers_ok [OF assms(2)] clean_hidden [OF assms(2)]])
  have final: "linear_ok ?h 1 (vn_final ?v)"
    using assms by (simp add: new_value_net_def Let_def init_linear_ok new_linear_ok)
  have "clean (layer_params [Linear (vn_final ?v)]) ((?h + 1) * 1)"
    by (rule clean_linear [OF final]) (simp_all add: new_value_net_def Let_def)
  from clean_append [OF body(2) this] layers_ok_append [OF body(1)] final linear_ok_bias [OF final]
  show ?thesis by (simp add: value_ok_def value_shape_def value_params_def layer_params_append mlp_size_snoc)
qed

definition dist_of_size :: "nat \<Rightarrow> bool \<Rightarrow> dist \<Rightarrow> bool" where
  "dist_of_size k is_cont d \<longleftrightarrow>
     (case d of Categorical ls \<Rightarrow> \<not> is_cont \<and> length ls = k
      | Normal mean std \<Rightarrow> is_cont \<and> length mean = k \<and> length std = k \<and> (\<forall>s \<in> set std. 0 < s))"

lemma policy_fits:
  assumes "policy_shape n k is_cont p"
  shows "length x = n \<Longrightarrow> \<exists>d. get_distribution Phi p x = Inr d \<and> dist_of_size k is_cont d"
    and "length x \<noteq> n \<Longrightarrow> get_distribution Phi p x = Inl RuntimeError"
proof -
  obtain h where h: "layers_ok n (pn_backbone p) h" "linear_ok h k (pn_head p)"
    using assms by (auto simp: policy_shape_def)
  show "\<exists>d. get_distribution Phi p x = Inr d \<and> dist_of_size k is_cont d" if "length x = n"
  proof -
    obtain y where y: "sequential Phi (pn_backbone p) x = Inr y" "length y = h"
      using sequential_fits [OF h(1) \<open>length x = n\<close>] by blast
    obtain z where z: "linear_forward (pn_head p) y = Inr z" "length z = k"
      using linear_forward_fits [OF h(2) y(2)] by blast
    show ?thesis using assms y z
      by (cases "pn_log_std p")
        (auto simp: get_distribution_def policy_forward_def dist_of_size_def policy_shape_def)
  qed
  show "get_distribution Phi p x = Inl RuntimeError" if "length x \<noteq> n"
    using sequential_misfit [OF h(1) that, of Phi] linear_forward_misfit [OF h(2)]
    by (auto simp: get_distribution_def policy_forward_def)
qed

lemma value_fits:
  assumes "value_shape n v" and "length x = n"
  shows "\<exists>r. value_forward Phi v x = Inr r"
  using sequential_fits [of n "vn_layers v @ [Linear (vn_final v)]" 1 x Phi] assms
  by (auto simp: value_shape_def value_forward_def)

text \<open>What the constructor builds, with and without a shared backbone.\<close>

lemma new_actor_critic_parts:
  assumes "orth_ok orth" and "fresh_ok fresh"
    and "new_actor_critic fresh orth n k hs is_cont shared act = Inr m"
  obtains h sp sv where "policy_ok h k is_cont sp (ac_policy m)" "value_ok h sv (ac_value m)"
    "case ac_backbone m of Some ls \<Rightarrow> layers_ok n ls h | None \<Rightarrow> h = n"
    "clean (parameters m)
       ((if is_cont then k else 0) +
        (if shared then mlp_size n (butlast hs) + mlp_size (last (n # butlast hs)) [last hs, k] +
           mlp_size (last (n # butlast hs)) [last hs, 1]
         else mlp_size n (hs @ [k]) + mlp_size n (hs @ [1])))"
proof (cases shared)
  case True
  let ?h = "last (n # butlast hs)" and ?ls = "hidden_layers fresh (shared_activation_of act) n (butlast hs)"
  have ne: "hs \<noteq> []" using assms(3) True by (auto simp: new_actor_critic_def)
  have m: "ac_policy m = new_policy fresh orth 0 ?h k [last hs] is_cont 0 (lit ''tanh'')"
    "ac_value m = new_value_net fresh orth 3 ?h [last hs] (lit ''tanh'')" "ac_backbone m = Some ?ls"
    using assms(3) True ne by (auto simp: new_actor_critic_def Let_def)
  note p = new_policy_ok [OF assms(1,2), of ?h k is_cont "[last hs]" 0 0 "lit ''tanh''"]
  note v = new_value_ok [OF assms(1,2), of ?h "[last hs]" 3 "lit ''tanh''"]
  have "clean (layer_params ?ls @ policy_params (ac_policy m) @ value_params (ac_value m))
      (mlp_size n (butlast hs) + ((if is_cont then k else 0) + mlp_size ?h [last hs, k] + mlp_size ?h [last hs, 1]))"
    using p v by (intro clean_append clean_hidden assms) (simp_all add: m policy_ok_def value_ok_def)
  then show thesis
    using that [of ?h _ _] p v hidden_layers_ok [OF assms(2), of n "shared_activation_of act" "butlast hs"] True
    by (simp add: m parameters_def algebra_simps)
next
  case False
  have m: "ac_policy m = new_policy fresh orth 0 n k hs is_cont 0 (lit ''tanh'')"
    "ac_value m = new_value_net fresh orth (length hs + 2) n hs (lit ''tanh'')" "ac_backbone m = None"
    using assms(3) False by (auto simp: new_actor_critic_def)
  note p = new_policy_ok [OF assms(1,2), of n k is_cont hs 0 0 "lit ''tanh''"]
  note v = new_value_ok [OF assms(1,2), of n hs "length hs + 2" "lit ''tanh''"]
  have "clean (policy_params (ac_policy m) @ value_params (ac_value m))
      ((if is_cont then k else 0) + mlp_size n (hs @ [k]) + mlp_size n (hs @ [1]))"
    using p v by (intro clean_append) (simp_all add: m policy_ok_def value_ok_def)
  then show thesis using that [of n _ _] p v False by (simp add: m parameters_def add.assoc)
qed

section \<open>The categorical distribution\<close>

lemma exps_pos: "xs \<noteq> [] \<Longrightarrow> 0 < (\<Sum>x\<leftarrow>xs. exp (x::real))"
  by (induction xs) (auto intro!: add_pos_nonneg sum_list_nonneg)

lemma action_probs_sum: "ls \<noteq> [] \<Longrightarrow> sum_list (action_probs ls) = 1"
proof -
  assume ne: "ls \<noteq> []"
  have "sum_list (action_probs ls) = (\<Sum>x\<leftarrow>ls. exp x * (1 / exp (log_sum_exps ls)))"
    by (simp add: action_probs_def exp_diff)
  also have "\<dots> = (\<Sum>x\<leftarrow>ls. exp x) * (1 / exp (log_sum_exps ls))" by (rule sum_list_mult_const)
  also have "exp (log_sum_exps ls) = (\<Sum>x\<leftarrow>ls. exp x)" using exps_pos [OF ne] by (simp add: log_sum_exps_def)
  finally show ?thesis using exps_pos [OF ne] by simp
qed

lemma action_probs_range: "p \<in> set (action_probs ls) \<Longrightarrow> 0 < p \<and> p \<le> 1"
proof -
  assume p: "p \<in> set (action_probs ls)"
  then have "ls \<noteq> []" by (auto simp: action_probs_def)
  then have "sum_list (action_probs ls) = 1" by (rule action_probs_sum)
  moreover have "p \<le> sum_list (action_probs ls)"
    using p by (intro member_le_sum_list) (auto simp: action_probs_def)
  ultimately show ?thesis using p by (auto simp: action_probs_def)
qed

lemma entropy_probs: "dist_entropy (Categorical ls) = - (\<Sum>p\<leftarrow>action_probs ls. p * ln p)"
  by (simp add: action_probs_def o_def)

text \<open>Gibbs' inequality against the uniform distribution.\<close>

lemma entropy_upper:
  assumes "\<forall>p \<in> set ps. 0 < p" and "0 < n"
  shows "- (\<Sum>p\<leftarrow>ps. p * ln p) \<le> sum_list ps * ln n + real (length ps) / n - sum_list ps"
  using assms(1)
proof (induction ps)
  case (Cons p ps)
  then have p: "0 < p" by simp
  have "ln (1 / (n * p)) \<le> 1 / (n * p) - 1" using p assms(2) by (intro ln_le_minus_one) simp
  then have "p * ln (1 / (n * p)) \<le> p * (1 / (n * p) - 1)" using p by (intro mult_left_mono) simp_all
  moreover have "ln (1 / (n * p)) = - (ln n + ln p)" using p assms(2) by (simp add: ln_div ln_mult)
  moreover have "p * (1 / (n * p) - 1) = 1 / n - p" using p by (simp add: field_simps)
  ultimately have "- (p * ln p) \<le> p * ln n + 1 / n - p" by (simp add: algebra_simps)
  with Cons show ?case by (simp add: algebra_simps add_divide_distrib)
qed simp

lemma entropy_range:
  assumes "ls \<noteq> []"
  shows "0 \<le> dist_entropy (Categorical ls) \<and> dist_entropy (Categorical ls) \<le> ln (real (length ls))"
proof -
  let ?ps = "action_probs ls"
  have "0 \<le> - (p * ln p)" if "p \<in> set ?ps" for p
    using action_probs_range [OF that] by (simp add: mult_nonneg_nonpos)
  then have "0 \<le> (\<Sum>p\<leftarrow>?ps. - (p * ln p))" by (intro sum_list_nonneg) auto
  moreover have "(\<Sum>p\<leftarrow>ps. - (p * ln p)) = - (\<Sum>p\<leftarrow>ps. p * ln p)" for ps :: "real list"
    by (induction ps) simp_all
  moreover have "- (\<Sum>p\<leftarrow>?ps. p * ln p) \<le> ln (real (length ls))"
    using entropy_upper [of ?ps "real (length ls)"] action_probs_range action_probs_sum [OF assms] assms
    by (simp add: action_probs_def)
  ultimately show ?thesis unfolding entropy_probs by simp
qed

lemma argmax_ok:
  assumes "xs \<noteq> []"
  shows "argmax xs < length xs \<and> (\<forall>j < length xs. xs ! j \<le> xs ! argmax xs)"
proof -
  have "Max (set xs) \<in> set xs" using assms by simp
  then have "takeWhile (\<lambda>x. x \<noteq> Max (set xs)) xs \<noteq> xs" by (auto simp: takeWhile_eq_all_conv)
  then have "argmax xs \<noteq> length xs" unfolding argmax_def by (metis takeWhile_eq_take take_all order_refl)
  moreover have "argmax xs \<le> length xs" by (simp add: argmax_def length_takeWhile_le)
  ultimately have lt: "argmax xs < length xs" by simp
  then have "xs ! argmax xs = Max (set xs)"
    unfolding argmax_def using nth_length_takeWhile [of "\<lambda>x. x \<noteq> Max (set xs)" xs] by simp
  with lt show ?thesis by simp
qed

section \<open>Properties\<close>

definition gradient_size :: "actor_critic \<Rightarrow> nat" where
  "gradient_size m = grad_size (parameters m)"

definition model_ok :: "actor_critic \<Rightarrow> bool" where
  "model_ok m \<longleftrightarrow> (\<forall>p \<in> set (parameters m). param_ok p)"

text \<open>A model of one input and two actions whose parameters have gradients.\<close>

definition demo_orth :: orth_init where "demo_orth i g m n = replicate (m * n) g"

definition demo_fresh :: fresh_init where "demo_fresh n m = (replicate (m * n) 1, replicate m 1)"

lemma demo_init_ok: "orth_ok demo_orth" "fresh_ok demo_fresh"
  by (simp_all add: orth_ok_def fresh_ok_def demo_orth_def demo_fresh_def)

definition demo_lin :: "real list \<Rightarrow> real list \<Rightarrow> linear" where
  "demo_lin w g = \<lparr>ln_weight = \<lparr>pm_shape = [length w, 1], pm_data = w, pm_grad = Some g\<rparr>,
     ln_bias = new_param [length w] (map (\<lambda>x. 0) w)\<rparr>"

definition demo_model :: actor_critic where
  "demo_model = \<lparr>ac_continuous = False, ac_backbone = None,
     ac_policy = \<lparr>pn_continuous = False, pn_backbone = [], pn_head = demo_lin [1, 2] [5, 6], pn_log_std = None\<rparr>,
     ac_value = \<lparr>vn_layers = [], vn_final = demo_lin [3] [7]\<rparr>\<rparr>"

text \<open>
  C16. Construction and types: the network built for \<open>obs_dim\<close> and \<open>action_dim\<close> accepts exactly the
  observations of length \<open>obs_dim\<close> (others raise \<open>RuntimeError\<close>) and returns a distribution over
  \<open>action_dim\<close> actions or components and one value; all its parameters have their declared size
  and no gradient, and their number is that of the layers.
\<close>

theorem network_types:
  assumes "orth_ok orth" and "fresh_ok fresh"
    and "new_actor_critic fresh orth obs_dim action_dim dims is_cont shared act = Inr m"
  shows "(length x = obs_dim \<longrightarrow> (\<exists>d v. ac_forward Phi m x = Inr (d, v) \<and> dist_of_size action_dim is_cont d)) \<and>
    (length x \<noteq> obs_dim \<longrightarrow> ac_forward Phi m x = Inl RuntimeError) \<and>
    (\<forall>p \<in> set (parameters m). param_ok p \<and> pm_grad p = None) \<and>
    length (get_parameter_vector m) =
      (if is_cont then action_dim else 0) +
      (if shared then
         mlp_size obs_dim (butlast dims) + mlp_size (last (obs_dim # butlast dims)) [last dims, action_dim] +
           mlp_size (last (obs_dim # butlast dims)) [last dims, 1]
       else mlp_size obs_dim (dims @ [action_dim]) + mlp_size obs_dim (dims @ [1]))"
proof -
  obtain h sp sv where p: "policy_ok h action_dim is_cont sp (ac_policy m)" and v: "value_ok h sv (ac_value m)"
    and b: "case ac_backbone m of Some ls \<Rightarrow> layers_ok obs_dim ls h | None \<Rightarrow> h = obs_dim"
    and c: "clean (parameters m) ((if is_cont then action_dim else 0) +
      (if shared then
         mlp_size obs_dim (butlast dims) + mlp_size (last (obs_dim # butlast dims)) [last dims, action_dim] +
           mlp_size (last (obs_dim # butlast dims)) [last dims, 1]
       else mlp_size obs_dim (dims @ [action_dim]) + mlp_size obs_dim (dims @ [1])))"
    by (rule new_actor_critic_parts [OF assms])
  note p = p [unfolded policy_ok_def, THEN conjunct1] and v = v [unfolded value_ok_def, THEN conjunct1]
  have fits: "\<exists>d v. ac_forward Phi m x = Inr (d, v) \<and> dist_of_size action_dim is_cont d"
    if x: "length x = obs_dim"
  proof -
    obtain f where f: "(case ac_backbone m of Some ls \<Rightarrow> sequential Phi ls x | None \<Rightarrow> Inr x) = Inr f" "length f = h"
      using b x sequential_fits [of obs_dim _ h x Phi] by (cases "ac_backbone m") auto
    with policy_fits(1) [OF p f(2), of Phi] value_fits [OF v f(2), of Phi] show ?thesis
      by (auto simp: ac_forward_def)
  qed
  have misfit: "ac_forward Phi m x = Inl RuntimeError" if x: "length x \<noteq> obs_dim"
  proof (cases "ac_backbone m")
    case None
    with b x policy_fits(2) [OF p] show ?thesis by (simp add: ac_forward_def)
  next
    case (Some ls)
    with b x have "sequential Phi ls x = Inl RuntimeError \<or> (\<exists>y. sequential Phi ls x = Inr y \<and> length y \<noteq> h)"
      by (intro sequential_misfit) simp_all
    with Some policy_fits(2) [OF p] show ?thesis by (auto simp: ac_forward_def)
  qed
  have "length (get_parameter_vector m) = data_size (parameters m)"
    unfolding get_parameter_vector_def using c by (intro data_length) (simp add: clean_def)
  note size = this [unfolded c [unfolded clean_def, THEN conjunct2]]
  have "\<forall>p \<in> set (parameters m). param_ok p \<and> pm_grad p = None" using c by (simp add: clean_def)
  with fits misfit size show ?thesis by (intro conjI impI)
qed

theorem network_types_witness:
  "\<exists>m d v. new_actor_critic demo_fresh demo_orth 4 2 [256, 256] False False [] = Inr m \<and>
     ac_forward (\<lambda>x. x) m [0, 0, 0, 0] = Inr (d, v) \<and> length (get_parameter_vector m) = 134915"
proof -
  obtain m where m: "new_actor_critic demo_fresh demo_orth 4 2 [256, 256] False False [] = Inr m"
    by (simp add: new_actor_critic_def)
  from network_types [OF demo_init_ok m, of "[0, 0, 0, 0]" "\<lambda>x. x"] m show ?thesis by auto
qed

text \<open>
  C15. Flat vectors: writing a vector into the gradients (or the parameters) of a model and reading
  it back returns it, writing what was read changes nothing, the parameters (or gradients) are
  left alone, entries beyond the model's size are ignored and a shorter vector raises \<open>ValueError\<close>.
\<close>

theorem vector_roundtrip:
  assumes "model_ok m"
  shows "set_gradient_vector m (get_gradient_vector m) = Inr m \<and>
    set_parameter_vector m (get_parameter_vector m) = Inr m \<and>
    (if gradient_size m \<le> length g
     then \<exists>m'. set_gradient_vector m g = Inr m' \<and> get_gradient_vector m' = take (gradient_size m) g \<and>
       get_parameter_vector m' = get_parameter_vector m
     else set_gradient_vector m g = Inl ValueError) \<and>
    (if length (get_parameter_vector m) \<le> length g
     then \<exists>m'. set_parameter_vector m g = Inr m' \<and>
       get_parameter_vector m' = take (length (get_parameter_vector m)) g \<and>
       map pm_grad (parameters m') = map pm_grad (parameters m)
     else set_parameter_vector m g = Inl ValueError)"
proof -
  have n: "length (get_parameter_vector m) = data_size (parameters m)"
    using assms unfolding get_parameter_vector_def model_ok_def by (rule data_length)
  have "set_gradient_vector m (get_gradient_vector m) = Inr m"
    "set_parameter_vector m (get_parameter_vector m) = Inr m"
    using assms ac.gradients_same ac.data_same
    by (simp_all add: set_gradient_vector_def get_gradient_vector_def set_parameter_vector_def
        get_parameter_vector_def model_ok_def)
  moreover have "if gradient_size m \<le> length g
     then \<exists>m'. set_gradient_vector m g = Inr m' \<and> get_gradient_vector m' = take (gradient_size m) g \<and>
       get_parameter_vector m' = get_parameter_vector m
     else set_gradient_vector m g = Inl ValueError"
    using ac.gradients_set [of m g] put_grads_short [of 0 g "parameters m"]
    by (auto simp: set_gradient_vector_def get_gradient_vector_def get_parameter_vector_def gradient_size_def)
  moreover have "if length (get_parameter_vector m) \<le> length g
     then \<exists>m'. set_parameter_vector m g = Inr m' \<and>
       get_parameter_vector m' = take (length (get_parameter_vector m)) g \<and>
       map pm_grad (parameters m') = map pm_grad (parameters m)
     else set_parameter_vector m g = Inl ValueError"
    unfolding n using ac.data_set [of m g] put_data_short [of 0 g "parameters m"]
    by (auto simp: set_parameter_vector_def get_parameter_vector_def)
  ultimately show ?thesis by blast
qed

theorem vector_roundtrip_witness:
  "\<exists>m'. set_gradient_vector demo_model [1, 2, 3, 4] = Inr m' \<and> get_gradient_vector m' = [1, 2, 3] \<and>
     set_gradient_vector demo_model [1, 2] = Inl ValueError"
proof -
  have ok: "model_ok demo_model"
    by (simp add: model_ok_def demo_model_def parameters_def policy_params_def value_params_def demo_lin_def
        param_ok_def numel_def new_param_def)
  have n: "gradient_size demo_model = 3"
    by (simp add: gradient_size_def demo_model_def parameters_def policy_params_def value_params_def
        demo_lin_def numel_def new_param_def)
  from vector_roundtrip [OF ok, of "[1, 2, 3, 4]"] vector_roundtrip [OF ok, of "[1, 2]"] n show ?thesis
    by auto
qed

text \<open>
  C20. A discrete policy is a probability distribution: the probabilities of the actions are positive
  and add up to one, \<open>evaluate_actions\<close> returns their logarithms, the entropy lies between zero and
  the logarithm of the number of actions, and the deterministic action is a most probable one.
\<close>

theorem policy_distribution:
  assumes "get_distribution Phi p x = Inr (Categorical ls)" and "ls \<noteq> []"
  shows "sum_list (action_probs ls) = 1 \<and> length (action_probs ls) = length ls \<and>
    (\<forall>i < length ls. 0 < action_probs ls ! i \<and>
       evaluate_actions Phi p x (Discrete i) = Inr (ln (action_probs ls ! i), dist_entropy (Categorical ls))) \<and>
    0 \<le> dist_entropy (Categorical ls) \<and> dist_entropy (Categorical ls) \<le> ln (real (length ls)) \<and>
    (\<exists>i < length ls. get_action Phi smp p x True = Inr (Discrete i, ln (action_probs ls ! i)) \<and>
       (\<forall>j < length ls. action_probs ls ! j \<le> action_probs ls ! i))"
proof -
  have len: "length (action_probs ls) = length ls" by (simp add: action_probs_def)
  have best: "argmax (action_probs ls) < length ls \<and>
      (\<forall>j < length ls. action_probs ls ! j \<le> action_probs ls ! argmax (action_probs ls))"
    using argmax_ok [of "action_probs ls"] assms(2) len by (auto simp: action_probs_def)
  have nth: "action_probs ls ! i = exp (ls ! i - log_sum_exps ls)" if "i < length ls" for i
    using that by (simp add: action_probs_def)
  have "\<exists>i < length ls. get_action Phi smp p x True = Inr (Discrete i, ln (action_probs ls ! i)) \<and>
       (\<forall>j < length ls. action_probs ls ! j \<le> action_probs ls ! i)"
  proof (intro exI [of _ "argmax (action_probs ls)"] conjI)
    show "get_action Phi smp p x True =
        Inr (Discrete (argmax (action_probs ls)), ln (action_probs ls ! argmax (action_probs ls)))"
      using best nth by (simp add: get_action_def assms(1) Let_def)
  qed (use best in blast)+
  with len entropy_range [OF assms(2)] action_probs_sum [OF assms(2)] show ?thesis
    using nth by (auto simp: evaluate_actions_def assms(1))
qed

theorem policy_distribution_witness:
  "get_distribution (\<lambda>x. x) (ac_policy demo_model) [1] = Inr (Categorical [1, 2]) \<and>
   sum_list (action_probs [1, 2]) = 1 \<and> dist_entropy (Categorical [1, 2]) \<le> ln 2"
proof -
  have "get_distribution (\<lambda>x. x) (ac_policy demo_model) [1] = Inr (Categorical [1, 2])"
    by (simp add: get_distribution_def policy_forward_def demo_model_def demo_lin_def new_param_def
        linear_forward_def row_def dot_def upt_rec)
  from policy_distribution [OF this, of "\<lambda>d. Discrete 0"] this show ?thesis by simp
qed

end
