(* ===== verification/Config.thy ===== *)
theory Config
  imports Prelude
begin

text \<open>
  \<open>config.py\<close>: the classes of the configuration with their defaults, and the loading of a file
  with the expansion of environment variables. The YAML parser and the validation of pydantic
  are arguments. The agent reads the sections for the agent, the network, gossip, privacy,
  training, the environment and logging; the others have no reader in the package.
\<close>

section \<open>Values\<close>

record network_config =
  nc_rpc_port :: int
  nc_use_shared_memory :: bool
  nc_tcp_nodelay :: bool
  nc_buffer_size :: int
  nc_max_connections :: int

definition default_network_config :: network_config where
  "default_network_config =
     \<lparr>nc_rpc_port = 50051, nc_use_shared_memory = True, nc_tcp_nodelay = True,
      nc_buffer_size = 65536, nc_max_connections = 100\<rparr>"

record failure_detection_config =
  fd_protocol :: pystr
  fd_probe_interval_ms :: int
  fd_probe_timeout_ms :: int
  fd_indirect_probes :: int

definition default_failure_detection :: failure_detection_config where
  "default_failure_detection =
     \<lparr>fd_protocol = lit ''swim'', fd_probe_interval_ms = 500, fd_probe_timeout_ms = 200, fd_indirect_probes = 3\<rparr>"

record gossip_config =
  gc_interval_ms :: int
  gc_fanout :: int
  gc_push_pull :: bool
  gc_failure_detection :: failure_detection_config

definition default_gossip_config :: gossip_config where
  "default_gossip_config =
     \<lparr>gc_interval_ms = 100, gc_fanout = 3, gc_push_pull = True,
      gc_failure_detection = default_failure_detection\<rparr>"

record compression_config =
  cc_enabled :: bool
  cc_method :: pystr
  cc_ratio :: real

record quantization_config =
  qc_enabled :: bool
  qc_bits :: int

record aggregation_config =
  agg_method :: pystr
  agg_compression :: compression_config
  agg_quantization :: quantization_config

definition default_compression_config :: compression_config where
  "default_compression_config = \<lparr>cc_enabled = True, cc_method = lit ''topk'', cc_ratio = 1 / 100\<rparr>"

definition default_quantization_config :: quantization_config where
  "default_quantization_config = \<lparr>qc_enabled = True, qc_bits = 8\<rparr>"

definition default_aggregation_config :: aggregation_config where
  "default_aggregation_config =
     \<lparr>agg_method = lit ''secure'', agg_compression = default_compression_config,
      agg_quantization = default_quantization_config\<rparr>"

record privacy_config =
  pc_enabled :: bool
  pc_epsilon :: real
  pc_delta :: real
  pc_mechanism :: pystr
  pc_clip_norm :: real
  pc_adaptive_noise :: bool
  pc_noise_multiplier :: real

definition default_privacy_config :: privacy_config where
  "default_privacy_config =
     \<lparr>pc_enabled = True, pc_epsilon = 1, pc_delta = 1 / 100000, pc_mechanism = lit ''gaussian'',
      pc_clip_norm = 1, pc_adaptive_noise = True, pc_noise_multiplier = 11 / 10\<rparr>"

record training_config =
  tc_algorithm :: pystr
  tc_learning_rate :: real
  tc_gamma :: real
  tc_gae_lambda :: real
  tc_clip_epsilon :: real
  tc_entropy_coef :: real
  tc_value_coef :: real
  tc_max_grad_norm :: real
  tc_batch_size :: int
  tc_n_epochs :: int
  tc_n_steps :: int

definition default_training_config :: training_config where
  "default_training_config =
     \<lparr>tc_algorithm = lit ''ppo'', tc_learning_rate = 3 / 10000, tc_gamma = 99 / 100, tc_gae_lambda = 95 / 100,
      tc_clip_epsilon = 1 / 5, tc_entropy_coef = 1 / 100, tc_value_coef = 1 / 2,
      tc_max_grad_norm = 1 / 2, tc_batch_size = 64, tc_n_epochs = 10, tc_n_steps = 2048\<rparr>"

record environment_config =
  ec_name :: pystr
  ec_n_envs :: int
  ec_normalize_obs :: bool
  ec_normalize_reward :: bool

definition default_environment_config :: environment_config where
  "default_environment_config =
     \<lparr>ec_name = lit ''CartPole-v1'', ec_n_envs = 4, ec_normalize_obs = True, ec_normalize_reward = True\<rparr>"

record replay_config =
  rc_enabled :: bool
  rc_kafka_bootstrap_servers :: pystr
  rc_topic :: pystr
  rc_buffer_size :: int
  rc_priority :: bool

definition default_replay_config :: replay_config where
  "default_replay_config =
     \<lparr>rc_enabled = True, rc_kafka_bootstrap_servers = lit ''localhost:19092'',
      rc_topic = lit ''experiences'', rc_buffer_size = 100000, rc_priority = False\<rparr>"

record checkpoint_config =
  ckc_enabled :: bool
  ckc_directory :: pystr
  ckc_interval_steps :: int
  ckc_keep_last :: int

definition default_checkpoint_config :: checkpoint_config where
  "default_checkpoint_config =
     \<lparr>ckc_enabled = True, ckc_directory = lit ''/data/checkpoints'', ckc_interval_steps = 10000,
      ckc_keep_last = 5\<rparr>"

record logging_config =
  lc_level :: pystr
  lc_format :: pystr
  lc_file :: "pystr option"

definition default_logging_config :: logging_config where
  "default_logging_config = \<lparr>lc_level = lit ''INFO'', lc_format = lit ''json'', lc_file = None\<rparr>"

record metrics_config =
  mc_enabled :: bool
  mc_port :: int

definition default_metrics_config :: metrics_config where
  "default_metrics_config = \<lparr>mc_enabled = True, mc_port = 8000\<rparr>"

record tracing_config =
  trc_enabled :: bool
  trc_jaeger_host :: pystr
  trc_jaeger_port :: int
  trc_sample_rate :: real

definition default_tracing_config :: tracing_config where
  "default_tracing_config =
     \<lparr>trc_enabled = True, trc_jaeger_host = lit ''localhost'', trc_jaeger_port = 6831,
      trc_sample_rate = 1 / 10\<rparr>"

record sacred_config =
  sa_enabled :: bool
  sa_mongodb_uri :: pystr
  sa_experiment_name :: pystr

definition default_sacred_config :: sacred_config where
  "default_sacred_config =
     \<lparr>sa_enabled = True, sa_mongodb_uri = lit ''mongodb://localhost:27017/sacred'',
      sa_experiment_name = lit ''gossip_rl''\<rparr>"

record agent_config =
  agc_id :: pystr
  agc_name :: pystr

definition default_agent_config :: agent_config where
  "default_agent_config = \<lparr>agc_id = lit ''agent-1'', agc_name = lit ''GossipAgent''\<rparr>"

record config =
  cf_agent :: agent_config
  cf_network :: network_config
  cf_gossip :: gossip_config
  cf_aggregation :: aggregation_config
  cf_privacy :: privacy_config
  cf_training :: training_config
  cf_environment :: environment_config
  cf_replay :: replay_config
  cf_checkpoint :: checkpoint_config
  cf_logging :: logging_config
  cf_metrics :: metrics_config
  cf_tracing :: tracing_config
  cf_sacred :: sacred_config

definition default_config :: config where
  "default_config =
     \<lparr>cf_agent = default_agent_config, cf_network = default_network_config,
      cf_gossip = default_gossip_config, cf_aggregation = default_aggregation_config,
      cf_privacy = default_privacy_config, cf_training = default_training_config,
      cf_environment = default_environment_config, cf_replay = default_replay_config,
      cf_checkpoint = default_checkpoint_config, cf_logging = default_logging_config,
      cf_metrics = default_metrics_config, cf_tracing = default_tracing_config,
      cf_sacred = default_sacred_config\<rparr>"

section \<open>Environment variables in strings\<close>

text \<open>
  What follows a \<open>$\<close> and an opening brace, matched against \<open>([^}:]+)(?::([^}]*))?\}\<close>: the name,
  the default and the rest of the string. The name is a longest run without \<open>}\<close> (125) and
  \<open>:\<close> (58), so a shorter one never matches.
\<close>

definition match_ref :: "pystr \<Rightarrow> (pystr \<times> pystr \<times> pystr) option" where
  "match_ref s =
     (let name = takeWhile (\<lambda>c. c \<noteq> 125 \<and> c \<noteq> 58) s in
      if name = [] then None
      else case drop (length name) s of
        [] \<Rightarrow> None
      | c # r \<Rightarrow>
          (if c = 125 then Some (name, [], r)
           else
             let d = takeWhile (\<lambda>c. c \<noteq> 125) r in
             case drop (length d) r of [] \<Rightarrow> None | _ # r' \<Rightarrow> Some (name, d, r')))"

lemma match_ref_shorter: "match_ref s = Some (n, d, r) \<Longrightarrow> length r < length s"
  by (auto simp: match_ref_def Let_def split: if_splits list.splits dest!: arg_cong [of _ _ length])

definition getenv :: "(pystr \<times> pystr) list \<Rightarrow> pystr \<Rightarrow> pystr \<Rightarrow> pystr" where
  "getenv env name dflt = (case map_of env name of Some v \<Rightarrow> v | None \<Rightarrow> dflt)"

text \<open>\<open>re.sub\<close>: from left to right, what was substituted is not searched again.\<close>

function expand_str :: "(pystr \<times> pystr) list \<Rightarrow> pystr \<Rightarrow> pystr" where
  "expand_str env [] = []"
| "expand_str env (c # s) =
     (if c = 36 \<and> s \<noteq> [] \<and> hd s = 123 then
        (case match_ref (tl s) of
           Some (name, dflt, rest) \<Rightarrow> getenv env name dflt @ expand_str env rest
         | None \<Rightarrow> c # expand_str env s)
      else c # expand_str env s)"
  by pat_completeness auto

termination
  by (relation "measure (\<lambda>(env, s). length s)") (auto dest!: match_ref_shorter)

section \<open>Documents\<close>

datatype yaml =
    YNull | YBool bool | YInt int | YFloat real | YStr pystr
  | YList "yaml list" | YDict "(pystr \<times> yaml) list"

fun expand_env :: "(pystr \<times> pystr) list \<Rightarrow> yaml \<Rightarrow> yaml" where
  "expand_env env (YStr s) = YStr (expand_str env s)"
| "expand_env env (YDict kvs) = YDict (map (\<lambda>(k, v). (k, expand_env env v)) kvs)"
| "expand_env env (YList xs) = YList (map (expand_env env) xs)"
| "expand_env env y = y"

text \<open>
  \<open>load_config\<close>: \<open>fs\<close> is the file system, \<open>safe_load\<close> the YAML parser, \<open>validate\<close> the constructor
  of \<open>Config\<close>, which takes keyword arguments only.
\<close>

definition load_config ::
  "(pystr \<Rightarrow> pystr option) \<Rightarrow> (pystr \<Rightarrow> yaml result) \<Rightarrow> ((pystr \<times> yaml) list \<Rightarrow> 'c result) \<Rightarrow>
     (pystr \<times> pystr) list \<Rightarrow> pystr \<Rightarrow> 'c result"
where
  "load_config fs safe_load validate env path =
     (case fs path of
        None \<Rightarrow> Inl FileNotFoundError
      | Some txt \<Rightarrow>
          ebind (safe_load txt) (\<lambda>data.
          case expand_env env data of YDict kvs \<Rightarrow> validate kvs | _ \<Rightarrow> Inl TypeError))"

section \<open>Properties\<close>

text \<open>A template: text without a dollar sign, and references with or without a default.\<close>

datatype piece = Text pystr | Ref pystr "pystr option"

fun render :: "piece \<Rightarrow> pystr" where
  "render (Text s) = s"
| "render (Ref n None) = 36 # 123 # n @ [125]"
| "render (Ref n (Some d)) = 36 # 123 # n @ 58 # d @ [125]"

fun piece_ok :: "piece \<Rightarrow> bool" where
  "piece_ok (Text s) \<longleftrightarrow> 36 \<notin> set s"
| "piece_ok (Ref n d) \<longleftrightarrow> n \<noteq> [] \<and> 125 \<notin> set n \<and> 58 \<notin> set n \<and> (\<forall>x. d = Some x \<longrightarrow> 125 \<notin> set x)"

fun piece_value :: "(pystr \<times> pystr) list \<Rightarrow> piece \<Rightarrow> pystr" where
  "piece_value env (Text s) = s"
| "piece_value env (Ref n d) = getenv env n (case d of None \<Rightarrow> [] | Some x \<Rightarrow> x)"

text \<open>
  Where something is in a document: a path of keys and positions. \<open>at_path\<close> reads the node at a
  path; of a repeated key it reads the first.
\<close>

datatype place = Key pystr | Pos nat

fun at_path :: "place list \<Rightarrow> yaml \<Rightarrow> yaml option" where
  "at_path [] y = Some y"
| "at_path (Key k # path) (YDict kvs) = (case map_of kvs k of None \<Rightarrow> None | Some y \<Rightarrow> at_path path y)"
| "at_path (Pos i # path) (YList xs) = (if i < length xs then at_path path (xs ! i) else None)"
| "at_path _ _ = None"

text \<open>What kind of node it is, with the keys of a dictionary and the length of a list.\<close>

datatype kind = Leaf yaml | Strings | Keys "pystr list" | Items nat

fun kind_of :: "yaml \<Rightarrow> kind" where
  "kind_of (YStr s) = Strings"
| "kind_of (YDict kvs) = Keys (map fst kvs)"
| "kind_of (YList xs) = Items (length xs)"
| "kind_of y = Leaf y"

lemma expand_text: "36 \<notin> set s \<Longrightarrow> expand_str env (s @ r) = s @ expand_str env r"
  by (induction s) auto

lemma takeWhile_stop: "\<forall>x \<in> set xs. P x \<Longrightarrow> \<not> P c \<Longrightarrow> takeWhile P (xs @ c # ys) = xs"
  by (induction xs) auto

lemma match_plain:
  assumes "n \<noteq> []" and "125 \<notin> set n" and "58 \<notin> set n"
  shows "match_ref (n @ 125 # r) = Some (n, [], r)"
proof -
  have "takeWhile (\<lambda>c. c \<noteq> 125 \<and> c \<noteq> 58) (n @ 125 # r) = n"
    using assms by (intro takeWhile_stop) auto
  with assms(1) show ?thesis by (simp add: match_ref_def)
qed

lemma match_default:
  assumes "n \<noteq> []" and "125 \<notin> set n" and "58 \<notin> set n" and "125 \<notin> set d"
  shows "match_ref (n @ 58 # d @ 125 # r) = Some (n, d, r)"
proof -
  have "takeWhile (\<lambda>c. c \<noteq> 125 \<and> c \<noteq> 58) (n @ 58 # d @ 125 # r) = n"
    using assms by (intro takeWhile_stop) auto
  moreover have "takeWhile (\<lambda>c. c \<noteq> 125) (d @ 125 # r) = d"
    using assms(4) by (intro takeWhile_stop) auto
  ultimately show ?thesis using assms(1) by (simp add: match_ref_def)
qed

lemma expand_piece: "piece_ok p \<Longrightarrow> expand_str env (render p @ r) = piece_value env p @ expand_str env r"
proof (cases p)
  case (Ref n d)
  assume "piece_ok p"
  with Ref show ?thesis by (cases d) (simp_all add: match_plain match_default)
qed (simp add: expand_text)

lemma kind_expand: "kind_of (expand_env env y) = kind_of y"
  by (cases y) auto

lemma map_of_expand: "map_of (map (\<lambda>(k, v). (k, f v)) kvs) k = map_option f (map_of kvs k)"
  by (induction kvs) auto

lemma at_path_expand: "at_path path (expand_env env y) = map_option (expand_env env) (at_path path y)"
  by (induction path y rule: at_path.induct) (auto simp: map_of_expand split: option.split)

text \<open>
  C21. Environment variables: a string made of text and references expands to the text with every
  reference replaced by the variable's value, or its default, or nothing; values that contain
  references are not expanded again. In a document exactly the same paths lead somewhere before
  and after: to a dictionary with the same keys, a list of the same length, the same null, Boolean
  or number, or to a string, which is the expansion of the string that was there.
\<close>

theorem config_expansion:
  assumes "\<forall>p \<in> set ps. piece_ok p"
  shows "expand_str env (concat (map render ps)) = concat (map (piece_value env) ps) \<and>
    map_option kind_of (at_path path (expand_env env y)) = map_option kind_of (at_path path y) \<and>
    (\<forall>s. at_path path y = Some (YStr s) \<longrightarrow> at_path path (expand_env env y) = Some (YStr (expand_str env s)))"
proof -
  have "expand_str env (concat (map render ps)) = concat (map (piece_value env) ps)"
    using assms by (induction ps) (simp_all add: expand_piece)
  moreover have "map_option kind_of (at_path path (expand_env env y)) = map_option kind_of (at_path path y)"
    by (cases "at_path path y") (simp_all add: at_path_expand kind_expand)
  ultimately show ?thesis by (simp add: at_path_expand)
qed

theorem config_expansion_witness:
  "expand_str [(lit ''A'', lit ''x'')] (lit ''a-${A}-${B:c}'') = lit ''a-x-c'' \<and>
   at_path [Key (lit ''k''), Pos 1] (expand_env [(lit ''A'', lit ''x'')]
       (YDict [(lit ''k'', YList [YInt 3, YStr (lit ''a-${A}-${B:c}'')])])) = Some (YStr (lit ''a-x-c''))"
  using config_expansion [of "[Text (lit ''a-''), Ref (lit ''A'') None, Text (lit ''-''), Ref (lit ''B'') (Some (lit ''c''))]"
      "[(lit ''A'', lit ''x'')]" "[Key (lit ''k''), Pos 1]"
      "YDict [(lit ''k'', YList [YInt 3, YStr (lit ''a-${A}-${B:c}'')])]"]
  by (simp add: lit_def getenv_def of_char_def)

end
