(* ===== verification/Ppo.thy ===== *)
theory Ppo
  imports Network Mechanism Accountant Adaptive Config
begin

text \<open>
  \<open>training/ppo.py\<close>: the rollout buffer, generalised advantage estimation, the training step with
  its minibatches, differential privacy and the gradients for gossip. What PyTorch, numpy and
  the environment compute is an argument: the record \<open>torch\<close> holds the distribution function
  for \<open>GELU\<close>, sampling, differentiation, the optimiser, noise, conversion to float32, the gamma
  function and the permutations. An exception ends the training, its partial effects are not kept.
\<close>

section \<open>The rollout buffer\<close>

record rollout =
  ro_observations :: "real list list"
  ro_actions :: "action list"
  ro_rewards :: "real list"
  ro_values :: "real list"
  ro_log_probs :: "real list"
  ro_dones :: "bool list"

definition rollout_clear :: "rollout \<Rightarrow> rollout" where
  "rollout_clear b =
     b\<lparr>ro_observations := [], ro_actions := [], ro_rewards := [], ro_values := [],
       ro_log_probs := [], ro_dones := []\<rparr>"

definition new_rollout :: rollout where
  "new_rollout =
     \<lparr>ro_observations = [], ro_actions = [], ro_rewards = [], ro_values = [], ro_log_probs = [],
      ro_dones = []\<rparr>"

definition rollout_add ::
  "real list \<Rightarrow> action \<Rightarrow> real \<Rightarrow> real \<Rightarrow> real \<Rightarrow> bool \<Rightarrow> rollout \<Rightarrow> rollout" where
  "rollout_add obs a reward v log_prob don b =
     b\<lparr>ro_observations := ro_observations b @ [obs], ro_actions := ro_actions b @ [a],
       ro_rewards := ro_rewards b @ [reward], ro_values := ro_values b @ [v],
       ro_log_probs := ro_log_probs b @ [log_prob], ro_dones := ro_dones b @ [don]\<rparr>"

definition rollout_len :: "rollout \<Rightarrow> nat" where
  "rollout_len b = length (ro_observations b)"

section \<open>Advantages\<close>

text \<open>
  The loop over \<open>t\<close> from the last step to the first, \<open>Suc t\<close> meaning that step \<open>t\<close> is next. The
  lists have the same length because only \<open>rollout_add\<close> extends them.
\<close>

definition flag :: "bool \<Rightarrow> real" where
  "flag b = (if b then 1 else 0)"

fun gae_loop :: "real \<Rightarrow> real \<Rightarrow> real \<Rightarrow> rollout \<Rightarrow> nat \<Rightarrow> real list \<Rightarrow> real \<Rightarrow> real list" where
  "gae_loop gamma lam last_value b 0 advantages last_gae = advantages"
| "gae_loop gamma lam last_value b (Suc t) advantages last_gae =
     (let next_value = (if t = length (ro_rewards b) - 1 then last_value else ro_values b ! (t + 1));
          next_non_terminal = 1 - flag (ro_dones b ! t);
          delta = ro_rewards b ! t + gamma * next_value * next_non_terminal - ro_values b ! t;
          g = delta + gamma * lam * next_non_terminal * last_gae
      in gae_loop gamma lam last_value b t (advantages[t := g]) g)"

definition normalise_advantages :: "real list \<Rightarrow> real list" where
  "normalise_advantages xs = map (\<lambda>x. (x - list_mean xs) / (list_std xs + 1 / 100000000)) xs"

definition compute_advantages :: "training_config \<Rightarrow> real \<Rightarrow> rollout \<Rightarrow> real list \<times> real list" where
  "compute_advantages c last_value b =
     (let n_steps = length (ro_rewards b);
          advantages = gae_loop (tc_gamma c) (tc_gae_lambda c) last_value b n_steps (replicate n_steps 0) 0;
          returns = map2 (+) advantages (ro_values b)
      in (normalise_advantages advantages, returns))"

section \<open>The trainer\<close>

record 'o trainer =
  tr_config :: training_config
  tr_privacy :: "privacy_config option"
  tr_model :: actor_critic
  tr_optimizer :: 'o
  tr_buffer :: rollout
  tr_step :: int
  tr_model_version :: int
  tr_mechanism :: "mechanism option"
  tr_accountant :: "rdp_accountant option"
  tr_scheduler :: "scheduler option"
  tr_local_gradients :: "real list option"
  tr_aggregated_gradients :: "real list option"

text \<open>
  \<open>grad_of L m\<close> are the gradients of the loss \<open>L\<close> at the model \<open>m\<close>, one list per parameter;
  \<open>adam lr o ps\<close> is one step of the optimiser on the parameters with their gradients; \<open>permute e n\<close>
  is the permutation of epoch \<open>e\<close>; \<open>noise_at u\<close> the samples drawn in update \<open>u\<close>.
\<close>

record 'o torch =
  Phi :: "real \<Rightarrow> real"
  grad_of :: "(actor_critic \<Rightarrow> real) \<Rightarrow> actor_critic \<Rightarrow> real list list"
  adam :: "real \<Rightarrow> 'o \<Rightarrow> param list \<Rightarrow> 'o \<times> param list"
  permute :: "nat \<Rightarrow> nat \<Rightarrow> nat list"
  noise_at :: "nat \<Rightarrow> real \<Rightarrow> nat \<Rightarrow> real list"
  to_f32 :: "real \<Rightarrow> real"
  gamma_ln :: "real \<Rightarrow> real"

definition setup_dp :: "privacy_config \<Rightarrow> 'o trainer \<Rightarrow> 'o trainer result" where
  "setup_dp c s =
     (let p = \<lparr>dp_epsilon = pc_epsilon c, dp_delta = pc_delta c, dp_clip_norm = pc_clip_norm c,
               dp_noise_multiplier = (if pc_adaptive_noise c then None else Some (pc_noise_multiplier c))\<rparr>;
          s1 = s\<lparr>tr_mechanism := Some (new_mechanism Gaussian p), tr_accountant := Some (new_rdp None)\<rparr>
      in if pc_adaptive_noise c then
           ebind (new_scheduler (default_noise_config\<lparr>total_epsilon := pc_epsilon c, nc_delta := pc_delta c\<rparr>))
             (\<lambda>sch. Inr (s1\<lparr>tr_scheduler := Some sch\<rparr>))
         else Inr s1)"

text \<open>\<open>new_adam lr ps\<close> is the constructor of the optimiser, which raises for some learning rates.\<close>

definition new_trainer ::
  "fresh_init \<Rightarrow> orth_init \<Rightarrow> (real \<Rightarrow> param list \<Rightarrow> 'o result) \<Rightarrow> nat \<Rightarrow> nat \<Rightarrow> training_config \<Rightarrow>
     privacy_config option \<Rightarrow> 'o trainer result"
where
  "new_trainer fresh orth new_adam obs_dim action_dim c pc =
     ebind (new_actor_critic fresh orth obs_dim action_dim [256, 256] False False (lit ''tanh'')) (\<lambda>m.
     ebind (new_adam (tc_learning_rate c) (parameters m)) (\<lambda>opt.
     let s = \<lparr>tr_config = c, tr_privacy = pc, tr_model = m, tr_optimizer = opt,
              tr_buffer = new_rollout, tr_step = 0, tr_model_version = 0, tr_mechanism = None,
              tr_accountant = None, tr_scheduler = None, tr_local_gradients = None,
              tr_aggregated_gradients = None\<rparr>
     in case pc of Some p \<Rightarrow> if pc_enabled p then setup_dp p s else Inr s | None \<Rightarrow> Inr s))"

section \<open>Collecting experience\<close>

text \<open>
  An environment of state \<open>'e\<close>: the shape of its observation space (\<open>None\<close> where the space has
  none), its action space, with an attribute \<open>n\<close> or with a shape only; \<open>env_reset\<close> returns the
  first observation, \<open>env_step\<close> raises (an action the space does not have, say) or returns the next
  observation, the reward and the flags \<open>done\<close> and \<open>truncated\<close>.
\<close>

datatype action_space = Space_N nat | Space_Shape "nat list option"

record 'e env =
  env_obs_shape :: "nat list option"
  env_action_space :: action_space
  env_reset :: "'e \<Rightarrow> 'e \<times> real list"
  env_step :: "'e \<Rightarrow> action \<Rightarrow> ('e \<times> real list \<times> real \<times> bool \<times> bool) result"

text \<open>\<open>env.reset()[0] if hasattr(env.reset(), '__getitem__') else env.reset()\<close> resets twice.\<close>

definition reset_obs :: "'e env \<Rightarrow> 'e \<Rightarrow> 'e \<times> real list" where
  "reset_obs v e = env_reset v (fst (env_reset v e))"

text \<open>\<open>smp t\<close> is the sampling of the \<open>t\<close>-th action, \<open>n\<close> the number of steps left.\<close>

fun collect_steps ::
  "'o torch \<Rightarrow> 'e env \<Rightarrow> (nat \<Rightarrow> dist \<Rightarrow> action) \<Rightarrow> actor_critic \<Rightarrow> nat \<Rightarrow>
     'e \<Rightarrow> real list \<Rightarrow> rollout \<Rightarrow> real \<Rightarrow> int \<Rightarrow> ('e \<times> rollout \<times> real \<times> int) result"
where
  "collect_steps x v smp m 0 e obs b tot eps = Inr (e, b, tot, eps)"
| "collect_steps x v smp m (Suc n) e obs b tot eps =
     ebind (get_action_and_value (Phi x) (smp n) m obs None False) (\<lambda>(a, val, log_prob, _).
     ebind (env_step v e a) (\<lambda>(e1, next_obs, reward, don, truncated).
     let d = (don \<or> truncated);
         b1 = rollout_add obs a reward val log_prob d b
     in if d then
          let (e2, obs1) = reset_obs v e1 in collect_steps x v smp m n e2 obs1 b1 (tot + reward) (eps + 1)
        else collect_steps x v smp m n e1 next_obs b1 (tot + reward) eps))"

definition collect_rollout ::
  "'o torch \<Rightarrow> 'e env \<Rightarrow> (nat \<Rightarrow> dist \<Rightarrow> action) \<Rightarrow> int \<Rightarrow> 'e \<Rightarrow> 'o trainer \<Rightarrow>
     ('e \<times> 'o trainer \<times> real \<times> int) result"
where
  "collect_rollout x v smp n_steps e s =
     (let (e1, obs) = reset_obs v e in
      ebind (collect_steps x v smp (tr_model s) (nat n_steps) e1 obs (rollout_clear (tr_buffer s)) 0 0)
        (\<lambda>(e2, b, tot, eps). Inr (e2, s\<lparr>tr_buffer := b\<rparr>, tot, eps)))"

section \<open>Losses\<close>

text \<open>A sample: observation, action, old log probability, advantage and return.\<close>

type_synonym sample = "real list \<times> action \<times> real \<times> real \<times> real"

text \<open>The ratio, the value and the entropy of each sample.\<close>

definition forward_batch :: "(real \<Rightarrow> real) \<Rightarrow> sample list \<Rightarrow> actor_critic \<Rightarrow> (real \<times> real \<times> real) list result" where
  "forward_batch phi batch m =
     results (map (\<lambda>(obs, a, old_log_prob, _, _).
       ebind (get_action_and_value phi best_action m obs (Some a) False) (\<lambda>(_, v, log_prob, entropy).
       Inr (exp (log_prob - old_log_prob), v, entropy))) batch)"

definition clipped_ratio :: "training_config \<Rightarrow> real \<Rightarrow> real" where
  "clipped_ratio c ratio = np_clip (1 - tc_clip_epsilon c) (1 + tc_clip_epsilon c) ratio"

definition policy_loss :: "training_config \<Rightarrow> sample list \<Rightarrow> (real \<times> real \<times> real) list \<Rightarrow> real" where
  "policy_loss c batch outs =
     - list_mean (map2 (\<lambda>(_, _, _, advantage, _) (ratio, _, _).
         min (ratio * advantage) (clipped_ratio c ratio * advantage)) batch outs)"

definition value_loss :: "sample list \<Rightarrow> (real \<times> real \<times> real) list \<Rightarrow> real" where
  "value_loss batch outs =
     1 / 2 * list_mean (map2 (\<lambda>(_, _, _, _, ret) (_, v, _). (v - ret)\<^sup>2) batch outs)"

definition entropy_loss :: "(real \<times> real \<times> real) list \<Rightarrow> real" where
  "entropy_loss outs = - list_mean (map (\<lambda>(_, _, entropy). entropy) outs)"

definition total_loss_of :: "training_config \<Rightarrow> sample list \<Rightarrow> (real \<times> real \<times> real) list \<Rightarrow> real" where
  "total_loss_of c batch outs =
     policy_loss c batch outs + tc_value_coef c * value_loss batch outs
       + tc_entropy_coef c * entropy_loss outs"

text \<open>The loss as a function of the model, which \<open>loss.backward()\<close> differentiates.\<close>

definition loss_fun :: "(real \<Rightarrow> real) \<Rightarrow> training_config \<Rightarrow> sample list \<Rightarrow> actor_critic \<Rightarrow> real" where
  "loss_fun phi c batch m =
     (case forward_batch phi batch m of Inr outs \<Rightarrow> total_loss_of c batch outs | Inl e \<Rightarrow> 0)"

section \<open>One update\<close>

definition zero_grad :: "param list \<Rightarrow> param list" where
  "zero_grad ps = map (\<lambda>p. p\<lparr>pm_grad := None\<rparr>) ps"

text \<open>\<open>backward\<close> adds to the gradients that are there.\<close>

definition backward :: "real list list \<Rightarrow> param list \<Rightarrow> param list" where
  "backward gs ps =
     map2 (\<lambda>p g. p\<lparr>pm_grad := Some (case pm_grad p of None \<Rightarrow> g | Some h \<Rightarrow> map2 (+) h g)\<rparr>) ps gs"

text \<open>\<open>clip_grad_norm_\<close>: the factor is at most one.\<close>

definition clip_grad_norm :: "real \<Rightarrow> param list \<Rightarrow> param list" where
  "clip_grad_norm max_norm ps =
     (let coef = min 1 (max_norm / (l2_norm (grads_of ps) + 1 / 1000000))
      in map (\<lambda>p. p\<lparr>pm_grad := map_option (map (\<lambda>g. g * coef)) (pm_grad p)\<rparr>) ps)"

definition extract_gradients :: "'o trainer \<Rightarrow> 'o trainer" where
  "extract_gradients s = s\<lparr>tr_local_gradients := Some (get_gradient_vector (tr_model s))\<rparr>"

text \<open>The multiplier the scheduler hands out overrides the one of the mechanism.\<close>

definition schedule_noise :: "real list \<Rightarrow> mechanism \<Rightarrow> 'o trainer \<Rightarrow> ('o trainer \<times> mechanism) result" where
  "schedule_noise g mech s =
     (case tr_scheduler s of
        None \<Rightarrow> Inr (s, mech)
      | Some sch \<Rightarrow>
          ebind (get_noise_multiplier (tr_step s) (Some (l2_norm g)) sch) (\<lambda>(sch1, mult).
          Inr (s\<lparr>tr_scheduler := Some sch1\<rparr>,
               mech\<lparr>params := (params mech)\<lparr>dp_noise_multiplier := Some mult\<rparr>\<rparr>)))"

definition track_privacy :: "'o torch \<Rightarrow> mechanism \<Rightarrow> 'o trainer \<Rightarrow> 'o trainer result" where
  "track_privacy x mech s =
     (case tr_accountant s of
        None \<Rightarrow> Inr (s\<lparr>tr_mechanism := Some mech\<rparr>)
      | Some acc \<Rightarrow>
          ebind (noise_multiplier mech) (\<lambda>(mech1, mult).
          if rollout_len (tr_buffer s) = 0 then Inl ZeroDivisionError
          else
            ebind (rdp_step (gamma_ln x) mult
                     (real_of_int (tc_batch_size (tr_config s)) / real (rollout_len (tr_buffer s))) acc) (\<lambda>acc1.
            Inr (s\<lparr>tr_mechanism := Some mech1, tr_accountant := Some acc1\<rparr>))))"

definition apply_dp_noise :: "'o torch \<Rightarrow> nat \<Rightarrow> 'o trainer \<Rightarrow> 'o trainer result" where
  "apply_dp_noise x u s =
     (case (tr_local_gradients s, tr_mechanism s) of
        (Some g, Some mech0) \<Rightarrow>
          ebind (schedule_noise g mech0 s) (\<lambda>(s1, mech1).
          ebind (privatize (noise_at x u) (to_f32 x) g mech1) (\<lambda>(mech2, noisy, metadata).
          ebind (set_gradient_vector (tr_model s1) noisy) (\<lambda>m.
          track_privacy x mech2 (s1\<lparr>tr_model := m, tr_local_gradients := Some noisy\<rparr>))))
      | _ \<Rightarrow> Inr s)"

definition optimizer_step :: "'o torch \<Rightarrow> 'o trainer \<Rightarrow> 'o trainer" where
  "optimizer_step x s =
     (let (opt, ps) = adam x (tc_learning_rate (tr_config s)) (tr_optimizer s) (parameters (tr_model s))
      in s\<lparr>tr_optimizer := opt, tr_model := put_parameters (tr_model s) ps\<rparr>)"

text \<open>The totals of the statistics and the number of updates.\<close>

record totals =
  total_policy :: real
  total_value :: real
  total_entropy :: real
  total_kl :: real
  total_clip :: real
  n_updates :: nat

definition add_totals :: "training_config \<Rightarrow> sample list \<Rightarrow> (real \<times> real \<times> real) list \<Rightarrow> totals \<Rightarrow> totals" where
  "add_totals c batch outs t =
     t\<lparr>total_policy := total_policy t + policy_loss c batch outs,
       total_value := total_value t + value_loss batch outs,
       total_entropy := total_entropy t + entropy_loss outs,
       total_kl := total_kl t + list_mean (map (\<lambda>(ratio, _, _). ratio - 1 - ln ratio) outs),
       total_clip := total_clip t +
         list_mean (map (\<lambda>(ratio, _, _). flag (\<bar>ratio - 1\<bar> > tc_clip_epsilon c)) outs),
       n_updates := n_updates t + 1\<rparr>"

text \<open>\<open>zero_grad\<close>, \<open>backward\<close>, the clipping of the norm and \<open>_extract_gradients\<close>.\<close>

definition compute_gradients :: "'o torch \<Rightarrow> sample list \<Rightarrow> 'o trainer \<Rightarrow> 'o trainer" where
  "compute_gradients x batch s =
     (let c = tr_config s;
          m = put_parameters (tr_model s) (zero_grad (parameters (tr_model s)));
          ps1 = backward (grad_of x (loss_fun (Phi x) c batch) m) (parameters m);
          ps2 = (if tc_max_grad_norm c > 0 then clip_grad_norm (tc_max_grad_norm c) ps1 else ps1)
      in extract_gradients (s\<lparr>tr_model := put_parameters m ps2\<rparr>))"

definition ppo_update :: "'o torch \<Rightarrow> sample list \<Rightarrow> 'o trainer \<times> totals \<Rightarrow> ('o trainer \<times> totals) result" where
  "ppo_update x batch st =
     (case st of (s, t) \<Rightarrow>
        ebind (forward_batch (Phi x) batch (tr_model s)) (\<lambda>outs.
        ebind (apply_dp_noise x (n_updates t) (compute_gradients x batch s)) (\<lambda>s1.
        Inr (optimizer_step x s1, add_totals (tr_config s) batch outs t))))"

section \<open>A training step\<close>

text \<open>\<open>indices[start:end]\<close> for \<open>start\<close> in \<open>range(0, n_samples, batch_size)\<close>.\<close>

definition minibatches :: "nat \<Rightarrow> nat list \<Rightarrow> nat list list" where
  "minibatches b ix =
     (let n = length ix in
      map (\<lambda>k. let start = k * b; stop = min (start + b) n in take (stop - start) (drop start ix))
        [0..<(n + b - 1) div b])"

text \<open>The index lists of all updates, epoch by epoch; a negative batch size gives no range.\<close>

definition batch_schedule :: "'o torch \<Rightarrow> training_config \<Rightarrow> nat \<Rightarrow> nat list list" where
  "batch_schedule x c n =
     (if tc_batch_size c < 0 then []
      else concat (map (\<lambda>e. minibatches (nat (tc_batch_size c)) (permute x e n)) [0..<nat (tc_n_epochs c)]))"

fun run_updates :: "'o torch \<Rightarrow> sample list list \<Rightarrow> 'o trainer \<times> totals \<Rightarrow> ('o trainer \<times> totals) result" where
  "run_updates x [] st = Inr st"
| "run_updates x (b # bs) st = ebind (ppo_update x b st) (run_updates x bs)"

definition list_var :: "real list \<Rightarrow> real" where
  "list_var xs = list_mean (map (\<lambda>x. (x - list_mean xs)\<^sup>2) xs)"

record ppo_stats =
  st_policy_loss :: real
  st_value_loss :: real
  st_entropy_loss :: real
  st_total_loss :: real
  st_approx_kl :: real
  st_clip_fraction :: real
  st_explained_variance :: real
  st_mean_reward :: real
  st_gradient_norm :: real

definition stats_of :: "'o trainer \<Rightarrow> real list \<Rightarrow> totals \<Rightarrow> ppo_stats result" where
  "stats_of s returns t =
     (let n = real (n_updates t); b = tr_buffer s in
      if n_updates t = 0 then Inl ZeroDivisionError
      else Inr \<lparr>st_policy_loss = total_policy t / n, st_value_loss = total_value t / n,
                st_entropy_loss = total_entropy t / n,
                st_total_loss = (total_policy t + total_value t + total_entropy t) / n,
                st_approx_kl = total_kl t / n, st_clip_fraction = total_clip t / n,
                st_explained_variance =
                  1 - list_var (map2 (-) returns (ro_values b)) / (list_var returns + 1 / 100000000),
                st_mean_reward = list_mean (ro_rewards b),
                st_gradient_norm = (case tr_local_gradients s of Some g \<Rightarrow> l2_norm g | None \<Rightarrow> 0)\<rparr>)"

definition no_totals :: totals where
  "no_totals = \<lparr>total_policy = 0, total_value = 0, total_entropy = 0, total_kl = 0, total_clip = 0,
     n_updates = 0\<rparr>"

text \<open>
  The value of the last stored observation stands for the value after the rollout. An empty
  buffer raises at \<open>observations[-1]\<close>, a batch size of zero at \<open>range\<close>.
\<close>

definition samples_of :: "training_config \<Rightarrow> real \<Rightarrow> rollout \<Rightarrow> sample list \<times> real list" where
  "samples_of c last_value b =
     (let (advantages, returns) = compute_advantages c last_value b
      in (zip (ro_observations b) (zip (ro_actions b) (zip (ro_log_probs b) (zip advantages returns))), returns))"

definition train_step :: "'o torch \<Rightarrow> (dist \<Rightarrow> action) \<Rightarrow> 'o trainer \<Rightarrow> ('o trainer \<times> ppo_stats) result" where
  "train_step x smp s =
     (let c = tr_config s; b = tr_buffer s in
      if ro_observations b = [] then Inl IndexError
      else
        ebind (get_action_and_value (Phi x) smp (tr_model s) (last (ro_observations b)) None False)
          (\<lambda>(_, last_value, _, _).
        let (samples, returns) = samples_of c last_value b in
        if tc_batch_size c = 0 \<and> tc_n_epochs c > 0 then Inl ValueError
        else
          ebind (run_updates x
                   (map (map (\<lambda>i. samples ! i)) (batch_schedule x c (length samples))) (s, no_totals)) (\<lambda>(s1, t).
          let s2 = s1\<lparr>tr_step := tr_step s1 + 1\<rparr> in
          ebind (stats_of s2 returns t) (\<lambda>st. Inr (s2, st)))))"

section \<open>Gradients, parameters and checkpoints\<close>

definition get_gradients :: "'o trainer \<Rightarrow> real list" where
  "get_gradients s = (case tr_local_gradients s of None \<Rightarrow> [] | Some g \<Rightarrow> g)"

definition apply_aggregated_gradients :: "real list \<Rightarrow> 'o trainer \<Rightarrow> 'o trainer result" where
  "apply_aggregated_gradients g s =
     (let s1 = s\<lparr>tr_aggregated_gradients := Some g\<rparr> in
      ebind (case tr_local_gradients s1 of
               None \<Rightarrow> Inr s1
             | Some l \<Rightarrow>
                 ebind (np_add (map (\<lambda>a. 1 / 2 * a) l) (map (\<lambda>a. 1 / 2 * a) g)) (\<lambda>merged.
                 ebind (set_gradient_vector (tr_model s1) merged) (\<lambda>m. Inr (s1\<lparr>tr_model := m\<rparr>)))) (\<lambda>s2.
      Inr (s2\<lparr>tr_model_version := tr_model_version s2 + 1\<rparr>)))"

definition get_parameters :: "'o trainer \<Rightarrow> real list" where
  "get_parameters s = get_parameter_vector (tr_model s)"

definition set_parameters :: "real list \<Rightarrow> 'o trainer \<Rightarrow> 'o trainer result" where
  "set_parameters v s = ebind (set_parameter_vector (tr_model s) v) (\<lambda>m. Inr (s\<lparr>tr_model := m\<rparr>))"

definition trainer_privacy_spent :: "'o trainer \<Rightarrow> pyfloat \<times> real" where
  "trainer_privacy_spent s =
     (case tr_accountant s of
        None \<Rightarrow> (Fin 0, 0)
      | Some acc \<Rightarrow>
          get_privacy_spent (case tr_privacy s of Some p \<Rightarrow> pc_delta p | None \<Rightarrow> 1 / 100000) acc)"

text \<open>
  What a checkpoint holds: the shapes and values of the parameters, the optimiser and the two counters.
\<close>

record 'o checkpoint =
  cp_model :: "(nat list \<times> real list) list"
  cp_optimizer :: 'o
  cp_step :: int
  cp_model_version :: int

definition save_checkpoint :: "'o trainer \<Rightarrow> 'o checkpoint" where
  "save_checkpoint s =
     \<lparr>cp_model = map (\<lambda>p. (pm_shape p, pm_data p)) (parameters (tr_model s)), cp_optimizer = tr_optimizer s,
      cp_step = tr_step s, cp_model_version = tr_model_version s\<rparr>"

text \<open>\<open>load_state_dict\<close> raises \<open>RuntimeError\<close> when the shapes differ.\<close>

definition load_state_dict :: "(nat list \<times> real list) list \<Rightarrow> actor_critic \<Rightarrow> actor_critic result" where
  "load_state_dict d m =
     (let ps = parameters m in
      if map fst d \<noteq> map pm_shape ps then Inl RuntimeError
      else Inr (put_parameters m (map2 (\<lambda>p (shape, xs). p\<lparr>pm_data := xs\<rparr>) ps d)))"

definition load_checkpoint :: "'o checkpoint \<Rightarrow> 'o trainer \<Rightarrow> 'o trainer result" where
  "load_checkpoint c s =
     ebind (load_state_dict (cp_model c) (tr_model s)) (\<lambda>m.
     Inr (s\<lparr>tr_model := m, tr_optimizer := cp_optimizer c, tr_step := cp_step c,
            tr_model_version := cp_model_version c\<rparr>))"

end
