(* ===== verification/Ppo_Props.thy ===== *)
theory Ppo_Props
  imports Ppo Network_Props
begin

text \<open>
  The data a training step works on: the rollout, the advantages against the closed form of
  generalised advantage estimation, their normalisation, and the minibatches.
\<close>

section \<open>Rollouts\<close>

definition rollout_ok :: "rollout \<Rightarrow> nat \<Rightarrow> bool" where
  "rollout_ok b n \<longleftrightarrow>
     length (ro_observations b) = n \<and> length (ro_actions b) = n \<and> length (ro_rewards b) = n \<and>
     length (ro_values b) = n \<and> length (ro_log_probs b) = n \<and> length (ro_dones b) = n"

lemma rollout_ok_add [wf_intros]: "rollout_ok b n \<Longrightarrow> rollout_ok (rollout_add obs a r v lp d b) (Suc n)"
  by (simp add: rollout_ok_def rollout_add_def)

lemma rollout_ok_clear [simp]: "rollout_ok (rollout_clear b) 0"
  by (simp add: rollout_ok_def rollout_clear_def)

lemma collect_steps_ok:
  "collect_steps x v smp m n e obs b tot eps = Inr (e', b', tot', eps') \<Longrightarrow> rollout_ok b k \<Longrightarrow>
     rollout_ok b' (k + n) \<and> tot' - sum_list (ro_rewards b') = tot - sum_list (ro_rewards b) \<and>
     eps' - int (length (filter id (ro_dones b'))) = eps - int (length (filter id (ro_dones b))) \<and>
     take k (ro_observations b') = ro_observations b"
proof (induction n arbitrary: e obs b tot eps k)
  case 0
  then show ?case by (simp add: rollout_ok_def)
next
  case (Suc n)
  from Suc.prems(1) obtain a val lp ent e1 obs1 r don tru where
    a: "get_action_and_value (Phi x) (smp n) m obs None False = Inr (a, val, lp, ent)"
    and st: "env_step v e a = Inr (e1, obs1, r, don, tru)"
    by (auto simp: ebind_Inr_iff)
  define b1 where "b1 = rollout_add obs a r val lp (don \<or> tru) b"
  have ok: "rollout_ok b1 (Suc k)" unfolding b1_def by (rule rollout_ok_add [OF Suc.prems(2)])
  have frame: "ro_rewards b1 = ro_rewards b @ [r]" "ro_dones b1 = ro_dones b @ [don \<or> tru]"
    "take k (ro_observations b1) = ro_observations b"
    using Suc.prems(2) by (simp_all add: b1_def rollout_add_def rollout_ok_def)
  have take: "take k xs = ro_observations b" if "take (Suc k) xs = ro_observations b1" for xs
    using that frame(3) by (metis take_take min.absorb1 le_Suc_eq order_refl)
  obtain e2 obs2 where rs: "reset_obs v e1 = (e2, obs2)" by (cases "reset_obs v e1")
  show ?case
  proof (cases "don \<or> tru")
    case True
    with Suc.prems(1) have "collect_steps x v smp m n e2 obs2 b1 (tot + r) (eps + 1) = Inr (e', b', tot', eps')"
      by (simp add: a st rs b1_def Let_def)
    from Suc.IH [OF this ok] take show ?thesis by (simp add: frame True)
  next
    case False
    with Suc.prems(1) have "collect_steps x v smp m n e1 obs1 b1 (tot + r) eps = Inr (e', b', tot', eps')"
      by (simp add: a st b1_def Let_def)
    from Suc.IH [OF this ok] take False show ?thesis by (simp add: frame)
  qed
qed

section \<open>Generalised advantage estimation\<close>

text \<open>The textbook definition: residuals discounted by \<open>gamma * lam\<close> until the episode ends.\<close>

definition next_value :: "real \<Rightarrow> rollout \<Rightarrow> nat \<Rightarrow> real" where
  "next_value last_value b t = (if t + 1 < length (ro_rewards b) then ro_values b ! (t + 1) else last_value)"

definition alive :: "rollout \<Rightarrow> nat \<Rightarrow> real" where
  "alive b t = 1 - flag (ro_dones b ! t)"

definition residual :: "real \<Rightarrow> real \<Rightarrow> rollout \<Rightarrow> nat \<Rightarrow> real" where
  "residual gamma last_value b t =
     ro_rewards b ! t + gamma * next_value last_value b t * alive b t - ro_values b ! t"

definition gae_spec :: "real \<Rightarrow> real \<Rightarrow> real \<Rightarrow> rollout \<Rightarrow> nat \<Rightarrow> real" where
  "gae_spec gamma lam last_value b t =
     (\<Sum>k\<in>{t..<length (ro_rewards b)}. (\<Prod>j\<in>{t..<k}. gamma * lam * alive b j) * residual gamma last_value b k)"

lemma sum_unroll:
  fixes f c :: "nat \<Rightarrow> real"
  assumes "t < n"
  shows "(\<Sum>k\<in>{t..<n}. (\<Prod>j\<in>{t..<k}. c j) * f k) = f t + c t * (\<Sum>k\<in>{Suc t..<n}. (\<Prod>j\<in>{Suc t..<k}. c j) * f k)"
proof -
  have "(\<Prod>j\<in>{t..<k}. c j) = c t * (\<Prod>j\<in>{Suc t..<k}. c j)" if "k \<in> {Suc t..<n}" for k
    by (rule prod.atLeast_Suc_lessThan) (use that in simp)
  then have "(\<Sum>k\<in>{Suc t..<n}. (\<Prod>j\<in>{t..<k}. c j) * f k) =
      c t * (\<Sum>k\<in>{Suc t..<n}. (\<Prod>j\<in>{Suc t..<k}. c j) * f k)"
    unfolding sum_distrib_left by (intro sum.cong) (simp_all only: mult.assoc)
  moreover have "(\<Sum>k\<in>{t..<n}. (\<Prod>j\<in>{t..<k}. c j) * f k) =
      f t + (\<Sum>k\<in>{Suc t..<n}. (\<Prod>j\<in>{t..<k}. c j) * f k)"
    unfolding sum.atLeast_Suc_lessThan [OF assms] by simp
  ultimately show ?thesis by simp
qed

lemma gae_loop_spec:
  assumes "t \<le> length (ro_rewards b)" and "length adv = length (ro_rewards b)"
    and "last_gae = gae_spec gamma lam lv b t"
  shows "gae_loop gamma lam lv b t adv last_gae =
    map (\<lambda>i. if i < t then gae_spec gamma lam lv b i else adv ! i) [0..<length (ro_rewards b)]"
  using assms
proof (induction t arbitrary: adv last_gae)
  case 0
  then show ?case using map_nth [of adv] by simp
next
  case (Suc t)
  let ?n = "length (ro_rewards b)"
  define g where "g = residual gamma lv b t + gamma * lam * alive b t * last_gae"
  have t: "t < ?n" using Suc.prems(1) by simp
  have g: "g = gae_spec gamma lam lv b t"
    unfolding g_def gae_spec_def sum_unroll [OF t] using Suc.prems(3) by (simp add: gae_spec_def)
  have "(if t = ?n - 1 then lv else ro_values b ! (t + 1)) = next_value lv b t"
    using t by (auto simp: next_value_def)
  then have "gae_loop gamma lam lv b (Suc t) adv last_gae = gae_loop gamma lam lv b t (adv[t := g]) g"
    by (simp add: Let_def g_def residual_def alive_def)
  also have "\<dots> = map (\<lambda>i. if i < t then gae_spec gamma lam lv b i else adv[t := g] ! i) [0..<?n]"
    using Suc.prems(2) t g by (intro Suc.IH) simp_all
  also have "\<dots> = map (\<lambda>i. if i < Suc t then gae_spec gamma lam lv b i else adv ! i) [0..<?n]"
    using Suc.prems(2) g by (auto simp: nth_list_update less_Suc_eq)
  finally show ?case .
qed

lemma length_gae_loop [simp]: "length (gae_loop gamma lam lv b t adv last_gae) = length adv"
  by (induction t arbitrary: adv last_gae) (simp_all add: Let_def)

lemma gae_all:
  "gae_loop gamma lam lv b (length (ro_rewards b)) (replicate (length (ro_rewards b)) 0) 0 =
     map (gae_spec gamma lam lv b) [0..<length (ro_rewards b)]"
  by (subst gae_loop_spec) (auto simp: gae_spec_def)

text \<open>With \<open>lam = 1\<close> the values telescope and the returns are the discounted rewards.\<close>

definition discounted :: "real \<Rightarrow> real \<Rightarrow> rollout \<Rightarrow> nat \<Rightarrow> real" where
  "discounted gamma last_value b t =
     (\<Sum>k\<in>{t..<length (ro_rewards b)}. (\<Prod>j\<in>{t..<k}. gamma * alive b j) * ro_rewards b ! k)
       + (\<Prod>j\<in>{t..<length (ro_rewards b)}. gamma * alive b j) * last_value"

lemma gae_telescopes:
  assumes "t < length (ro_rewards b)"
  shows "gae_spec gamma 1 lv b t + ro_values b ! t = discounted gamma lv b t"
  using assms
proof (induction "length (ro_rewards b) - t" arbitrary: t)
  case (Suc d)
  let ?n = "length (ro_rewards b)"
  have spec: "gae_spec gamma 1 lv b t = residual gamma lv b t + gamma * alive b t * gae_spec gamma 1 lv b (Suc t)"
    unfolding gae_spec_def sum_unroll [OF Suc.prems] by simp
  have disc: "discounted gamma lv b t = ro_rewards b ! t + gamma * alive b t * discounted gamma lv b (Suc t)"
    unfolding discounted_def sum_unroll [OF Suc.prems] prod.atLeast_Suc_lessThan [OF Suc.prems]
    by (simp add: algebra_simps)
  show ?case
  proof (cases "Suc t < ?n")
    case True
    then have "discounted gamma lv b (Suc t) = gae_spec gamma 1 lv b (Suc t) + ro_values b ! Suc t"
      using Suc.hyps by simp
    then show ?thesis unfolding spec disc using True
      by (simp add: residual_def next_value_def algebra_simps)
  next
    case False
    with Suc.prems have "Suc t = ?n" by simp
    then have "gae_spec gamma 1 lv b (Suc t) = 0" "discounted gamma lv b (Suc t) = lv"
      by (simp_all add: gae_spec_def discounted_def)
    then show ?thesis unfolding spec disc using False by (simp add: residual_def next_value_def)
  qed
qed simp

section \<open>Normalisation\<close>

lemma sum_list_shift: "(\<Sum>x\<leftarrow>xs. (x - c) / d) = (sum_list xs - real (length xs) * c) / (d :: real)"
  by (induction xs) (simp_all add: field_simps add_divide_distrib diff_divide_distrib)

lemma list_mean_zero:
  assumes "xs \<noteq> []"
  shows "list_mean (map (\<lambda>x. (x - list_mean xs) / d) xs) = 0"
  using assms by (simp add: list_mean_def sum_list_shift)

lemma list_std_scaled:
  assumes "xs \<noteq> []" and "0 < d"
  shows "list_std (map (\<lambda>x. (x - list_mean xs) / d) xs) = list_std xs / d"
proof -
  have "(\<Sum>x\<leftarrow>xs. ((x - c) / d)\<^sup>2) = (\<Sum>x\<leftarrow>xs. (x - c)\<^sup>2) / d\<^sup>2" for c
    by (induction xs) (simp_all add: power_divide add_divide_distrib)
  then show ?thesis
    using assms unfolding list_std_def list_mean_zero [OF assms(1)]
    by (simp add: list_mean_def o_def real_sqrt_divide real_sqrt_mult)
qed

lemma list_std_nonneg: "0 \<le> list_std xs"
  by (auto simp: list_std_def list_mean_def intro!: divide_nonneg_nonneg sum_list_nonneg)

lemma normalised_advantages:
  assumes "xs \<noteq> []"
  shows "list_mean (normalise_advantages xs) = 0 \<and> 0 \<le> list_std (normalise_advantages xs) \<and>
    list_std (normalise_advantages xs) < 1"
proof -
  let ?d = "list_std xs + 1 / 100000000"
  have d: "0 < ?d" using list_std_nonneg [of xs] by linarith
  have "list_std (normalise_advantages xs) = list_std xs / ?d"
    unfolding normalise_advantages_def by (rule list_std_scaled [OF assms d])
  with d show ?thesis
    using list_std_nonneg [of xs] list_mean_zero [OF assms] by (simp add: normalise_advantages_def)
qed

section \<open>Minibatches\<close>

lemma blocks_concat:
  assumes "0 < b"
  shows "concat (map (\<lambda>k. take b (drop (k * b) xs)) [0..<m]) = take (m * b) xs"
proof (induction m)
  case (Suc m)
  have "Suc m * b = m * b + b" by simp
  then have "take (Suc m * b) xs = take (m * b) xs @ take b (drop (m * b) xs)"
    by (simp only: take_add)
  with Suc show ?case by simp
qed simp

lemma minibatches_eq:
  assumes "0 < b"
  shows "minibatches b ix = map (\<lambda>k. take b (drop (k * b) ix)) [0..<(length ix + b - 1) div b]"
  by (auto simp: minibatches_def Let_def min_def)

lemma minibatches_ok:
  assumes "0 < b"
  shows "concat (minibatches b ix) = ix" "length (minibatches b ix) = (length ix + b - 1) div b"
    "xs \<in> set (minibatches b ix) \<Longrightarrow> 0 < length xs \<and> length xs \<le> b"
proof -
  let ?m = "(length ix + b - 1) div b"
  have "length ix \<le> ?m * b"
  proof -
    have "?m * b + (length ix + b - 1) mod b = length ix + b - 1" by simp
    moreover have "(length ix + b - 1) mod b < b" using assms by simp
    ultimately show ?thesis using assms by linarith
  qed
  then show "concat (minibatches b ix) = ix"
    unfolding minibatches_eq [OF assms] blocks_concat [OF assms] by simp
  show "length (minibatches b ix) = ?m" by (simp add: minibatches_eq [OF assms])
  assume "xs \<in> set (minibatches b ix)"
  then obtain k where k: "k < ?m" "xs = take b (drop (k * b) ix)" by (auto simp: minibatches_eq [OF assms])
  then have "(k + 1) * b \<le> length ix + b - 1"
    using assms by (metis Suc_eq_plus1 Suc_leI div_times_less_eq_dividend le_trans mult_le_mono1)
  then have "k * b < length ix" using assms by simp
  with k assms show "0 < length xs \<and> length xs \<le> b" by simp
qed

lemma minibatch_sizes:
  assumes "0 < b" and "k < length (minibatches b ix)"
  shows "length (minibatches b ix ! k) = min b (length ix - k * b)"
  using assms by (simp add: minibatches_eq [OF assms(1)])

text \<open>The \<open>e\<close>-th of blocks of the same length.\<close>

lemma nth_block:
  assumes "\<And>i. i < n \<Longrightarrow> length (f i) = m" and "e < n"
  shows "take m (drop (e * m) (concat (map f [0..<n]))) = f e"
proof -
  have len: "length (concat (map f [0..<k])) = k * m" if "k \<le> n" for k
    using that by (induction k) (simp_all add: assms(1))
  have "[0..<n] = [0..<e] @ e # [Suc e..<n]"
    using assms(2) by (metis le_add_same_cancel1 less_imp_le upt_add_eq_append upt_conv_Cons zero_le le_add_diff_inverse)
  then have "concat (map f [0..<n]) = concat (map f [0..<e]) @ f e @ concat (map f [Suc e..<n])"
    by simp
  with len [of e] assms show ?thesis by simp
qed

lemma rollout_gathers:
  assumes "collect_rollout x v smp n_steps e s = Inr (e', s', tot, eps)"
  shows "rollout_ok (tr_buffer s') (nat n_steps) \<and> tot = sum_list (ro_rewards (tr_buffer s')) \<and>
    eps = int (length (filter id (ro_dones (tr_buffer s')))) \<and> s' = s\<lparr>tr_buffer := tr_buffer s'\<rparr>"
proof -
  obtain e1 obs b where "collect_steps x v smp (tr_model s) (nat n_steps) e1 obs (rollout_clear (tr_buffer s)) 0 0 =
      Inr (e', b, tot, eps)" "s' = s\<lparr>tr_buffer := b\<rparr>"
    using assms by (auto simp: collect_rollout_def ebind_Inr_iff split: prod.splits)
  with collect_steps_ok [OF this(1) rollout_ok_clear] show ?thesis by (simp add: rollout_clear_def)
qed

section \<open>Properties\<close>

definition perm_ok :: "'o torch \<Rightarrow> bool" where
  "perm_ok x \<longleftrightarrow> (\<forall>e n. mset (permute x e n) = mset [0..<n])"

text \<open>Gradient descent without randomness, an environment of two actions that ends every second episode step.\<close>

definition demo_torch :: "nat torch" where
  "demo_torch =
     \<lparr>Phi = (\<lambda>x. x), grad_of = (\<lambda>L m. map (\<lambda>p. replicate (numel p) 1) (parameters m)),
      adam = (\<lambda>lr k ps. (k + 1, map (\<lambda>p. p\<lparr>pm_data :=
        map2 (\<lambda>d g. d - lr * g) (pm_data p) (case pm_grad p of Some g \<Rightarrow> g | None \<Rightarrow> [])\<rparr>) ps)),
      permute = (\<lambda>e n. rev [0..<n]), noise_at = (\<lambda>u scale n. replicate n 0), to_f32 = (\<lambda>x. x),
      gamma_ln = (\<lambda>x. 0)\<rparr>"

lemma demo_torch_perm: "perm_ok demo_torch"
  by (simp add: perm_ok_def demo_torch_def)

definition demo_env :: "nat env" where
  "demo_env =
     \<lparr>env_obs_shape = Some [1], env_action_space = Space_N 2, env_reset = (\<lambda>e. (e + 1, [0])),
      env_step = (\<lambda>e a. if a = Discrete 0 \<or> a = Discrete 1 then Inr (e, [1], 1, True, False) else Inl ValueError)\<rparr>"

definition demo_training :: training_config where
  "demo_training = default_training_config\<lparr>tc_gae_lambda := 1, tc_gamma := 1 / 2, tc_batch_size := 2, tc_n_epochs := 3\<rparr>"

definition demo_rollout :: rollout where
  "demo_rollout = rollout_add [1] (Discrete 1) 3 2 0 False (rollout_add [1] (Discrete 0) 4 1 0 True
     (rollout_add [0] (Discrete 1) 2 1 0 False new_rollout))"

lemma demo_rollout_ok: "rollout_ok demo_rollout 3"
  by (simp add: demo_rollout_def rollout_ok_def rollout_add_def new_rollout_def)

definition demo_trainer :: "nat trainer" where
  "demo_trainer =
     \<lparr>tr_config = demo_training, tr_privacy = None, tr_model = demo_model, tr_optimizer = 0,
      tr_buffer = demo_rollout, tr_step = 0, tr_model_version = 0, tr_mechanism = None,
      tr_accountant = None, tr_scheduler = None, tr_local_gradients = None, tr_aggregated_gradients = None\<rparr>"

text \<open>
  C14. Generalised advantage estimation: the backward loop computes the textbook sum of residuals
  discounted by \<open>gamma * lambda\<close> and cut at the end of an episode; the returns are these sums plus
  the values, for \<open>lambda = 1\<close> the discounted rewards of the episode with the bootstrapped last
  value; the advantages are normalised to mean zero and a deviation below one.
\<close>

theorem gae_equivalence:
  assumes "rollout_ok b n" and "0 < n" and "compute_advantages c lv b = (adv, ret)"
  shows "adv = normalise_advantages (map (gae_spec (tc_gamma c) (tc_gae_lambda c) lv b) [0..<n]) \<and>
    length ret = n \<and>
    (\<forall>t < n. ret ! t = gae_spec (tc_gamma c) (tc_gae_lambda c) lv b t + ro_values b ! t) \<and>
    (tc_gae_lambda c = 1 \<longrightarrow> (\<forall>t < n. ret ! t = discounted (tc_gamma c) lv b t)) \<and>
    list_mean adv = 0 \<and> list_std adv < 1"
proof -
  let ?g = "gae_spec (tc_gamma c) (tc_gae_lambda c) lv b"
  have n: "length (ro_rewards b) = n" "length (ro_values b) = n"
    using assms(1) by (simp_all add: rollout_ok_def)
  have adv: "adv = normalise_advantages (map ?g [0..<n])" and ret: "ret = map2 (+) (map ?g [0..<n]) (ro_values b)"
    using assms(3) gae_all [of "tc_gamma c" "tc_gae_lambda c" lv b] by (simp_all add: compute_advantages_def n Let_def)
  have "ret ! t = ?g t + ro_values b ! t" if "t < n" for t using that by (simp add: ret n)
  moreover have "?g t + ro_values b ! t = discounted (tc_gamma c) lv b t" if "tc_gae_lambda c = 1" "t < n" for t
    using gae_telescopes [of t b "tc_gamma c" lv] that n by simp
  moreover have "map ?g [0..<n] \<noteq> []" using assms(2) by simp
  ultimately show ?thesis using normalised_advantages [of "map ?g [0..<n]"] adv by (simp add: ret n)
qed

theorem gae_equivalence_witness:
  "snd (compute_advantages demo_training 10 demo_rollout) ! 0 = 4 \<and>
   list_mean (fst (compute_advantages demo_training 10 demo_rollout)) = 0"
proof -
  have "compute_advantages demo_training 10 demo_rollout =
      (fst (compute_advantages demo_training 10 demo_rollout), snd (compute_advantages demo_training 10 demo_rollout))"
    by simp
  note gae = gae_equivalence [OF demo_rollout_ok _ this]
  have "tc_gae_lambda demo_training = 1" by (simp add: demo_training_def)
  with gae have "snd (compute_advantages demo_training 10 demo_rollout) ! 0 = discounted (tc_gamma demo_training) 10 demo_rollout 0"
    "list_mean (fst (compute_advantages demo_training 10 demo_rollout)) = 0"
    by auto
  moreover have "discounted (tc_gamma demo_training) 10 demo_rollout 0 = 4"
    by (simp add: discounted_def demo_training_def demo_rollout_def rollout_add_def new_rollout_def alive_def
        flag_def numeral_3_eq_3)
  ultimately show ?thesis by simp
qed

text \<open>
  C17. Minibatches: for any permutations and a positive batch size \<open>b\<close> the updates come in one
  block of \<open>m\<close> per epoch, \<open>m\<close> being the number of samples over \<open>b\<close>, rounded up; the batches of
  each epoch, one after the other, are the permutation of that epoch, so the epoch uses every
  sample exactly once; the \<open>i\<close>-th batch of an epoch has \<open>b\<close> samples, the last one what is left,
  and none is empty.
\<close>

theorem minibatches_partition:
  assumes "perm_ok x" and "0 < tc_batch_size c"
  shows "let b = nat (tc_batch_size c); m = (n + b - 1) div b; us = batch_schedule x c n in
    length us = nat (tc_n_epochs c) * m \<and> (\<forall>ix \<in> set us. ix \<noteq> []) \<and>
    (\<forall>e < nat (tc_n_epochs c). \<exists>es. es = take m (drop (e * m) us) \<and> length es = m \<and>
       concat es = permute x e n \<and> mset (concat es) = mset [0..<n] \<and>
       (\<forall>i < m. length (es ! i) = min b (n - i * b)))"
proof -
  let ?b = "nat (tc_batch_size c)"
  let ?m = "(n + ?b - 1) div ?b" and ?f = "\<lambda>e. minibatches ?b (permute x e n)"
  have b: "0 < ?b" using assms(2) by simp
  have p: "mset (permute x e n) = mset [0..<n]" for e using assms(1) by (simp add: perm_ok_def)
  then have len: "length (permute x e n) = n" for e by (metis length_upt minus_nat.diff_0 size_mset)
  have fm: "length (?f e) = ?m" for e using minibatches_ok(2) [OF b] by (simp add: len)
  have s: "batch_schedule x c n = concat (map ?f [0..<nat (tc_n_epochs c)])"
    using assms(2) by (simp add: batch_schedule_def)
  have block: "take ?m (drop (e * ?m) (batch_schedule x c n)) = ?f e" if "e < nat (tc_n_epochs c)" for e
    unfolding s by (rule nth_block [OF fm that])
  have "length (concat (map ?f [0..<k])) = k * ?m" for k by (induction k) (simp_all add: fm)
  moreover have "ix \<noteq> []" if "ix \<in> set (batch_schedule x c n)" for ix
    using that minibatches_ok(3) [OF b] unfolding s by fastforce
  moreover have "length (?f e ! i) = min ?b (n - i * ?b)" if "i < ?m" for e i
    using minibatch_sizes [OF b, of i "permute x e n"] that by (simp add: fm len)
  ultimately show ?thesis
    unfolding Let_def using block minibatches_ok(1) [OF b] p fm by (simp add: s)
qed

theorem minibatches_partition_witness:
  "length (batch_schedule demo_torch demo_training 5) = 9 \<and>
   mset (concat (take 3 (drop 3 (batch_schedule demo_torch demo_training 5)))) = mset [0..<5] \<and>
   length (batch_schedule demo_torch demo_training 5 ! 5) = 1"
proof -
  note r = minibatches_partition [OF demo_torch_perm, of demo_training 5, unfolded Let_def]
  have c: "nat (tc_batch_size demo_training) = 2" "nat (tc_n_epochs demo_training) = 3" "0 < tc_batch_size demo_training"
    by (simp_all add: demo_training_def)
  have "length (batch_schedule demo_torch demo_training 5) = 9" using r c by simp
  moreover have "\<exists>es. es = take 3 (drop 3 (batch_schedule demo_torch demo_training 5)) \<and>
      mset (concat es) = mset [0..<5] \<and> (\<forall>i < 3. length (es ! i) = min 2 (5 - i * 2))"
    using conjunct2 [OF conjunct2 [OF r [OF c(3)]], rule_format, of 1] c by auto
  then have "mset (concat (take 3 (drop 3 (batch_schedule demo_torch demo_training 5)))) = mset [0..<5]"
    and "\<forall>i < 3. length (take 3 (drop 3 (batch_schedule demo_torch demo_training 5)) ! i) = min 2 (5 - i * 2)"
    by blast+
  then have "mset (concat (take 3 (drop 3 (batch_schedule demo_torch demo_training 5)))) = mset [0..<5]"
    "length (take 3 (drop 3 (batch_schedule demo_torch demo_training 5)) ! 2) = 1" by simp_all
  ultimately show ?thesis by simp
qed

text \<open>
  C18. Collecting a rollout: the buffer holds exactly \<open>n_steps\<close> entries of each kind, of this rollout
  only; the reward reported is their sum and the number of episodes the number of steps that ended
  one; nothing else of the trainer changes.
\<close>

theorem rollout_collected:
  assumes "collect_rollout x v smp n_steps e s = Inr (e', s', tot, eps)"
  shows "rollout_ok (tr_buffer s') (nat n_steps) \<and> tot = sum_list (ro_rewards (tr_buffer s')) \<and>
    eps = int (length (filter id (ro_dones (tr_buffer s')))) \<and> s' = s\<lparr>tr_buffer := tr_buffer s'\<rparr>"
  using assms by (rule rollout_gathers)

theorem rollout_collected_witness:
  "\<exists>e' s' tot. collect_rollout demo_torch demo_env (\<lambda>t d. Discrete 1) 2 0 demo_trainer = Inr (e', s', tot, 2) \<and> tot = 2"
proof -
  have "\<exists>e' s' tot eps. collect_rollout demo_torch demo_env (\<lambda>t d. Discrete 1) 2 0 demo_trainer = Inr (e', s', tot, eps) \<and>
      ro_rewards (tr_buffer s') = [1, 1] \<and> ro_dones (tr_buffer s') = [True, True]"
    by (simp add: collect_rollout_def reset_obs_def demo_env_def numeral_2_eq_2 demo_trainer_def demo_model_def
        get_action_and_value_def ac_forward_def get_distribution_def policy_forward_def value_forward_def
        linear_forward_def demo_lin_def new_param_def rollout_add_def rollout_clear_def upt_rec)
  then obtain e' s' tot eps where r: "collect_rollout demo_torch demo_env (\<lambda>t d. Discrete 1) 2 0 demo_trainer = Inr (e', s', tot, eps)"
    "ro_rewards (tr_buffer s') = [1, 1]" "ro_dones (tr_buffer s') = [True, True]" by blast
  with rollout_collected [OF r(1)] show ?thesis by simp
qed

end
