(* ===== verification/Ppo_Train.thy ===== *)
theory Ppo_Train
  imports Ppo_Props
begin

text \<open>
  What a training step reads: the values of the parameters, not their gradients, which
  \<open>zero_grad\<close> clears before anything looks at them. From this follows that gradients written
  between two steps have no effect, and what the privacy accountant records.
\<close>

section \<open>Models with the same values\<close>

fun map_layers :: "(param \<Rightarrow> param) \<Rightarrow> layer list \<Rightarrow> layer list" where
  "map_layers f [] = []"
| "map_layers f (Linear l # ls) = Linear \<lparr>ln_weight = f (ln_weight l), ln_bias = f (ln_bias l)\<rparr> # map_layers f ls"
| "map_layers f (Act a # ls) = Act a # map_layers f ls"

definition map_linear :: "(param \<Rightarrow> param) \<Rightarrow> linear \<Rightarrow> linear" where
  "map_linear f l = \<lparr>ln_weight = f (ln_weight l), ln_bias = f (ln_bias l)\<rparr>"

definition map_model :: "(param \<Rightarrow> param) \<Rightarrow> actor_critic \<Rightarrow> actor_critic" where
  "map_model f m =
     (let p = ac_policy m; v = ac_value m in
      m\<lparr>ac_backbone := map_option (map_layers f) (ac_backbone m),
        ac_policy := p\<lparr>pn_log_std := map_option f (pn_log_std p),
          pn_backbone := map_layers f (pn_backbone p), pn_head := map_linear f (pn_head p)\<rparr>,
        ac_value := v\<lparr>vn_layers := map_layers f (vn_layers v), vn_final := map_linear f (vn_final v)\<rparr>\<rparr>)"

lemma put_layers_map: "put_layers ls (map f (layer_params ls) @ qs) = (map_layers f ls, qs)"
  by (induction ls rule: layer_params.induct) simp_all

lemma put_policy_map:
  "put_policy p (map f (policy_params p) @ qs) =
     (p\<lparr>pn_log_std := map_option f (pn_log_std p), pn_backbone := map_layers f (pn_backbone p),
        pn_head := map_linear f (pn_head p)\<rparr>, qs)"
  by (cases "pn_log_std p")
    (simp_all add: put_policy_def policy_params_def layer_params_append put_layers_map put_linear_def map_linear_def)

lemma put_value_map:
  "put_value v (map f (value_params v) @ qs) =
     (v\<lparr>vn_layers := map_layers f (vn_layers v), vn_final := map_linear f (vn_final v)\<rparr>, qs)"
  by (simp add: put_value_def value_params_def layer_params_append put_layers_map put_linear_def map_linear_def)

lemma put_parameters_map: "put_parameters m (map f (parameters m)) = map_model f m"
  using put_value_map [of "ac_value m" f "[]"]
  by (cases "ac_backbone m")
    (simp_all add: put_parameters_def parameters_def map_model_def put_layers_map put_policy_map Let_def)

text \<open>A change of the gradients alone.\<close>

definition keeps_values :: "(param \<Rightarrow> param) \<Rightarrow> bool" where
  "keeps_values f \<longleftrightarrow> (\<forall>p. pm_data (f p) = pm_data p \<and> pm_shape (f p) = pm_shape p)"

lemma linear_forward_map: "keeps_values f \<Longrightarrow> linear_forward (map_linear f l) x = linear_forward l x"
  by (simp add: linear_forward_def map_linear_def keeps_values_def split: list.split)

lemma sequential_map: "keeps_values f \<Longrightarrow> sequential phi (map_layers f ls) x = sequential phi ls x"
proof (induction ls arbitrary: x rule: layer_params.induct)
  case (2 l ls)
  then have "sequential phi (map_layers f ls) = sequential phi ls" by auto
  with linear_forward_map [OF "2.prems", of l x] show ?case by (simp add: map_linear_def)
qed simp_all

lemma sequential_append:
  "sequential phi (ls @ ms) x = ebind (sequential phi ls x) (sequential phi ms)"
proof (induction ls arbitrary: x)
  case (Cons l ls)
  then show ?case by (cases "layer_forward phi l x") simp_all
qed simp

lemma ebind_return: "ebind m Inr = m"
  by (cases m) simp_all

lemma sequential_linear: "sequential phi [Linear l] = linear_forward l"
  by (rule ext) (simp add: ebind_return sequential.simps(1) [abs_def])

lemma ac_forward_map:
  assumes "keeps_values f"
  shows "ac_forward phi (map_model f m) x = ac_forward phi m x"
proof -
  have "pm_data \<circ> f = pm_data" using assms by (auto simp: keeps_values_def)
  then have d: "get_distribution phi (ac_policy (map_model f m)) y = get_distribution phi (ac_policy m) y" for y
    by (simp add: get_distribution_def policy_forward_def map_model_def Let_def sequential_map [OF assms]
        linear_forward_map [OF assms] option.map_comp)
  have v: "value_forward phi (ac_value (map_model f m)) y = value_forward phi (ac_value m) y" for y
    unfolding value_forward_def sequential_append sequential_linear
    by (simp add: map_model_def Let_def sequential_map [OF assms] linear_forward_map [OF assms, abs_def])
  show ?thesis
    by (cases "ac_backbone m")
      (simp_all add: ac_forward_def d v, simp_all add: map_model_def Let_def sequential_map [OF assms])
qed

section \<open>Writing parameters twice\<close>

lemma put_layers_twice:
  "length ps = length (layer_params ls) \<Longrightarrow> length rs = length ps \<Longrightarrow>
     put_layers (fst (put_layers ls (ps @ qs))) (rs @ ts) = put_layers ls (rs @ ts)"
proof (induction ls arbitrary: ps rs rule: layer_params.induct)
  case (2 l ls)
  then obtain w b ps' where ps: "ps = w # b # ps'" "length ps' = length (layer_params ls)"
    by (auto simp: length_Suc_conv)
  with "2.prems" obtain w' b' rs' where rs: "rs = w' # b' # rs'" "length rs' = length ps'"
    by (auto simp: length_Suc_conv)
  from "2.IH" [OF ps(2) rs(2)] show ?case by (simp add: ps rs case_prod_beta)
qed (simp_all add: case_prod_beta)

lemma put_policy_twice:
  assumes "length ps = length (policy_params p)" and "length rs = length ps"
  shows "put_policy (fst (put_policy p (ps @ qs))) (rs @ ts) = put_policy p (rs @ ts)"
proof -
  obtain ss ls w b where ps: "ps = ss @ ls @ [w, b]" "length ss = (if pn_log_std p = None then 0 else 1)"
    "length ls = length (layer_params (pn_backbone p))"
    using policy_pieces [OF assms(1)] by blast
  obtain ss' ls' w' b' where rs: "rs = ss' @ ls' @ [w', b']" "length ss' = (if pn_log_std p = None then 0 else 1)"
    "length ls' = length (layer_params (pn_backbone p))"
    using policy_pieces [OF assms(2) [unfolded assms(1)]] by blast
  note twice = put_layers_twice [of ls "pn_backbone p" ls' "w # b # qs" "w' # b' # ts"]
    put_layers_params [OF ps(3), of "w # b # qs"] put_layers_params [OF rs(3), of "w' # b' # ts"]
  show ?thesis
  proof (cases "pn_log_std p")
    case None
    with ps rs twice show ?thesis by (simp add: put_policy_def put_linear_def case_prod_beta)
  next
    case (Some t)
    with ps rs obtain a a' where "ss = [a]" "ss' = [a']" by (auto simp: length_Suc_conv)
    with Some ps rs twice show ?thesis by (simp add: put_policy_def put_linear_def case_prod_beta)
  qed
qed

lemma put_value_twice:
  assumes "length ps = length (value_params v)" and "length rs = length ps"
  shows "put_value (fst (put_value v (ps @ qs))) (rs @ ts) = put_value v (rs @ ts)"
proof -
  have n: "length ps = length (layer_params (vn_layers v)) + 2"
    "length rs = length (layer_params (vn_layers v)) + 2"
    using assms by (simp_all add: value_params_def layer_params_append)
  obtain ls hs where ps: "ps = ls @ hs" "length ls = length (layer_params (vn_layers v))" "length hs = 2"
    using n(1) by (rule split_at_length)
  obtain ls' hs' where rs: "rs = ls' @ hs'" "length ls' = length (layer_params (vn_layers v))" "length hs' = 2"
    using n(2) by (rule split_at_length)
  obtain w b w' b' where hs: "hs = [w, b]" "hs' = [w', b']"
    using ps(3) rs(3) by (auto simp: length_Suc_conv numeral_2_eq_2)
  show ?thesis
    using ps rs hs put_layers_twice [of ls "vn_layers v" ls' "w # b # qs" "w' # b' # ts"]
      put_layers_params [OF ps(2), of "w # b # qs"] put_layers_params [OF rs(2), of "w' # b' # ts"]
    by (simp add: put_value_def put_linear_def case_prod_beta)
qed

lemma put_parameters_twice:
  assumes "length ps = length (parameters m)" and "length rs = length ps"
  shows "put_parameters (put_parameters m ps) rs = put_parameters m rs"
proof -
  obtain bs xs ys where ps: "ps = bs @ xs @ ys"
    "length bs = length (case ac_backbone m of Some ls \<Rightarrow> layer_params ls | None \<Rightarrow> [])"
    "length xs = length (policy_params (ac_policy m))" "length ys = length (value_params (ac_value m))"
    using model_pieces [OF assms(1)] by blast
  have "length rs = length (parameters m)" using assms by simp
  then obtain bs' xs' ys' where rs: "rs = bs' @ xs' @ ys'"
    "length bs' = length (case ac_backbone m of Some ls \<Rightarrow> layer_params ls | None \<Rightarrow> [])"
    "length xs' = length (policy_params (ac_policy m))" "length ys' = length (value_params (ac_value m))"
    using model_pieces by blast
  note twice = put_policy_twice [OF ps(3), of xs' ys ys'] put_value_twice [OF ps(4), of ys' "[]" "[]"]
    put_policy_params [OF ps(3), of ys] put_policy_params [OF rs(3), of ys']
  show ?thesis
  proof (cases "ac_backbone m")
    case None
    with ps rs twice show ?thesis by (simp add: put_parameters_def case_prod_beta)
  next
    case (Some ls)
    with ps rs twice put_layers_twice [of bs ls bs' "xs @ ys" "xs' @ ys'"]
      put_layers_params [of bs ls "xs @ ys"] put_layers_params [of bs' ls "xs' @ ys'"]
    show ?thesis by (simp add: put_parameters_def case_prod_beta)
  qed
qed

section \<open>Changes of the gradients alone\<close>

definition same_values :: "actor_critic \<Rightarrow> actor_critic \<Rightarrow> bool" where
  "same_values m m' \<longleftrightarrow>
     (\<exists>qs. m' = put_parameters m qs \<and> map pm_data qs = map pm_data (parameters m) \<and>
        map pm_shape qs = map pm_shape (parameters m))"

lemma put_grads_values:
  "put_grads g off ps = Inr qs \<Longrightarrow> map pm_data qs = map pm_data ps \<and> map pm_shape qs = map pm_shape ps"
  by (induction ps arbitrary: off qs) (auto simp: ebind_Inr_iff Let_def split: if_splits)

lemma set_gradient_values: "set_gradient_vector m g = Inr m' \<Longrightarrow> same_values m m'"
  using put_grads_values [of g 0 "parameters m"]
  by (auto simp: set_gradient_vector_def ebind_Inr_iff same_values_def)

lemma zero_grad_values:
  "map pm_data qs = map pm_data ps \<Longrightarrow> map pm_shape qs = map pm_shape ps \<Longrightarrow> zero_grad qs = zero_grad ps"
proof (induction ps arbitrary: qs)
  case (Cons p ps)
  then obtain q qs' where qs: "qs = q # qs'" "pm_data q = pm_data p" "pm_shape q = pm_shape p"
    "map pm_data qs' = map pm_data ps" "map pm_shape qs' = map pm_shape ps"
    by (cases qs) auto
  have "q\<lparr>pm_grad := None\<rparr> = p\<lparr>pm_grad := None\<rparr>" using qs(2,3) by (cases q; cases p) simp
  with Cons.IH [OF qs(4,5)] show ?case by (simp add: qs(1) zero_grad_def)
qed (simp add: zero_grad_def)

text \<open>The model after \<open>zero_grad\<close>.\<close>

definition cleared :: "actor_critic \<Rightarrow> actor_critic" where
  "cleared m = put_parameters m (zero_grad (parameters m))"

lemma length_zero_grad [simp]: "length (zero_grad ps) = length ps"
  by (simp add: zero_grad_def)

lemma parameters_cleared [simp]: "parameters (cleared m) = zero_grad (parameters m)"
  by (simp add: cleared_def parameters_put)

lemma same_values_parameters:
  assumes "same_values m m'"
  shows "map pm_data (parameters m') = map pm_data (parameters m)"
    and "map pm_shape (parameters m') = map pm_shape (parameters m)"
proof -
  obtain qs where qs: "m' = put_parameters m qs" "map pm_data qs = map pm_data (parameters m)"
    "map pm_shape qs = map pm_shape (parameters m)" using assms by (auto simp: same_values_def)
  then have "parameters m' = qs" by (simp add: parameters_put map_eq_imp_length_eq [OF qs(2)])
  with qs show "map pm_data (parameters m') = map pm_data (parameters m)"
    "map pm_shape (parameters m') = map pm_shape (parameters m)" by simp_all
qed

lemma cleared_same: "same_values m m' \<Longrightarrow> cleared m' = cleared m"
proof -
  assume "same_values m m'"
  then obtain qs where qs: "m' = put_parameters m qs" "map pm_data qs = map pm_data (parameters m)"
    "map pm_shape qs = map pm_shape (parameters m)" by (auto simp: same_values_def)
  have len: "length qs = length (parameters m)" by (rule map_eq_imp_length_eq [OF qs(2)])
  then show ?thesis
    unfolding cleared_def qs(1) by (simp add: parameters_put put_parameters_twice zero_grad_values [OF qs(2,3)])
qed

lemma forward_cleared: "ac_forward phi (cleared m) x = ac_forward phi m x"
  unfolding cleared_def zero_grad_def put_parameters_map
  by (rule ac_forward_map) (simp add: keeps_values_def)

lemma forward_same: "same_values m m' \<Longrightarrow> ac_forward phi m' x = ac_forward phi m x"
  using forward_cleared [of phi m x] forward_cleared [of phi m' x] cleared_same [of m m'] by simp

lemma action_same: "same_values m m' \<Longrightarrow> get_action_and_value phi smp m' x a d = get_action_and_value phi smp m x a d"
  by (simp add: get_action_and_value_def forward_same)

lemma same_values_refl: "same_values m m"
  unfolding same_values_def by (intro exI [of _ "parameters m"]) (simp add: put_parameters_same)

lemma same_values_trans: "same_values m m' \<Longrightarrow> same_values m' m'' \<Longrightarrow> same_values m m''"
proof -
  assume a: "same_values m m'" and b: "same_values m' m''"
  obtain qs where qs: "m' = put_parameters m qs" "map pm_data qs = map pm_data (parameters m)"
    using a by (auto simp: same_values_def)
  obtain rs where rs: "m'' = put_parameters m' rs" "map pm_data rs = map pm_data (parameters m')"
    "map pm_shape rs = map pm_shape (parameters m')" using b by (auto simp: same_values_def)
  have "length qs = length (parameters m)" by (rule map_eq_imp_length_eq [OF qs(2)])
  moreover have "length rs = length (parameters m)"
    using rs(2) same_values_parameters(1) [OF a] by (simp add: list_eq_iff_nth_eq)
  ultimately have "m'' = put_parameters m rs" unfolding rs(1) qs(1) by (simp add: put_parameters_twice)
  with rs(2,3) same_values_parameters [OF a] show ?thesis
    unfolding same_values_def by (intro exI [of _ rs]) simp
qed

section \<open>Related trainers\<close>

text \<open>
  Trainers that differ in the gradients of the model, the aggregate and the model version only
  (\<open>alike\<close>), and trainers that differ in the latter two only (\<open>relabelled\<close>).
\<close>

definition relabelled :: "'o trainer \<Rightarrow> 'o trainer \<Rightarrow> bool" where
  "relabelled s s' \<longleftrightarrow>
     s' = s\<lparr>tr_aggregated_gradients := tr_aggregated_gradients s', tr_model_version := tr_model_version s'\<rparr>"

definition alike :: "'o trainer \<Rightarrow> 'o trainer \<Rightarrow> bool" where
  "alike s s' \<longleftrightarrow> same_values (tr_model s) (tr_model s') \<and>
     s' = s\<lparr>tr_model := tr_model s', tr_aggregated_gradients := tr_aggregated_gradients s',
            tr_model_version := tr_model_version s'\<rparr>"

abbreviation rel_result :: "('a \<Rightarrow> 'b \<Rightarrow> bool) \<Rightarrow> 'a result \<Rightarrow> 'b result \<Rightarrow> bool" where
  "rel_result R \<equiv> rel_sum (=) R"

lemma rel_ebind:
  "rel_result R m m' \<Longrightarrow> (\<And>x y. R x y \<Longrightarrow> rel_result S (f x) (g y)) \<Longrightarrow> rel_result S (ebind m f) (ebind m' g)"
  by (auto elim!: rel_sum.cases)

lemma rel_ebind_same:
  "(\<And>x. m = Inr x \<Longrightarrow> rel_result S (f x) (g x)) \<Longrightarrow> rel_result S (ebind m f) (ebind m g)"
  by (cases m) simp_all

lemma alike_fields:
  assumes "alike s s'"
  shows "tr_config s' = tr_config s" "tr_buffer s' = tr_buffer s" "tr_optimizer s' = tr_optimizer s"
    "tr_step s' = tr_step s" "tr_mechanism s' = tr_mechanism s" "tr_accountant s' = tr_accountant s"
    "tr_scheduler s' = tr_scheduler s" "tr_local_gradients s' = tr_local_gradients s"
    "tr_privacy s' = tr_privacy s" "same_values (tr_model s) (tr_model s')"
  using assms unfolding alike_def by (cases s; cases s'; simp)+

lemma relabelled_alike: "relabelled s s' \<Longrightarrow> alike s s'"
proof -
  assume r: "relabelled s s'"
  then have "tr_model s' = tr_model s" unfolding relabelled_def by (cases s; cases s') simp
  with r show ?thesis unfolding relabelled_def alike_def by (cases s; cases s') (simp add: same_values_refl)
qed

definition relabel :: "real list option \<Rightarrow> int \<Rightarrow> 'o trainer \<Rightarrow> 'o trainer" where
  "relabel a v s = s\<lparr>tr_aggregated_gradients := a, tr_model_version := v\<rparr>"

lemma relabelled_iff: "relabelled s s' \<longleftrightarrow> (\<exists>a v. s' = relabel a v s)"
  unfolding relabelled_def relabel_def by (cases s; cases s') auto

lemma relabelled_relabel [simp, intro]: "relabelled s (relabel a v s)"
  unfolding relabelled_iff by blast

lemma relabel_simps [simp]:
  "tr_config (relabel a v s) = tr_config s" "tr_buffer (relabel a v s) = tr_buffer s"
  "tr_model (relabel a v s) = tr_model s" "tr_optimizer (relabel a v s) = tr_optimizer s"
  "tr_step (relabel a v s) = tr_step s" "tr_mechanism (relabel a v s) = tr_mechanism s"
  "tr_accountant (relabel a v s) = tr_accountant s" "tr_scheduler (relabel a v s) = tr_scheduler s"
  "tr_local_gradients (relabel a v s) = tr_local_gradients s" "tr_privacy (relabel a v s) = tr_privacy s"
  "(relabel a v s)\<lparr>tr_scheduler := sc\<rparr> = relabel a v (s\<lparr>tr_scheduler := sc\<rparr>)"
  "(relabel a v s)\<lparr>tr_mechanism := me\<rparr> = relabel a v (s\<lparr>tr_mechanism := me\<rparr>)"
  "(relabel a v s)\<lparr>tr_accountant := ac\<rparr> = relabel a v (s\<lparr>tr_accountant := ac\<rparr>)"
  "(relabel a v s)\<lparr>tr_model := m\<rparr> = relabel a v (s\<lparr>tr_model := m\<rparr>)"
  "(relabel a v s)\<lparr>tr_optimizer := op\<rparr> = relabel a v (s\<lparr>tr_optimizer := op\<rparr>)"
  "(relabel a v s)\<lparr>tr_step := st\<rparr> = relabel a v (s\<lparr>tr_step := st\<rparr>)"
  "(relabel a v s)\<lparr>tr_local_gradients := lg\<rparr> = relabel a v (s\<lparr>tr_local_gradients := lg\<rparr>)"
  by (simp_all add: relabel_def)

lemma schedule_relabel:
  "schedule_noise g mech (relabel a v s) = ebind (schedule_noise g mech s) (\<lambda>(r, m). Inr (relabel a v r, m))"
  by (auto simp: schedule_noise_def split: option.split ebind_split)

lemma track_relabel:
  "track_privacy x mech (relabel a v s) = ebind (track_privacy x mech s) (\<lambda>r. Inr (relabel a v r))"
  by (auto simp: track_privacy_def split: option.split ebind_split)

lemma dp_relabel:
  "apply_dp_noise x u (relabel a v s) = ebind (apply_dp_noise x u s) (\<lambda>r. Inr (relabel a v r))"
  by (auto simp: apply_dp_noise_def schedule_relabel track_relabel split: option.split ebind_split)

lemma optimizer_relabel: "optimizer_step x (relabel a v s) = relabel a v (optimizer_step x s)"
  by (simp add: optimizer_step_def case_prod_beta)

lemma dp_relabelled: "relabelled s s' \<Longrightarrow> rel_result relabelled (apply_dp_noise x u s) (apply_dp_noise x u s')"
  unfolding relabelled_iff [of s] by (cases "apply_dp_noise x u s") (auto simp: dp_relabel)

lemma optimizer_relabelled: "relabelled s s' \<Longrightarrow> relabelled (optimizer_step x s) (optimizer_step x s')"
  unfolding relabelled_iff [of s] by (auto simp: optimizer_relabel)

text \<open>Operations seen through the relation.\<close>

lemma compute_gradients_alike: "alike s s' \<Longrightarrow> relabelled (compute_gradients x batch s) (compute_gradients x batch s')"
proof -
  assume a: "alike s s'"
  note f = alike_fields [OF a]
  have c: "cleared (tr_model s') = cleared (tr_model s)" using cleared_same f(10) by blast
  show ?thesis
    unfolding relabelled_def compute_gradients_def cleared_def [symmetric] c f extract_gradients_def
    using a unfolding alike_def by (cases s; cases s') (simp add: Let_def)
qed

lemma forward_batch_same: "same_values m m' \<Longrightarrow> forward_batch phi batch m' = forward_batch phi batch m"
  by (simp add: forward_batch_def action_same)

lemma update_alike:
  assumes "alike s s'"
  shows "rel_result (rel_prod alike (=)) (ppo_update x batch (s, t)) (ppo_update x batch (s', t))"
  unfolding ppo_update_def prod.case alike_fields(1) [OF assms]
    forward_batch_same [OF alike_fields(10) [OF assms]]
  by (intro rel_ebind_same rel_ebind [OF dp_relabelled [OF compute_gradients_alike [OF assms]]])
    (simp add: relabelled_alike optimizer_relabelled)

lemma run_updates_alike:
  "alike s s' \<Longrightarrow> rel_result (rel_prod alike (=)) (run_updates x bs (s, t)) (run_updates x bs (s', t))"
proof (induction bs arbitrary: s s' t)
  case (Cons b bs)
  show ?case unfolding run_updates.simps
  proof (rule rel_ebind [OF update_alike [OF Cons.prems]])
    fix p q :: "'a trainer \<times> totals"
    assume "rel_prod alike (=) p q"
    then show "rel_result (rel_prod alike (=)) (run_updates x bs p) (run_updates x bs q)"
      by (cases p; cases q) (simp add: Cons.IH)
  qed
qed simp

lemma stats_alike: "alike s s' \<Longrightarrow> stats_of s' ret t = stats_of s ret t"
  by (simp add: stats_of_def alike_fields Let_def)

lemma step_alike: "alike s s' \<Longrightarrow> alike (s\<lparr>tr_step := k\<rparr>) (s'\<lparr>tr_step := k\<rparr>)"
  unfolding alike_def by (cases s; cases s') simp

lemma train_step_alike:
  assumes "alike s s'"
  shows "rel_result (rel_prod alike (=)) (train_step x smp s) (train_step x smp s')"
proof -
  note f = alike_fields [OF assms] action_same [OF alike_fields(10) [OF assms]]
  have last: "rel_result (rel_prod alike (=))
      (ebind (stats_of (r\<lparr>tr_step := tr_step r + 1\<rparr>) ret t) (\<lambda>st. Inr (r\<lparr>tr_step := tr_step r + 1\<rparr>, st)))
      (ebind (stats_of (r'\<lparr>tr_step := tr_step r' + 1\<rparr>) ret t) (\<lambda>st. Inr (r'\<lparr>tr_step := tr_step r' + 1\<rparr>, st)))"
    if "alike r r'" for r r' :: "'a trainer" and ret t
    unfolding alike_fields(4) [OF that] stats_alike [OF step_alike [OF that]]
    by (rule rel_ebind_same) (simp add: step_alike that)
  show ?thesis
    unfolding train_step_def f
    by (auto simp: Let_def case_prod_beta intro!: rel_ebind_same rel_ebind [OF run_updates_alike [OF assms]] last)
qed

lemma collect_steps_same:
  assumes "same_values m m'"
  shows "collect_steps x v smp m' n e obs b tot eps = collect_steps x v smp m n e obs b tot eps"
  by (induction n arbitrary: e obs b tot eps) (simp_all only: collect_steps.simps action_same [OF assms])

lemma buffer_alike: "alike s s' \<Longrightarrow> alike (s\<lparr>tr_buffer := b\<rparr>) (s'\<lparr>tr_buffer := b\<rparr>)"
  unfolding alike_def by (cases s; cases s') simp

lemma collect_rollout_alike:
  assumes "alike s s'"
  shows "rel_result (rel_prod (=) (rel_prod alike (=))) (collect_rollout x v smp n e s) (collect_rollout x v smp n e s')"
  unfolding collect_rollout_def alike_fields(2) [OF assms] collect_steps_same [OF alike_fields(10) [OF assms]]
  by (auto simp: case_prod_beta intro!: rel_ebind_same buffer_alike assms)

lemma apply_aggregated_alike: "apply_aggregated_gradients g s = Inr s' \<Longrightarrow> alike s s'"
proof -
  assume a: "apply_aggregated_gradients g s = Inr s'"
  show "alike s s'"
  proof (cases "tr_local_gradients s")
    case None
    with a show ?thesis
      by (auto simp: apply_aggregated_gradients_def Let_def alike_def same_values_refl)
  next
    case (Some l)
    with a obtain merged m where "set_gradient_vector (tr_model s) merged = Inr m"
      "s' = s\<lparr>tr_aggregated_gradients := Some g, tr_model := m, tr_model_version := tr_model_version s + 1\<rparr>"
      by (auto simp: apply_aggregated_gradients_def Let_def ebind_Inr_iff)
    then show ?thesis using set_gradient_values by (auto simp: alike_def)
  qed
qed

lemma alike_refl: "alike s s"
  by (simp add: alike_def same_values_refl)

lemma alike_trans: "alike s s' \<Longrightarrow> alike s' s'' \<Longrightarrow> alike s s''"
  using same_values_trans [of "tr_model s" "tr_model s'" "tr_model s''"]
  unfolding alike_def by (cases s; cases s'; cases s'') simp

section \<open>Properties\<close>

text \<open>
  Gossip does not reach the parameters: after \<open>apply_aggregated_gradients\<close> a training step has
  the same outcome as without it, up to the gradients left in the model, the stored aggregate and
  the model version; the error, if there is one, is the same. Only the gradients of the model are
  written, and the next update clears them before it computes its own.
\<close>

lemma training_ignores_gossip:
  assumes "apply_aggregated_gradients g s = Inr s'"
  shows "tr_model_version s' = tr_model_version s + 1 \<and> get_parameters s' = get_parameters s \<and>
    (case train_step x smp s of
       Inl e \<Rightarrow> train_step x smp s' = Inl e
     | Inr (r, st) \<Rightarrow> \<exists>r'. train_step x smp s' = Inr (r', st) \<and> get_parameters r' = get_parameters r \<and>
         tr_optimizer r' = tr_optimizer r \<and> tr_accountant r' = tr_accountant r \<and>
         tr_local_gradients r' = tr_local_gradients r \<and> tr_step r' = tr_step r)"
proof -
  have a: "alike s s'" by (rule apply_aggregated_alike [OF assms])
  have params: "get_parameters r' = get_parameters r" if "alike r r'" for r r' :: "'a trainer"
    using same_values_parameters(1) [OF alike_fields(10) [OF that]]
    by (simp add: get_parameters_def get_parameter_vector_def)
  have v: "tr_model_version s' = tr_model_version s + 1"
    using assms by (auto simp: apply_aggregated_gradients_def Let_def ebind_Inr_iff split: option.splits)
  show ?thesis
  proof (cases "train_step x smp s")
    case (Inl e)
    with train_step_alike [OF a, of x smp] show ?thesis
      by (cases "train_step x smp s'") (simp_all add: v params [OF a])
  next
    case (Inr p)
    with train_step_alike [OF a, of x smp] obtain r st r' where r: "p = (r, st)"
      "train_step x smp s' = Inr (r', st)" "alike r r'"
      by (cases p; cases "train_step x smp s'") auto
    from r(1,2) Inr show ?thesis by (simp add: v params [OF a] params [OF r(3)] alike_fields [OF r(3)])
  qed
qed

lemma training_ignores_gossip_witness:
  "\<exists>s'. apply_aggregated_gradients [8, 8, 8] (demo_trainer\<lparr>tr_local_gradients := Some [1, 2, 3]\<rparr>) = Inr s' \<and>
     get_parameters s' = get_parameters demo_trainer \<and> tr_model_version s' = 1"
proof -
  let ?s = "demo_trainer\<lparr>tr_local_gradients := Some [1, 2, 3]\<rparr>"
  have "gradient_size demo_model = 3"
    by (simp add: gradient_size_def demo_model_def parameters_def policy_params_def value_params_def
        demo_lin_def numel_def new_param_def)
  then obtain m where "set_gradient_vector demo_model [9 / 2, 5, 11 / 2] = Inr m"
    using ac.gradients_set [of demo_model "[9 / 2, 5, 11 / 2]"]
    by (auto simp: set_gradient_vector_def gradient_size_def)
  then obtain s' where s': "apply_aggregated_gradients [8, 8, 8] ?s = Inr s'"
    by (simp add: apply_aggregated_gradients_def demo_trainer_def np_add_def)
  from training_ignores_gossip [OF s'] s' show ?thesis
    by (auto simp: get_parameters_def demo_trainer_def)
qed

end
