(* ===== verification/Ppo_Privacy.thy ===== *)
theory Ppo_Privacy
  imports Ppo_Train Accountant_Props Privacy_Props
begin

text \<open>
  Training with differential privacy: what the accountant records for a training step, what is
  handed to the optimiser and to gossip, what the scheduler of the trainer hands out, and what a
  checkpoint keeps.
\<close>

section \<open>Privacy of an update\<close>

lemma schedule_frame:
  assumes "schedule_noise g mech s = Inr (s1, mech1)"
  shows "s1 = s\<lparr>tr_scheduler := tr_scheduler s1\<rparr>" and "mech_kind mech1 = mech_kind mech"
    and "dp_clip_norm (params mech1) = dp_clip_norm (params mech)"
    and "case tr_scheduler s of None \<Rightarrow> mech1 = mech
      | Some sch \<Rightarrow> \<exists>sch1 mult. get_noise_multiplier (tr_step s) (Some (l2_norm g)) sch = Inr (sch1, mult) \<and>
          dp_noise_multiplier (params mech1) = Some mult"
  using assms by (auto simp: schedule_noise_def ebind_Inr_iff split: option.splits)

lemma track_frame:
  assumes "track_privacy x mech s = Inr s'"
  shows "s' = s\<lparr>tr_mechanism := tr_mechanism s', tr_accountant := tr_accountant s'\<rparr>" and "tr_mechanism s' \<noteq> None"
    and "case tr_accountant s of None \<Rightarrow> tr_accountant s' = None
      | Some acc \<Rightarrow> \<exists>mult acc'. tr_accountant s' = Some acc' \<and>
          rdp_step (gamma_ln x) mult (real_of_int (tc_batch_size (tr_config s)) / real (rollout_len (tr_buffer s))) acc = Inr acc'"
  using assms by (auto simp: track_privacy_def ebind_Inr_iff split: option.splits if_splits)

text \<open>The stages of \<open>_apply_dp_noise\<close>.\<close>

lemma dp_stages:
  assumes "apply_dp_noise x u s = Inr s'" and "tr_local_gradients s = Some g" and "tr_mechanism s = Some mech"
  obtains s1 mech1 mech2 noisy md m where "schedule_noise g mech s = Inr (s1, mech1)"
    "privatize (noise_at x u) (to_f32 x) g mech1 = Inr (mech2, noisy, md)"
    "set_gradient_vector (tr_model s) noisy = Inr m"
    "track_privacy x mech2 (s1\<lparr>tr_model := m, tr_local_gradients := Some noisy\<rparr>) = Inr s'"
proof -
  from assms obtain s1 mech1 mech2 noisy md m where st: "schedule_noise g mech s = Inr (s1, mech1)"
    "privatize (noise_at x u) (to_f32 x) g mech1 = Inr (mech2, noisy, md)"
    "set_gradient_vector (tr_model s1) noisy = Inr m"
    "track_privacy x mech2 (s1\<lparr>tr_model := m, tr_local_gradients := Some noisy\<rparr>) = Inr s'"
    by (auto simp: apply_dp_noise_def ebind_Inr_iff)
  have "tr_model s1 = tr_model s" by (subst schedule_frame(1) [OF st(1)]) simp
  with st show thesis by (intro that) simp_all
qed

definition sample_rate :: "'o trainer \<Rightarrow> real" where
  "sample_rate s = real_of_int (tc_batch_size (tr_config s)) / real (rollout_len (tr_buffer s))"

lemma dp_accounts:
  assumes "apply_dp_noise x u s = Inr s'" and "tr_local_gradients s = Some g" and "tr_mechanism s = Some mech"
    and "tr_accountant s = Some acc"
  shows "\<exists>mult acc'. tr_accountant s' = Some acc' \<and> rdp_step (gamma_ln x) mult (sample_rate s) acc = Inr acc' \<and>
    tr_mechanism s' \<noteq> None \<and> tr_config s' = tr_config s \<and> tr_buffer s' = tr_buffer s"
proof -
  obtain s1 mech1 mech2 noisy md m where st: "schedule_noise g mech s = Inr (s1, mech1)"
    "track_privacy x mech2 (s1\<lparr>tr_model := m, tr_local_gradients := Some noisy\<rparr>) = Inr s'"
    using dp_stages [OF assms(1-3)] by metis
  have s1: "tr_config s1 = tr_config s" "tr_buffer s1 = tr_buffer s" "tr_accountant s1 = tr_accountant s"
    by (subst schedule_frame(1) [OF st(1)], simp)+
  have "tr_config s' = tr_config s" "tr_buffer s' = tr_buffer s"
    by (subst track_frame(1) [OF st(2)], simp add: s1)+
  with track_frame(2,3) [OF st(2)] s1 assms(4) show ?thesis by (simp add: sample_rate_def)
qed

lemma update_accounts:
  assumes "ppo_update x batch (s, t) = Inr (s', t')" and "tr_mechanism s \<noteq> None" and "tr_accountant s = Some acc"
  shows "\<exists>mult acc'. tr_accountant s' = Some acc' \<and> rdp_step (gamma_ln x) mult (sample_rate s) acc = Inr acc' \<and>
    tr_mechanism s' \<noteq> None \<and> sample_rate s' = sample_rate s \<and> n_updates t' = n_updates t + 1"
proof -
  obtain outs s1 where u: "apply_dp_noise x (n_updates t) (compute_gradients x batch s) = Inr s1"
    "s' = optimizer_step x s1" "t' = add_totals (tr_config s) batch outs t"
    using assms(1) by (auto simp: ppo_update_def ebind_Inr_iff)
  obtain g where c: "tr_local_gradients (compute_gradients x batch s) = Some g"
    "tr_mechanism (compute_gradients x batch s) = tr_mechanism s"
    "tr_accountant (compute_gradients x batch s) = tr_accountant s"
    "sample_rate (compute_gradients x batch s) = sample_rate s"
    by (simp add: compute_gradients_def extract_gradients_def sample_rate_def Let_def)
  obtain mech where m: "tr_mechanism s = Some mech" using assms(2) by auto
  have o: "tr_accountant s' = tr_accountant s1" "tr_mechanism s' = tr_mechanism s1"
    "tr_config s' = tr_config s1" "tr_buffer s' = tr_buffer s1"
    by (simp_all add: u(2) optimizer_step_def case_prod_beta)
  have "tr_config (compute_gradients x batch s) = tr_config s" "tr_buffer (compute_gradients x batch s) = tr_buffer s"
    by (simp_all add: compute_gradients_def extract_gradients_def Let_def)
  with dp_accounts [OF u(1) c(1), of mech acc] c m assms(3) o show ?thesis
    by (auto simp: sample_rate_def u(3) add_totals_def)
qed

lemma run_updates_account:
  "run_updates x bs (s, t) = Inr (s', t') \<Longrightarrow> tr_mechanism s \<noteq> None \<Longrightarrow> tr_accountant s = Some acc \<Longrightarrow>
     \<exists>mults acc'. tr_accountant s' = Some acc' \<and> length mults = length bs \<and>
       rdp_steps (gamma_ln x) (map (\<lambda>m. (m, sample_rate s)) mults) acc = Inr acc' \<and>
       n_updates t' = n_updates t + length bs"
proof (induction bs arbitrary: s t acc)
  case Nil
  then show ?case by (intro exI [of _ "[]"]) simp
next
  case (Cons b bs)
  then obtain s1 t1 where 1: "ppo_update x b (s, t) = Inr (s1, t1)" "run_updates x bs (s1, t1) = Inr (s', t')"
    by (auto simp: ebind_Inr_iff)
  obtain mult acc1 where a: "tr_accountant s1 = Some acc1" "rdp_step (gamma_ln x) mult (sample_rate s) acc = Inr acc1"
    "tr_mechanism s1 \<noteq> None" "sample_rate s1 = sample_rate s" "n_updates t1 = n_updates t + 1"
    using update_accounts [OF 1(1) Cons.prems(2,3)] by blast
  obtain mults acc' where "tr_accountant s' = Some acc'" "length mults = length bs"
    "rdp_steps (gamma_ln x) (map (\<lambda>m. (m, sample_rate s)) mults) acc1 = Inr acc'"
    "n_updates t' = n_updates t1 + length bs"
    using Cons.IH [OF 1(2) a(3,1)] a(4) by auto
  with a show ?case by (intro exI [of _ "mult # mults"]) simp
qed

lemma results_all: "results rs = Inr xs \<Longrightarrow> r \<in> set rs \<Longrightarrow> \<exists>x. r = Inr x"
  by (induction rs arbitrary: xs) (auto simp: ebind_Inr_iff)

lemma rdp_step_rate:
  assumes "rdp_step gammaln sg q acc = Inr acc'" and "alpha \<in> set (orders acc)" and "1 < alpha"
  shows "0 \<le> q \<and> q \<le> 1"
proof -
  have "\<exists>x. rdp_of_order gammaln sg q alpha = Inr x"
    using assms(1,2) by (auto simp: rdp_step_def Let_def compute_rdp_def ebind_Inr_iff intro: results_all)
  with assms(3) show ?thesis by (auto simp: rdp_of_order_def subsampled_rdp_def split: if_splits)
qed

lemma rdp_steps_count:
  "rdp_steps gammaln ss acc = Inr acc' \<Longrightarrow> rdp_step_count acc' = rdp_step_count acc + int (length ss)"
  by (induction ss arbitrary: acc) (auto simp: ebind_Inr_iff rdp_step_def Let_def)

text \<open>The counters and the aggregate are not touched by updates.\<close>

definition counters :: "'o trainer \<Rightarrow> int \<times> int \<times> real list option" where
  "counters s = (tr_step s, tr_model_version s, tr_aggregated_gradients s)"

lemma update_counters: "ppo_update x b (s, t) = Inr (s', t') \<Longrightarrow> counters s' = counters s"
proof -
  assume "ppo_update x b (s, t) = Inr (s', t')"
  then obtain s1 where u: "apply_dp_noise x (n_updates t) (compute_gradients x b s) = Inr s1" "s' = optimizer_step x s1"
    by (auto simp: ppo_update_def ebind_Inr_iff)
  have c: "counters (compute_gradients x b s) = counters s" "tr_mechanism (compute_gradients x b s) = tr_mechanism s"
    by (simp_all add: compute_gradients_def extract_gradients_def Let_def counters_def)
  obtain g where g: "tr_local_gradients (compute_gradients x b s) = Some g"
    by (simp add: compute_gradients_def extract_gradients_def Let_def)
  have "counters s1 = counters s"
  proof (cases "tr_mechanism s")
    case None
    with u(1) g c show ?thesis by (simp add: apply_dp_noise_def)
  next
    case (Some mech)
    then obtain r mech1 mech2 noisy m where st: "schedule_noise g mech (compute_gradients x b s) = Inr (r, mech1)"
      "track_privacy x mech2 (r\<lparr>tr_model := m, tr_local_gradients := Some noisy\<rparr>) = Inr s1"
      using dp_stages [OF u(1) g] c(2) by metis
    have "counters r = counters s" by (subst schedule_frame(1) [OF st(1)]) (use c in \<open>simp add: counters_def\<close>)
    then show ?thesis by (subst track_frame(1) [OF st(2)]) (simp add: counters_def)
  qed
  then show ?thesis by (simp add: u(2) optimizer_step_def case_prod_beta counters_def)
qed

lemma run_updates_counters: "run_updates x bs (s, t) = Inr (s', t') \<Longrightarrow> counters s' = counters s"
proof (induction bs arbitrary: s t)
  case (Cons b bs)
  then obtain s1 t1 where 1: "ppo_update x b (s, t) = Inr (s1, t1)" "run_updates x bs (s1, t1) = Inr (s', t')"
    by (auto simp: ebind_Inr_iff)
  from Cons.IH [OF 1(2)] update_counters [OF 1(1)] show ?case by simp
qed simp

definition noise_ok :: "'o torch \<Rightarrow> bool" where
  "noise_ok x \<longleftrightarrow> (\<forall>u scale n. length (noise_at x u scale n) = n)"

lemma length_clipped [simp]: "length (fst (clip_gradients p g)) = length g"
  by (simp add: clip_gradients_def Let_def)

lemma noise_multiplier_params: "noise_multiplier m = Inr (m', c) \<Longrightarrow> params m' = params m \<and> mech_kind m' = mech_kind m"
  by (auto simp: noise_multiplier_def ebind_Inr_iff split: option.splits)

lemma privatize_gaussian:
  assumes "privatize noise cast g m = Inr (m2, noisy, md)" and "mech_kind m = Gaussian"
  shows "\<exists>m1 c. noise_multiplier m = Inr (m1, c) \<and>
    noisy = map2 (\<lambda>y z. y + cast z) (fst (clip_gradients (params m) g)) (noise (c * dp_clip_norm (params m)) (length g))"
proof -
  obtain m3 where a: "add_noise noise cast (fst (clip_gradients (params m) g)) m = Inr (m3, noisy)"
    using assms(1) by (auto simp: privatize_def Let_def ebind_Inr_iff case_prod_unfold)
  then obtain m1 c where c: "noise_multiplier m = Inr (m1, c)" by (auto simp: add_noise_def ebind_Inr_iff)
  have "params m1 = params m" "mech_kind m1 = Gaussian" using noise_multiplier_params [OF c] assms(2) by simp_all
  with a c show ?thesis by (auto simp: add_noise_def Let_def split: if_splits)
qed

lemma privatize_override:
  assumes "mech_kind mech = Gaussian" and "dp_noise_multiplier (params mech) = Some c"
    and "0 \<le> c" and "0 \<le> dp_clip_norm (params mech)"
  shows "\<exists>md. privatize noise cast g mech = Inr (mech, map2 (\<lambda>x n. x + cast n) (fst (clip_gradients (params mech) g))
    (noise (c * dp_clip_norm (params mech)) (length g)), md)"
  using assms by (auto simp: privatize_def add_noise_def noise_multiplier_def Let_def case_prod_beta not_less)

lemma dp_succeeds:
  assumes "tr_local_gradients s = Some g" and "tr_mechanism s = Some mech" and "tr_scheduler s = None"
    and "mech_kind mech = Gaussian" and "dp_noise_multiplier (params mech) = Some c"
    and "0 < c" and "0 \<le> dp_clip_norm (params mech)"
    and "noise_ok x" and "gradient_size (tr_model s) \<le> length g"
    and "rollout_len (tr_buffer s) \<noteq> 0" and "0 \<le> sample_rate s" and "sample_rate s \<le> 1"
  shows "\<exists>s'. apply_dp_noise x u s = Inr s'"
proof -
  let ?noisy = "map2 (\<lambda>y n. y + to_f32 x n) (fst (clip_gradients (params mech) g))
    (noise_at x u (c * dp_clip_norm (params mech)) (length g))"
  obtain md where p: "privatize (noise_at x u) (to_f32 x) g mech = Inr (mech, ?noisy, md)"
    using privatize_override [OF assms(4,5) _ assms(7)] assms(6) by fastforce
  have "gradient_size (tr_model s) \<le> length ?noisy" using assms(8,9) by (simp add: noise_ok_def)
  then obtain m where m: "set_gradient_vector (tr_model s) ?noisy = Inr m"
    using ac.gradients_set [of "tr_model s" ?noisy] by (auto simp: set_gradient_vector_def gradient_size_def)
  show ?thesis
  proof (cases "tr_accountant s")
    case None
    with assms(1-3,5,10) p m show ?thesis
      by (simp add: apply_dp_noise_def schedule_noise_def track_privacy_def)
  next
    case (Some acc)
    obtain acc' where "rdp_step (gamma_ln x) c (sample_rate s) acc = Inr acc'"
      using rdp_step_eq [OF assms(6,11,12)] by blast
    with Some assms(1-3,5,10) p m show ?thesis
      by (simp add: apply_dp_noise_def schedule_noise_def track_privacy_def noise_multiplier_def sample_rate_def)
  qed
qed

section \<open>A training step of one update\<close>

text \<open>One sample, one epoch: the smallest training step with differential privacy.\<close>

definition demo_mech :: mechanism where
  "demo_mech = new_mechanism Gaussian
     \<lparr>dp_epsilon = 1, dp_delta = 1 / 100, dp_clip_norm = 1, dp_noise_multiplier = Some 1\<rparr>"

definition demo_on :: "real \<Rightarrow> real \<Rightarrow> real \<Rightarrow> real \<Rightarrow> bool \<Rightarrow> nat trainer" where
  "demo_on ob rw va l dn = demo_trainer\<lparr>tr_config := demo_training\<lparr>tc_batch_size := 1, tc_n_epochs := 1\<rparr>,
     tr_buffer := rollout_add [ob] (Discrete 0) rw va l dn new_rollout,
     tr_mechanism := Some demo_mech,
     tr_accountant := Some (new_rdp (Some [2]))\<rparr>"

lemma demo_forward: "get_action_and_value phi smp demo_model [a] (Some (Discrete 0)) False =
   Inr (Discrete 0, 3 * a, a - log_sum_exps [a, 2 * a], dist_entropy (Categorical [a, 2 * a]))"
  by (simp add: get_action_and_value_def ac_forward_def get_distribution_def policy_forward_def value_forward_def
        demo_model_def linear_forward_def demo_lin_def new_param_def upt_rec row_def dot_def)

lemma demo_action: "get_action_and_value phi (\<lambda>d. Discrete 0) demo_model [a] None False =
   get_action_and_value phi (\<lambda>d. Discrete 0) demo_model [a] (Some (Discrete 0)) False"
  by (simp add: get_action_and_value_def)

lemma demo_on_simps [simp]:
  "tr_model (demo_on ob rw va l dn) = demo_model" "tr_scheduler (demo_on ob rw va l dn) = None" "tr_accountant (demo_on ob rw va l dn) = Some (new_rdp (Some [2]))"
  "tr_mechanism (demo_on ob rw va l dn) = Some demo_mech"
  "ro_observations (tr_buffer (demo_on ob rw va l dn)) = [[ob]]" "rollout_ok (tr_buffer (demo_on ob rw va l dn)) 1"
  "tc_batch_size (tr_config (demo_on ob rw va l dn)) = 1" "tc_n_epochs (tr_config (demo_on ob rw va l dn)) = 1"
  by (simp_all add: demo_on_def demo_trainer_def rollout_add_def new_rollout_def rollout_ok_def)

lemma demo_rate: "sample_rate (demo_on ob rw va l dn) = 1" "rollout_len (tr_buffer (demo_on ob rw va l dn)) = 1"
  by (simp_all add: sample_rate_def rollout_len_def)

lemma demo_parameters: "parameters demo_model = [\<lparr>pm_shape = [2, 1], pm_data = [1, 2], pm_grad = Some [5, 6]\<rparr>,
   new_param [2] [0, 0], \<lparr>pm_shape = [1, 1], pm_data = [3], pm_grad = Some [7]\<rparr>, new_param [1] [0]]"
  by (simp add: demo_model_def parameters_def policy_params_def value_params_def demo_lin_def numeral_2_eq_2)

lemma demo_gradients:
  "\<exists>m g. compute_gradients demo_torch b (demo_on ob rw va l dn) = (demo_on ob rw va l dn)\<lparr>tr_model := m, tr_local_gradients := Some g\<rparr> \<and>
     gradient_size m \<le> length g"
proof -
  let ?m = "put_parameters demo_model (zero_grad (parameters demo_model))"
  obtain ps where ps: "tr_model (compute_gradients demo_torch b (demo_on ob rw va l dn)) = put_parameters ?m ps"
    "compute_gradients demo_torch b (demo_on ob rw va l dn) = (demo_on ob rw va l dn)\<lparr>tr_model := put_parameters ?m ps,
       tr_local_gradients := Some (get_gradient_vector (put_parameters ?m ps))\<rparr>"
    "length ps = 4" "map numel ps = [2, 2, 1, 1]" "map (map_option length \<circ> pm_grad) ps = [Some 2, Some 2, Some 1, Some 1]"
    by (auto simp: compute_gradients_def extract_gradients_def Let_def demo_torch_def backward_def clip_grad_norm_def
        demo_parameters zero_grad_def parameters_put numel_def new_param_def)
  have "parameters (put_parameters ?m ps) = ps" using ps(3) by (simp add: parameters_put demo_parameters zero_grad_def)
  then have "gradient_size (put_parameters ?m ps) \<le> length (get_gradient_vector (put_parameters ?m ps))"
    using ps(3-5) by (auto simp: gradient_size_def get_gradient_vector_def length_Suc_conv numeral_eq_Suc)
  with ps(2) show ?thesis by blast
qed

lemma demo_noise: "noise_ok demo_torch"
  by (simp add: noise_ok_def demo_torch_def)

lemma demo_update:
  "\<exists>r t. ppo_update demo_torch [([ob], Discrete 0, l, adv, ret)] ((demo_on ob rw va l dn), no_totals) = Inr (r, t) \<and> n_updates t = 1"
proof -
  let ?b = "[([ob], Discrete 0, l, adv, ret)]"
  obtain m g where c: "compute_gradients demo_torch ?b (demo_on ob rw va l dn) = (demo_on ob rw va l dn)\<lparr>tr_model := m, tr_local_gradients := Some g\<rparr>"
    "gradient_size m \<le> length g" using demo_gradients by blast
  have "\<exists>s'. apply_dp_noise demo_torch 0 (compute_gradients demo_torch ?b (demo_on ob rw va l dn)) = Inr s'"
    unfolding c(1) by (rule dp_succeeds [where c = 1 and mech = demo_mech and g = g])
      (use c(2) demo_rate demo_noise in \<open>simp_all add: demo_mech_def new_mechanism_def sample_rate_def\<close>)
  then obtain s' where "apply_dp_noise demo_torch 0 (compute_gradients demo_torch ?b (demo_on ob rw va l dn)) = Inr s'" ..
  moreover have "n_updates no_totals = 0" by (simp add: no_totals_def)
  moreover obtain outs where "forward_batch (Phi demo_torch) ?b demo_model = Inr outs"
    by (simp add: forward_batch_def demo_forward)
  ultimately show ?thesis by (simp add: ppo_update_def add_totals_def)
qed

lemma demo_train: "\<exists>r st. train_step demo_torch (\<lambda>d. Discrete 0) (demo_on ob rw va l dn) = Inr (r, st)"
proof -
  obtain adv ret where a: "samples_of (tr_config (demo_on ob rw va l dn)) (3 * ob) (tr_buffer (demo_on ob rw va l dn)) = ([([ob], Discrete 0, l, adv, ret)], [ret])"
    by (simp add: samples_of_def compute_advantages_def demo_on_def demo_trainer_def rollout_add_def new_rollout_def
        normalise_advantages_def Let_def)
  have "batch_schedule demo_torch (tr_config (demo_on ob rw va l dn)) 1 = [[0]]"
    by (simp add: batch_schedule_def minibatches_def demo_torch_def)
  then have "train_step demo_torch (\<lambda>d. Discrete 0) (demo_on ob rw va l dn) =
      ebind (ppo_update demo_torch [([ob], Discrete 0, l, adv, ret)] ((demo_on ob rw va l dn), no_totals)) (\<lambda>(s1, t).
        ebind (stats_of (s1\<lparr>tr_step := tr_step s1 + 1\<rparr>) [ret] t) (\<lambda>st. Inr (s1\<lparr>tr_step := tr_step s1 + 1\<rparr>, st)))"
    using a by (simp add: train_step_def Let_def demo_action demo_forward ebind_assoc case_prod_unfold)
  with demo_update [of ob l adv ret rw va dn] show ?thesis by (auto simp: stats_of_def Let_def)
qed

definition demo_dp :: "nat trainer" where
  "demo_dp = demo_on 1 3 2 0 False"

lemma demo_dp_rollout: "rollout_ok (tr_buffer demo_dp) 1"
  unfolding demo_dp_def by (rule demo_on_simps(6))

lemma demo_dp_simps [simp]:
  "tr_model demo_dp = demo_model" "tr_accountant demo_dp = Some (new_rdp (Some [2]))"
  "tr_mechanism demo_dp = Some demo_mech" "tc_batch_size (tr_config demo_dp) = 1" "tc_n_epochs (tr_config demo_dp) = 1"
  by (simp_all add: demo_dp_def)

section \<open>The schedule of the trainer\<close>

text \<open>
  \<open>adaptive_noise\<close> creates a scheduler with the default strategy, which is the linear one: its
  multipliers depend on the step alone, never on the gradients.
\<close>

definition linear_multiplier :: "int \<Rightarrow> real" where
  "linear_multiplier step =
     (if step < 100 then 2 else linspace 2 (1 / 10) 10000 ! nat (min step 9999))"

lemma adaptive_noise_is_linear:
  assumes "setup_dp p s = Inr s'" and "pc_adaptive_noise p" and "0 \<le> step"
  shows "\<exists>sch. tr_scheduler s' = Some sch \<and>
    (\<exists>sch'. get_noise_multiplier step gn sch = Inr (sch', linear_multiplier step))"
proof -
  let ?c = "default_noise_config\<lparr>total_epsilon := pc_epsilon p, nc_delta := pc_delta p\<rparr>"
  obtain sch where sch: "new_scheduler ?c = Inr sch" "tr_scheduler s' = Some sch"
    using assms(1,2) by (auto simp: setup_dp_def Let_def ebind_Inr_iff)
  have c: "sc_config sch = ?c" "schedule sch = Some (linspace 2 (1 / 10) 10000)"
    using sch(1) by (auto simp: new_scheduler_def precompute_schedule_def default_noise_config_def lit_def Let_def)
  have "\<exists>sch'. get_noise_multiplier step gn sch = Inr (sch', linear_multiplier step)"
  proof (cases "step < 100")
    case True
    then show ?thesis by (simp add: get_noise_multiplier_def c default_noise_config_def linear_multiplier_def)
  next
    case False
    then have "py_index (linspace 2 (1 / 10) 10000) (min step 9999) = Inr (linspace 2 (1 / 10) 10000 ! nat (min step 9999))"
      using assms(3) by (simp add: py_index_def)
    with False show ?thesis
      by (simp add: get_noise_multiplier_def c default_noise_config_def linear_multiplier_def Let_def)
  qed
  with sch(2) show ?thesis by blast
qed

section \<open>Loading what was saved\<close>

lemma load_saved:
  assumes "map pm_shape (parameters m) = map pm_shape (parameters (tr_model s))"
  shows "\<exists>m'. load_state_dict (cp_model (save_checkpoint s)) m = Inr m' \<and>
    m' = put_parameters m (parameters m') \<and> length (parameters m') = length (parameters m) \<and>
    map pm_data (parameters m') = map pm_data (parameters (tr_model s)) \<and>
    map pm_shape (parameters m') = map pm_shape (parameters (tr_model s))"
proof -
  let ?ps = "parameters m" and ?qs = "parameters (tr_model s)"
  let ?rs = "map2 (\<lambda>p (shape, xs). p\<lparr>pm_data := xs\<rparr>) ?ps (map (\<lambda>p. (pm_shape p, pm_data p)) ?qs)"
  have len: "length ?ps = length ?qs" using assms by (metis length_map)
  have "map pm_data ?rs = map pm_data ?qs" "map pm_shape ?rs = map pm_shape ?qs"
    using len assms by (simp_all add: list_eq_iff_nth_eq)
  moreover have "parameters (put_parameters m ?rs) = ?rs" using len by (intro parameters_put) simp
  moreover have "load_state_dict (cp_model (save_checkpoint s)) m = Inr (put_parameters m ?rs)"
    using assms by (simp add: load_state_dict_def save_checkpoint_def o_def)
  ultimately show ?thesis using len by (intro exI [of _ "put_parameters m ?rs"]) simp
qed

section \<open>Properties\<close>

text \<open>
  C11. Privacy accounting: when a training step with differential privacy succeeds, the accountant
  has composed exactly one step per minibatch update, each with the sampling rate
  \<open>batch_size / len(buffer)\<close>, and there was at least one; in particular the batch size is at most the
  size of the rollout (with an order above one), so a larger batch size makes training raise.
\<close>

theorem privacy_accounting:
  assumes "train_step x smp s = Inr (s', st)" and "rollout_ok (tr_buffer s) n"
    and "tr_mechanism s = Some mech" and "tr_accountant s = Some acc"
  shows "\<exists>acc' ms. tr_accountant s' = Some acc' \<and>
    rdp_steps (gamma_ln x) (map (\<lambda>m. (m, real_of_int (tc_batch_size (tr_config s)) / real n)) ms) acc = Inr acc' \<and>
    length ms = length (batch_schedule x (tr_config s) n) \<and> ms \<noteq> [] \<and>
    rdp_step_count acc' = rdp_step_count acc + int (length ms) \<and> tr_step s' = tr_step s + 1 \<and>
    ((\<exists>alpha \<in> set (orders acc). 1 < alpha) \<longrightarrow> tc_batch_size (tr_config s) \<le> int n)"
proof -
  let ?c = "tr_config s"
  have len: "length (ro_rewards (tr_buffer s)) = n" "rollout_len (tr_buffer s) = n"
    using assms(2) by (simp_all add: rollout_ok_def rollout_len_def)
  have samples: "length (fst (samples_of ?c lv (tr_buffer s))) = n" for lv
    using assms(2) by (simp add: samples_of_def compute_advantages_def Let_def rollout_ok_def
        normalise_advantages_def)
  from assms(1) obtain bs s1 t st' where run: "run_updates x bs (s, no_totals) = Inr (s1, t)"
    "length bs = length (batch_schedule x ?c n)"
    "stats_of (s1\<lparr>tr_step := tr_step s1 + 1\<rparr>) st' t = Inr st" "s' = s1\<lparr>tr_step := tr_step s1 + 1\<rparr>"
    and ne: "ro_observations (tr_buffer s) \<noteq> []"
    by (auto simp: train_step_def Let_def ebind_Inr_iff case_prod_unfold samples split: if_splits)
  obtain ms acc' where a: "tr_accountant s1 = Some acc'" "length ms = length bs"
    "rdp_steps (gamma_ln x) (map (\<lambda>m. (m, sample_rate s)) ms) acc = Inr acc'"
    "n_updates t = n_updates no_totals + length bs"
    using run_updates_account [OF run(1) _ assms(4)] assms(3) by auto
  have q: "sample_rate s = real_of_int (tc_batch_size ?c) / real n" by (simp add: sample_rate_def len)
  have "n_updates t \<noteq> 0" using run(3) by (auto simp: stats_of_def Let_def split: if_splits)
  then have ms: "ms \<noteq> []" using a by (auto simp: no_totals_def)
  have n: "0 < n" using ne assms(2) by (auto simp: rollout_ok_def)
  have "tc_batch_size ?c \<le> int n" if alpha: "alpha \<in> set (orders acc)" "1 < alpha" for alpha
  proof -
    obtain m ms' where "ms = m # ms'" using ms by (cases ms) auto
    then obtain acc1 where "rdp_step (gamma_ln x) m (sample_rate s) acc = Inr acc1"
      using a(3) by (auto simp: ebind_Inr_iff)
    then have "sample_rate s \<le> 1" using rdp_step_rate alpha by blast
    then show ?thesis using n by (simp add: q field_simps)
  qed
  moreover have "tr_step s1 = tr_step s" using run_updates_counters [OF run(1)] by (simp add: counters_def)
  ultimately show ?thesis
    using a run(2,4) ms rdp_steps_count [OF a(3)] unfolding q by (intro exI [of _ acc'] exI [of _ ms]) auto
qed

theorem privacy_accounting_witness:
  "\<exists>s' st acc'. train_step demo_torch (\<lambda>d. Discrete 0) demo_dp = Inr (s', st) \<and> tr_accountant s' = Some acc' \<and>
     rdp_step_count acc' = 1"
proof -
  obtain r st where t: "train_step demo_torch (\<lambda>d. Discrete 0) demo_dp = Inr (r, st)" using demo_train unfolding demo_dp_def by blast
  have "length (batch_schedule demo_torch (tr_config demo_dp) 1) = 1"
    by (simp add: batch_schedule_def minibatches_def demo_torch_def)
  with privacy_accounting [OF t demo_dp_rollout, of demo_mech "new_rdp (Some [2])"]
  obtain acc' where "tr_accountant r = Some acc'" "rdp_step_count acc' = rdp_step_count (new_rdp (Some [2])) + 1"
    by auto
  with t show ?thesis by (auto simp: new_rdp_def)
qed

text \<open>
  C12. What leaves the trainer is private: after the noise of an update, the gradients for gossip and
  the gradients the optimiser uses are the same, the clipped gradients (of norm at most the bound)
  with the samples of the Gaussian at the scale \<open>multiplier * clip_norm\<close> added; the multiplier is the
  one of the scheduler if there is one and otherwise that of the mechanism; no parameter changes.
\<close>

theorem gradients_privatised:
  assumes "apply_dp_noise x u s = Inr s'" and "tr_local_gradients s = Some g" and "tr_mechanism s = Some mech"
    and "mech_kind mech = Gaussian" and "0 \<le> dp_clip_norm (params mech)" and "noise_ok x"
    and "length g = gradient_size (tr_model s)"
  shows "\<exists>c. get_gradients s' = map2 (\<lambda>y z. y + to_f32 x z) (fst (clip_gradients (params mech) g))
      (noise_at x u (c * dp_clip_norm (params mech)) (length g)) \<and>
    l2_norm (fst (clip_gradients (params mech) g)) \<le> dp_clip_norm (params mech) \<and>
    get_gradient_vector (tr_model s') = get_gradients s' \<and> get_parameters s' = get_parameters s \<and>
    (case tr_scheduler s of
       None \<Rightarrow> (\<exists>mech'. noise_multiplier mech = Inr (mech', c))
     | Some sch \<Rightarrow> (\<exists>sch'. get_noise_multiplier (tr_step s) (Some (l2_norm g)) sch = Inr (sch', c)))"
proof -
  obtain s1 mech1 mech2 noisy md m where st: "schedule_noise g mech s = Inr (s1, mech1)"
    "privatize (noise_at x u) (to_f32 x) g mech1 = Inr (mech2, noisy, md)"
    "set_gradient_vector (tr_model s) noisy = Inr m"
    "track_privacy x mech2 (s1\<lparr>tr_model := m, tr_local_gradients := Some noisy\<rparr>) = Inr s'"
    using dp_stages [OF assms(1-3)] by metis
  note f = schedule_frame [OF st(1)]
  have clip: "fst (clip_gradients (params mech1) g) = fst (clip_gradients (params mech) g)"
    by (simp add: clip_gradients_def f(3) Let_def)
  obtain mech' c where c: "noise_multiplier mech1 = Inr (mech', c)"
    "noisy = map2 (\<lambda>y z. y + to_f32 x z) (fst (clip_gradients (params mech) g))
      (noise_at x u (c * dp_clip_norm (params mech)) (length g))"
    using privatize_gaussian [OF st(2)] f(2,3) assms(4) clip by auto
  have s': "tr_local_gradients s' = Some noisy" "tr_model s' = m"
    by (subst track_frame(1) [OF st(4)], simp)+
  have len: "length noisy = gradient_size (tr_model s)"
    using assms(6,7) by (simp add: c(2) noise_ok_def)
  obtain m' where m': "set_gradient_vector (tr_model s) noisy = Inr m'" "get_gradient_vector m' = noisy"
    "map pm_data (parameters m') = map pm_data (parameters (tr_model s))"
    using ac.gradients_set [of "tr_model s" noisy] len
    by (auto simp: set_gradient_vector_def gradient_size_def get_gradient_vector_def)
  have mult: "case tr_scheduler s of
       None \<Rightarrow> (\<exists>mech'. noise_multiplier mech = Inr (mech', c))
     | Some sch \<Rightarrow> (\<exists>sch'. get_noise_multiplier (tr_step s) (Some (l2_norm g)) sch = Inr (sch', c))"
    using f(4) c(1) by (auto simp: noise_multiplier_def split: option.splits)
  have "l2_norm (fst (clip_gradients (params mech) g)) \<le> dp_clip_norm (params mech)"
    using clip_norm_exact [OF assms(5), of g] by simp
  with c(2) mult m' st(3) s' show ?thesis
    by (intro exI [of _ c]) (simp add: get_gradients_def get_parameters_def get_parameter_vector_def)
qed

theorem gradients_privatised_witness:
  "\<exists>s'. apply_dp_noise demo_torch 0 (demo_dp\<lparr>tr_local_gradients := Some [3, 0, 4]\<rparr>) = Inr s' \<and>
     get_gradients s' = map2 (\<lambda>y z. y + to_f32 demo_torch z) (fst (clip_gradients (params demo_mech) [3, 0, 4]))
       (noise_at demo_torch 0 1 3) \<and>
     get_gradient_vector (tr_model s') = get_gradients s'"
proof -
  let ?s = "demo_dp\<lparr>tr_local_gradients := Some [3, 0, 4]\<rparr>"
  have n: "gradient_size demo_model = 3"
    by (simp add: gradient_size_def demo_parameters new_param_def numel_def)
  have m: "mech_kind demo_mech = Gaussian" "dp_clip_norm (params demo_mech) = 1" "dp_noise_multiplier (params demo_mech) = Some 1"
    by (simp_all add: demo_mech_def new_mechanism_def)
  have "\<exists>s'. apply_dp_noise demo_torch 0 ?s = Inr s'"
    by (rule dp_succeeds [where c = 1 and mech = demo_mech and g = "[3, 0, 4]"])
      (use n m demo_rate demo_noise in \<open>simp_all add: demo_dp_def sample_rate_def\<close>)
  then obtain s' where s': "apply_dp_noise demo_torch 0 ?s = Inr s'" ..
  have "tr_scheduler ?s = None" by (simp add: demo_dp_def)
  with gradients_privatised [OF s', of "[3, 0, 4]" demo_mech] s' n m demo_noise show ?thesis
    by (auto simp: noise_multiplier_def numeral_3_eq_3)
qed

text \<open>
  C19. Checkpoints: loading a checkpoint into a trainer with a model of the same shape restores the
  parameters, the optimiser and both counters, but not the privacy accountant: the privacy spent
  that is reported afterwards is that of the trainer it was loaded into, zero steps for a new one.
\<close>

theorem checkpoint_roundtrip:
  assumes "map pm_shape (parameters (tr_model t)) = map pm_shape (parameters (tr_model s))"
  shows "\<exists>t'. load_checkpoint (save_checkpoint s) t = Inr t' \<and> get_parameters t' = get_parameters s \<and>
    tr_optimizer t' = tr_optimizer s \<and> tr_step t' = tr_step s \<and> tr_model_version t' = tr_model_version s \<and>
    trainer_privacy_spent t' = trainer_privacy_spent t"
proof -
  obtain m where "load_state_dict (cp_model (save_checkpoint s)) (tr_model t) = Inr m"
    "map pm_data (parameters m) = map pm_data (parameters (tr_model s))"
    using load_saved [OF assms] by blast
  then show ?thesis
    by (simp add: load_checkpoint_def get_parameters_def get_parameter_vector_def trainer_privacy_spent_def
        save_checkpoint_def split: option.split)
qed

theorem checkpoint_roundtrip_witness:
  "\<exists>t'. load_checkpoint (save_checkpoint (demo_dp\<lparr>tr_step := 7\<rparr>)) demo_trainer = Inr t' \<and> tr_step t' = 7 \<and>
     trainer_privacy_spent t' = (Fin 0, 0)"
  using checkpoint_roundtrip [of demo_trainer "demo_dp\<lparr>tr_step := 7\<rparr>"]
  by (auto simp: demo_trainer_def trainer_privacy_spent_def)

end
