(* ===== verification/Agent.thy ===== *)
theory Agent
  imports Ppo Protocol Membership_Run
begin

text \<open>
  \<open>agent.py\<close>: the agent puts the trainer, the gossip protocol and the membership manager together.
  \<open>agent_turn\<close> is one iteration of the loop of \<open>run\<close>; between two iterations the agent sleeps and
  the tasks of gossip and membership run, in between there is no point at which they could
  (\<open>get_aggregated_gradients\<close> waits for its lock only while another task holds it, and no task
  sleeps while it does). The callbacks of the agent only log. The environment is created by
  gymnasium: its spaces and its state are arguments.
\<close>

record ('o, 'e) agent =
  ag_config :: config
  ag_env :: 'e
  ag_trainer :: "'o trainer"
  ag_gossip :: protocol
  ag_running :: bool
  ag_total_steps :: int
  ag_total_episodes :: int

text \<open>The local peer is at place 0 of the heap; both callbacks but \<open>on_suspect\<close> are given.\<close>

definition agent_membership :: "real \<Rightarrow> config \<Rightarrow> membership" where
  "agent_membership now c =
     (let fd = gc_failure_detection (cf_gossip c);
          me = new_peer now (agc_id (cf_agent c)) (lit ''localhost'') (nc_rpc_port (cf_network c))
      in new_membership (\<lambda>_. me) 0 (fd_probe_interval_ms fd) (fd_probe_timeout_ms fd) (fd_indirect_probes fd)
           4 (True, False, True))"

text \<open>
  \<open>getattr(logging, level.upper())\<close> and \<open>basicConfig\<close>: the upper-case names of the module \<open>logging\<close>
  are the levels, a string and a dictionary, of which \<open>basicConfig\<close> accepts only levels (it looks
  when it configures the root logger, for the first agent of a process). \<open>upper\<close> is written out for
  the characters whose upper case has letters of these names: the ASCII letters, the dotless i, the
  long s and the ligatures of \<open>st\<close>.
\<close>

definition upper :: "pystr \<Rightarrow> pystr" where
  "upper s =
     concat (map (\<lambda>c. if 97 \<le> c \<and> c \<le> 122 then [c - 32] else if c = 305 then [73] else if c = 383 then [83]
       else if c = 64261 \<or> c = 64262 then [83, 84] else [c]) s)"

definition log_level :: "pystr \<Rightarrow> int result" where
  "log_level level =
     (let name = upper level in
      if name = lit ''DEBUG'' then Inr 10
      else if name = lit ''INFO'' then Inr 20
      else if name = lit ''WARNING'' \<or> name = lit ''WARN'' then Inr 30
      else if name = lit ''ERROR'' then Inr 40
      else if name = lit ''CRITICAL'' \<or> name = lit ''FATAL'' then Inr 50
      else if name = lit ''NOTSET'' then Inr 0
      else if name = lit ''BASIC_FORMAT'' then Inl ValueError
      else if name = lit ''_STYLES'' then Inl TypeError
      else Inl AttributeError)"

text \<open>\<open>shape[0]\<close>, and the number of actions; the flag \<open>continuous\<close> is not read again.\<close>

definition first_dim :: "nat list option \<Rightarrow> nat result" where
  "first_dim shape = (case shape of None \<Rightarrow> Inl TypeError | Some [] \<Rightarrow> Inl IndexError | Some (n # _) \<Rightarrow> Inr n)"

definition action_dim_of :: "action_space \<Rightarrow> nat result" where
  "action_dim_of sp = (case sp of Space_N n \<Rightarrow> Inr n | Space_Shape shape \<Rightarrow> first_dim shape)"

definition new_agent ::
  "fresh_init \<Rightarrow> orth_init \<Rightarrow> (real \<Rightarrow> param list \<Rightarrow> 'o result) \<Rightarrow> real \<Rightarrow> 'e \<Rightarrow> 'e env \<Rightarrow> config \<Rightarrow>
     ('o, 'e) agent result"
where
  "new_agent fresh orth new_adam now e v c =
     (let g = cf_gossip c in
      ebind (log_level (lc_level (cf_logging c))) (\<lambda>_.
      ebind (first_dim (env_obs_shape v)) (\<lambda>obs_dim.
      ebind (action_dim_of (env_action_space v)) (\<lambda>action_dim.
      ebind (new_trainer fresh orth new_adam obs_dim action_dim (cf_training c)
               (if pc_enabled (cf_privacy c) then Some (cf_privacy c) else None)) (\<lambda>tr.
      Inr \<lparr>ag_config = c, ag_env = e, ag_trainer = tr,
           ag_gossip = new_protocol 0 (gc_interval_ms g) (gc_fanout g) (gc_push_pull g) (agent_membership now c) True,
           ag_running = False, ag_total_steps = 0, ag_total_episodes = 0\<rparr>)))))"

text \<open>\<open>add_peer\<close>: \<open>r\<close> is the place of the new peer; an empty identifier counts as none.\<close>

definition agent_add_peer ::
  "ref \<Rightarrow> real \<Rightarrow> pystr \<Rightarrow> int \<Rightarrow> pystr option \<Rightarrow> ('o, 'e) agent \<Rightarrow> ('o, 'e) agent \<times> bool" where
  "agent_add_peer r now host port peer_id a =
     (let pid = (case peer_id of Some (c # cs) \<Rightarrow> c # cs | _ \<Rightarrow> host_port host port);
          (m, ok) = add_peer r (set_peer r (new_peer now pid host port) (membership_of (ag_gossip a)))
      in (a\<lparr>ag_gossip := (ag_gossip a)\<lparr>membership_of := m\<rparr>\<rparr>, ok))"

definition start_agent :: "('o, 'e) agent \<Rightarrow> ('o, 'e) agent" where
  "start_agent a = a\<lparr>ag_running := True, ag_gossip := start_protocol (ag_gossip a)\<rparr>"

text \<open>\<open>stop\<close> cancels the timers of the membership manager.\<close>

definition stop_agent :: "('o, 'e) agent \<Rightarrow> ('o, 'e) agent" where
  "stop_agent a =
     (let g = stop_protocol (ag_gossip a) in
      a\<lparr>ag_running := False, ag_gossip := g\<lparr>membership_of := cancel_all_timers (membership_of g)\<rparr>\<rparr>)"

definition to_array :: "real list \<Rightarrow> rarray" where
  "to_array xs = \<lparr>nd_shape = [length xs], nd_data = xs\<rparr>"

text \<open>The warning about the budget: it is logged, training goes on.\<close>

definition budget_warning :: "('o, 'e) agent \<Rightarrow> bool" where
  "budget_warning a \<longleftrightarrow>
     pc_enabled (cf_privacy (ag_config a)) \<and>
     fst (trainer_privacy_spent (ag_trainer a)) > Fin (pc_epsilon (cf_privacy (ag_config a)) * (95 / 100))"

text \<open>The file a checkpoint is written to after an iteration, every 50 steps.\<close>

definition checkpoint_file :: "('o, 'e) agent \<Rightarrow> (pystr \<times> 'o checkpoint) option" where
  "checkpoint_file a =
     (let step = tr_step (ag_trainer a) in
      if step mod 50 = 0 \<and> step > 0
      then Some (lit ''checkpoints/policy_step_'' @ int_str step @ lit ''.pt'', save_checkpoint (ag_trainer a))
      else None)"

text \<open>
  The middle of the loop: the new gradients are given to gossip, the aggregate is read at once and,
  if there is more than one contributor, applied.
\<close>

definition exchange_gradients :: "(real \<Rightarrow> real) \<Rightarrow> 'o trainer \<Rightarrow> protocol \<Rightarrow> ('o trainer \<times> protocol) result" where
  "exchange_gradients f32 tr gp =
     (let g = get_gradients tr;
          gp1 = (if g \<noteq> [] then set_gradients f32 (to_array g) None (tr_model_version tr) (tr_step tr) gp else gp);
          (aggregated, n_contributors) = get_aggregated_gradients gp1
      in if n_contributors > 1 \<and> nd_data aggregated \<noteq> []
         then ebind (apply_aggregated_gradients (nd_data aggregated) tr) (\<lambda>tr1. Inr (tr1, gp1))
         else Inr (tr, gp1))"

definition agent_turn ::
  "'o torch \<Rightarrow> 'e env \<Rightarrow> (nat \<Rightarrow> dist \<Rightarrow> action) \<Rightarrow> (dist \<Rightarrow> action) \<Rightarrow> (real \<Rightarrow> real) \<Rightarrow>
     ('o, 'e) agent \<Rightarrow> ('o, 'e) agent result"
where
  "agent_turn x v smp smp_last f32 a =
     (let n = tc_n_steps (cf_training (ag_config a)) in
      ebind (collect_rollout x v smp n (ag_env a) (ag_trainer a)) (\<lambda>(e, tr, reward, episodes).
      ebind (train_step x smp_last tr) (\<lambda>(tr1, stats).
      ebind (exchange_gradients f32 tr1 (ag_gossip a)) (\<lambda>(tr2, gp).
      Inr (a\<lparr>ag_env := e, ag_trainer := tr2, ag_gossip := gp, ag_total_steps := ag_total_steps a + n,
             ag_total_episodes := ag_total_episodes a + episodes\<rparr>)))))"

text \<open>\<open>get_stats\<close>, as the tuple of its values.\<close>

definition agent_stats :: "('o, 'e) agent \<Rightarrow> pystr \<times> int \<times> int \<times> int \<times> pyfloat \<times> real" where
  "agent_stats a =
     (let (eps, delta) = trainer_privacy_spent (ag_trainer a) in
      (agc_id (cf_agent (ag_config a)), ag_total_steps a, ag_total_episodes a,
       tr_model_version (ag_trainer a), eps, delta))"

text \<open>
  A run: iterations of the loop, the \<open>k\<close>-th with its own sampling, whatever the other tasks do
  to the state of gossip in between, and calls of \<open>stop\<close> by the handler of a signal. An exception
  leaves the loop.
\<close>

datatype event = Turn nat | Gossip "protocol \<Rightarrow> protocol" | Shutdown

fun run_events ::
  "'o torch \<Rightarrow> 'e env \<Rightarrow> (nat \<Rightarrow> nat \<Rightarrow> dist \<Rightarrow> action) \<Rightarrow> (real \<Rightarrow> real) \<Rightarrow> event list \<Rightarrow>
     ('o, 'e) agent \<Rightarrow> ('o, 'e) agent result"
where
  "run_events x v smp f32 [] a = Inr a"
| "run_events x v smp f32 (Turn k # es) a =
     (if ag_running a
      then ebind (agent_turn x v (smp k) (smp k (nat (tc_n_steps (cf_training (ag_config a))))) f32 a)
             (run_events x v smp f32 es)
      else Inr a)"
| "run_events x v smp f32 (Gossip f # es) a = run_events x v smp f32 es (a\<lparr>ag_gossip := f (ag_gossip a)\<rparr>)"
| "run_events x v smp f32 (Shutdown # es) a = run_events x v smp f32 es (stop_agent a)"

text \<open>
  \<open>run\<close>: the flag is set and the tasks are started, then the loop runs until the flag is cleared
  or the task is cancelled (the end of the events); \<open>stop\<close> follows in any case, after an exception
  on an agent that nobody keeps.
\<close>

definition agent_run ::
  "'o torch \<Rightarrow> 'e env \<Rightarrow> (nat \<Rightarrow> nat \<Rightarrow> dist \<Rightarrow> action) \<Rightarrow> (real \<Rightarrow> real) \<Rightarrow> event list \<Rightarrow>
     ('o, 'e) agent \<Rightarrow> ('o, 'e) agent result"
where
  "agent_run x v smp f32 es a =
     ebind (run_events x v smp f32 es (start_agent a)) (\<lambda>a'. Inr (stop_agent a'))"

text \<open>\<open>run_agent\<close>: \<open>cfg\<close> is what loading the configuration file gave.\<close>

definition run_configured_agent ::
  "fresh_init \<Rightarrow> orth_init \<Rightarrow> (real \<Rightarrow> param list \<Rightarrow> 'o result) \<Rightarrow> real \<Rightarrow> 'e \<Rightarrow>
     'o torch \<Rightarrow> 'e env \<Rightarrow> (nat \<Rightarrow> nat \<Rightarrow> dist \<Rightarrow> action) \<Rightarrow> (real \<Rightarrow> real) \<Rightarrow> event list \<Rightarrow>
     config result \<Rightarrow> ('o, 'e) agent result"
where
  "run_configured_agent fresh orth new_adam now e x v smp f32 es cfg =
     ebind cfg (\<lambda>c.
     ebind (new_agent fresh orth new_adam now e v c) (agent_run x v smp f32 es))"

end
