(* ===== verification/Agent_Props.thy ===== *)
theory Agent_Props
  imports Agent Ppo_Privacy Protocol_Props
begin

text \<open>
  The agent as a whole: what one iteration of the loop gives to gossip and takes from it, and that
  the training of an agent does not depend on what gossip does in between.
\<close>

section \<open>Sizes through an update\<close>

text \<open>
  What the code relies on: differentiation returns a gradient of the size of each parameter, and the
  optimiser writes values only.
\<close>

definition torch_ok :: "'o torch \<Rightarrow> bool" where
  "torch_ok x \<longleftrightarrow>
     (\<forall>L m. map length (grad_of x L m) = map numel (parameters m)) \<and>
     (\<forall>lr opt ps. map pm_grad (snd (adam x lr opt ps)) = map pm_grad ps \<and>
        map pm_shape (snd (adam x lr opt ps)) = map pm_shape ps)"

definition model_size :: "actor_critic \<Rightarrow> nat" where
  "model_size m = data_size (parameters m)"

lemma sizes_cong:
  "map pm_shape qs = map pm_shape ps \<Longrightarrow> data_size qs = data_size ps"
  "map pm_shape qs = map pm_shape ps \<Longrightarrow> map (\<lambda>p. pm_grad p = None) qs = map (\<lambda>p. pm_grad p = None) ps \<Longrightarrow>
     grad_size qs = grad_size ps"
proof -
  have "data_size rs = sum_list (map prod_list (map pm_shape rs))" for rs
    by (simp add: data_size_def numel_def o_def)
  then show "map pm_shape qs = map pm_shape ps \<Longrightarrow> data_size qs = data_size ps" by metis
  show "map pm_shape qs = map pm_shape ps \<Longrightarrow> map (\<lambda>p. pm_grad p = None) qs = map (\<lambda>p. pm_grad p = None) ps \<Longrightarrow>
      grad_size qs = grad_size ps"
  proof (induction ps arbitrary: qs)
    case (Cons p ps)
    then obtain q qs' where qs: "qs = q # qs'" by (cases qs) simp_all
    have "grad_size qs' = grad_size ps" using Cons.prems by (intro Cons.IH) (simp_all add: qs)
    with Cons.prems show ?case by (simp add: qs numel_def)
  qed simp
qed

lemma put_grads_none: "put_grads g off ps = Inr qs \<Longrightarrow> map (\<lambda>p. pm_grad p = None) qs = map (\<lambda>p. pm_grad p = None) ps"
  by (induction ps arbitrary: off qs) (auto simp: ebind_Inr_iff Let_def split: if_splits)

text \<open>
  A trainer whose local gradients fit its model, every parameter of which has a gradient, for a
  model of \<open>n\<close> numbers.
\<close>

definition ready :: "nat \<Rightarrow> 'o trainer \<Rightarrow> bool" where
  "ready n s \<longleftrightarrow> (\<exists>l. tr_local_gradients s = Some l \<and> n \<le> length l) \<and>
     gradient_size (tr_model s) = n \<and> model_size (tr_model s) = n"

lemma backward_sizes:
  "map length gs = map numel ps \<Longrightarrow> \<forall>p \<in> set ps. pm_grad p = None \<Longrightarrow>
     length (backward gs ps) = length ps \<and> map pm_shape (backward gs ps) = map pm_shape ps \<and>
     grad_size (backward gs ps) = data_size ps \<and> length (grads_of (backward gs ps)) = data_size ps"
proof (induction ps arbitrary: gs)
  case (Cons p ps)
  then obtain g gs' where gs: "gs = g # gs'" "length g = numel p" "map length gs' = map numel ps"
    by (cases gs) auto
  from Cons.IH [OF gs(3)] Cons.prems(2) gs(2) show ?case by (simp add: backward_def gs(1))
qed (simp add: backward_def)

lemma clip_sizes:
  "length (clip_grad_norm c ps) = length ps \<and> map pm_shape (clip_grad_norm c ps) = map pm_shape ps \<and>
   grad_size (clip_grad_norm c ps) = grad_size ps \<and> length (grads_of (clip_grad_norm c ps)) = length (grads_of ps)"
proof -
  let ?f = "\<lambda>k p. p\<lparr>pm_grad := map_option (map (\<lambda>g. g * k)) (pm_grad p)\<rparr>"
  have "length (map (?f k) ps) = length ps \<and> map pm_shape (map (?f k) ps) = map pm_shape ps \<and>
      grad_size (map (?f k) ps) = grad_size ps \<and> length (grads_of (map (?f k) ps)) = length (grads_of ps)" for k
    by (induction ps) (auto split: option.split)
  then show ?thesis unfolding clip_grad_norm_def Let_def by blast
qed

text \<open>The model after differentiation: every parameter has a gradient of its size.\<close>

lemma computed_gradients:
  assumes "torch_ok x"
  obtains ps where "compute_gradients x batch s = extract_gradients (s\<lparr>tr_model := put_parameters (cleared (tr_model s)) ps\<rparr>)"
    "length ps = length (parameters (tr_model s))" "map pm_shape ps = map pm_shape (parameters (tr_model s))"
    "grad_size ps = data_size (parameters (tr_model s))" "length (grads_of ps) = data_size (parameters (tr_model s))"
proof -
  let ?c = "tr_config s"
  define m where "m = cleared (tr_model s)"
  define ps1 where "ps1 = backward (grad_of x (loss_fun (Phi x) ?c batch) m) (parameters m)"
  define ps2 where "ps2 = (if tc_max_grad_norm ?c > 0 then clip_grad_norm (tc_max_grad_norm ?c) ps1 else ps1)"
  have m: "map pm_shape (parameters m) = map pm_shape (parameters (tr_model s))" by (simp add: m_def zero_grad_def)
  have g: "map length (grad_of x (loss_fun (Phi x) ?c batch) m) = map numel (parameters m)"
    using assms by (simp add: torch_ok_def)
  have "\<forall>p \<in> set (parameters m). pm_grad p = None" by (auto simp: m_def zero_grad_def)
  note b = backward_sizes [OF g this, folded ps1_def]
  have ps2: "length ps2 = length (parameters m)" "map pm_shape ps2 = map pm_shape (parameters m)"
    "grad_size ps2 = data_size (parameters m)" "length (grads_of ps2) = data_size (parameters m)"
    using b clip_sizes [of "tc_max_grad_norm ?c" ps1] by (auto simp: ps2_def)
  have "compute_gradients x batch s = extract_gradients (s\<lparr>tr_model := put_parameters m ps2\<rparr>)"
    by (simp add: compute_gradients_def m_def ps1_def ps2_def cleared_def Let_def)
  with ps2 m sizes_cong(1) [OF m] map_eq_imp_length_eq [OF m] show thesis
    by (intro that [of ps2]) (simp_all add: m_def)
qed

lemma compute_gradients_ready:
  assumes "torch_ok x"
  shows "ready (model_size (tr_model s)) (compute_gradients x batch s)"
proof -
  obtain ps where c: "compute_gradients x batch s = extract_gradients (s\<lparr>tr_model := put_parameters (cleared (tr_model s)) ps\<rparr>)"
    and ps: "length ps = length (parameters (tr_model s))" "map pm_shape ps = map pm_shape (parameters (tr_model s))"
      "grad_size ps = data_size (parameters (tr_model s))" "length (grads_of ps) = data_size (parameters (tr_model s))"
    by (rule computed_gradients [OF assms])
  have "parameters (put_parameters (cleared (tr_model s)) ps) = ps" using ps(1) by (intro parameters_put) simp
  with ps(3,4) sizes_cong(1) [OF ps(2)] show ?thesis
    unfolding c by (simp add: ready_def extract_gradients_def get_gradient_vector_def gradient_size_def model_size_def)
qed

lemma dp_ready:
  assumes "apply_dp_noise x u s = Inr s'" and "ready n s"
  shows "ready n s'"
proof (cases "tr_mechanism s")
  case None
  with assms show ?thesis by (auto simp: apply_dp_noise_def ready_def)
next
  case (Some mech)
  obtain g where g: "tr_local_gradients s = Some g" using assms(2) by (auto simp: ready_def)
  obtain s1 mech1 mech2 noisy m where st: "schedule_noise g mech s = Inr (s1, mech1)"
    "set_gradient_vector (tr_model s) noisy = Inr m"
    "track_privacy x mech2 (s1\<lparr>tr_model := m, tr_local_gradients := Some noisy\<rparr>) = Inr s'"
    using dp_stages [OF assms(1) g Some] by metis
  have s': "tr_local_gradients s' = Some noisy" "tr_model s' = m"
    by (subst track_frame(1) [OF st(3)], simp)+
  obtain qs where qs: "put_grads noisy 0 (parameters (tr_model s)) = Inr qs" "m = put_parameters (tr_model s) qs"
    using st(2) by (auto simp: set_gradient_vector_def ebind_Inr_iff)
  note v = put_grads_values [OF qs(1)]
  have m: "parameters m = qs" unfolding qs(2) using v by (intro parameters_put) (metis length_map)
  have "grad_size qs = grad_size (parameters (tr_model s))" "data_size qs = data_size (parameters (tr_model s))"
    using sizes_cong v put_grads_none [OF qs(1)] by metis+
  moreover have "grad_size (parameters (tr_model s)) \<le> length noisy"
    using put_grads_short [of 0 noisy "parameters (tr_model s)"] qs(1) by fastforce
  ultimately show ?thesis using assms(2) s' by (simp add: ready_def gradient_size_def model_size_def m)
qed

lemma optimizer_ready:
  assumes "torch_ok x" and "ready n s"
  shows "ready n (optimizer_step x s)"
proof -
  let ?ps = "parameters (tr_model s)"
  obtain opt qs where a: "adam x (tc_learning_rate (tr_config s)) (tr_optimizer s) ?ps = (opt, qs)"
    by (cases "adam x (tc_learning_rate (tr_config s)) (tr_optimizer s) ?ps")
  have q: "map pm_grad qs = map pm_grad ?ps" "map pm_shape qs = map pm_shape ?ps"
    using assms(1) a unfolding torch_ok_def by (metis snd_conv)+
  have "map (\<lambda>p. pm_grad p = None) qs = map (\<lambda>p. pm_grad p = None) ?ps"
    using arg_cong [OF q(1), of "map (\<lambda>g. g = None)"] by (simp add: o_def)
  with sizes_cong q(2) have "grad_size qs = grad_size ?ps" "data_size qs = data_size ?ps" by metis+
  moreover have "parameters (put_parameters (tr_model s) qs) = qs"
    by (rule parameters_put [OF map_eq_imp_length_eq [OF q(1)]])
  ultimately show ?thesis
    using assms(2) by (simp add: optimizer_step_def a ready_def gradient_size_def model_size_def)
qed

lemma update_ready:
  assumes "torch_ok x" and "ppo_update x batch (s, t) = Inr (s', t')"
  shows "ready (model_size (tr_model s)) s' \<and> n_updates t' = n_updates t + 1"
proof -
  obtain outs s1 where u: "apply_dp_noise x (n_updates t) (compute_gradients x batch s) = Inr s1"
    "s' = optimizer_step x s1" "t' = add_totals (tr_config s) batch outs t"
    using assms(2) by (auto simp: ppo_update_def ebind_Inr_iff)
  have "ready (model_size (tr_model s)) s1" by (rule dp_ready [OF u(1) compute_gradients_ready [OF assms(1)]])
  then show ?thesis using optimizer_ready [OF assms(1)] by (simp add: u(2,3) add_totals_def)
qed

lemma run_updates_ready:
  "torch_ok x \<Longrightarrow> run_updates x bs (s, t) = Inr (s', t') \<Longrightarrow> n_updates t' = n_updates t + length bs \<and>
     (bs \<noteq> [] \<longrightarrow> ready (model_size (tr_model s)) s')"
proof (induction bs arbitrary: s t)
  case (Cons b bs)
  then obtain s1 t1 where 1: "ppo_update x b (s, t) = Inr (s1, t1)" "run_updates x bs (s1, t1) = Inr (s', t')"
    by (auto simp: ebind_Inr_iff)
  note r = update_ready [OF Cons.prems(1) 1(1)]
  from Cons.IH [OF Cons.prems(1) 1(2)] r 1(2) show ?case by (cases bs) (auto simp: ready_def)
qed simp

lemma train_step_ready:
  assumes "torch_ok x" and "train_step x smp s = Inr (s', st)"
  shows "ready (model_size (tr_model s)) s'"
proof -
  from assms(2) obtain bs s1 t ret where r: "run_updates x bs (s, no_totals) = Inr (s1, t)"
    "stats_of (s1\<lparr>tr_step := tr_step s1 + 1\<rparr>) ret t = Inr st" "s' = s1\<lparr>tr_step := tr_step s1 + 1\<rparr>"
    by (auto simp: train_step_def Let_def ebind_Inr_iff case_prod_unfold split: if_splits)
  have "n_updates t \<noteq> 0" using r(2) by (auto simp: stats_of_def Let_def split: if_splits)
  with run_updates_ready [OF assms(1) r(1)] show ?thesis
    by (auto simp: r(3) ready_def no_totals_def)
qed

section \<open>The exchange with gossip\<close>

lemma halves: "map2 (+) (map (\<lambda>a. 1 / 2 * a) l) (map (\<lambda>a. 1 / 2 * a) l) = (l :: real list)"
  by (induction l) simp_all

text \<open>Half of the own gradients and half of the own gradients.\<close>

lemma apply_own:
  assumes "ready n tr"
  shows "\<exists>tr1. apply_aggregated_gradients (get_gradients tr) tr = Inr tr1 \<and> alike tr tr1 \<and>
    tr_local_gradients tr1 = tr_local_gradients tr \<and> tr_step tr1 = tr_step tr \<and>
    tr_aggregated_gradients tr1 = Some (get_gradients tr) \<and> tr_model_version tr1 = tr_model_version tr + 1"
proof -
  obtain l where l: "tr_local_gradients tr = Some l" "n \<le> length l" and size: "gradient_size (tr_model tr) = n"
    using assms by (auto simp: ready_def)
  obtain m where m: "set_gradient_vector (tr_model tr) l = Inr m"
    using ac.gradients_set [of "tr_model tr" l] l(2) size by (auto simp: set_gradient_vector_def gradient_size_def)
  have app: "apply_aggregated_gradients l tr =
      Inr (tr\<lparr>tr_aggregated_gradients := Some l, tr_model := m, tr_model_version := tr_model_version tr + 1\<rparr>)"
    using l(1) m by (simp add: apply_aggregated_gradients_def np_add_def halves Let_def)
  with apply_aggregated_alike [OF app] l(1) show ?thesis by (simp add: get_gradients_def)
qed

lemma own_nonempty: "ready n tr \<Longrightarrow> 0 < n \<Longrightarrow> get_gradients tr \<noteq> []"
  by (auto simp: ready_def get_gradients_def)

lemma to_array_data [simp]: "nd_data (to_array g) = g"
  by (simp add: to_array_def)

lemma own_aggregate:
  "get_aggregated_gradients (set_gradients f32 (to_array g) None v st gp) = (to_array g, int (length (gradient_cache gp)) + 1)"
  by (simp add: get_aggregated_gradients_def set_gradients_def)

text \<open>What comes back from gossip are the gradients just given to it.\<close>

lemma exchange_own:
  assumes "ready n tr" and "0 < n"
  shows "\<exists>tr1. exchange_gradients f32 tr gp =
      Inr (tr1, set_gradients f32 (to_array (get_gradients tr)) None (tr_model_version tr) (tr_step tr) gp) \<and>
    alike tr tr1 \<and> tr_local_gradients tr1 = tr_local_gradients tr \<and> tr_step tr1 = tr_step tr \<and>
    (if gradient_cache gp = [] then tr1 = tr
     else tr_aggregated_gradients tr1 = Some (get_gradients tr) \<and> tr_model_version tr1 = tr_model_version tr + 1)"
proof (cases "gradient_cache gp = []")
  case True
  then show ?thesis
    using own_nonempty [OF assms] by (simp add: exchange_gradients_def own_aggregate alike_refl)
next
  case False
  then show ?thesis
    using own_nonempty [OF assms] apply_own [OF assms(1)]
    by (auto simp: exchange_gradients_def own_aggregate)
qed

lemma alike_size: "alike s s' \<Longrightarrow> model_size (tr_model s') = model_size (tr_model s)"
  unfolding model_size_def by (intro sizes_cong same_values_parameters(2) alike_fields)

lemma alike_ready: "alike s s' \<Longrightarrow> ready n s \<Longrightarrow> gradient_size (tr_model s') = n \<Longrightarrow> ready n s'"
  using alike_size [of s s'] alike_fields(8) [of s s'] by (simp add: ready_def)

text \<open>
  What the loops of the agent, the launcher and the benchmark rely on when they exchange gradients
  after a training step: it succeeds, and it changes nothing that training reads.
\<close>

locale gossip_exchange =
  fixes ex :: "'o trainer \<Rightarrow> protocol \<Rightarrow> ('o trainer \<times> protocol) result"
  assumes succeeds: "ready n tr \<Longrightarrow> 0 < n \<Longrightarrow> \<exists>tr1 gp1. ex tr gp = Inr (tr1, gp1)"
    and harmless: "ex tr gp = Inr (tr1, gp1) \<Longrightarrow> alike tr tr1"
begin

lemma keeps_parameters: "ex tr gp = Inr (tr1, gp1) \<Longrightarrow> get_parameters tr1 = get_parameters tr"
  using same_values_parameters(1) [OF alike_fields(10) [OF harmless]]
  by (simp add: get_parameters_def get_parameter_vector_def)

lemma after_training:
  assumes "torch_ok x" and "train_step x smp tr = Inr (r, st)" and "0 < model_size (tr_model tr)"
  obtains r1 gp1 where "ex r gp = Inr (r1, gp1)" "alike r r1" "model_size (tr_model r1) = model_size (tr_model tr)"
proof -
  have r: "ready (model_size (tr_model tr)) r" by (rule train_step_ready [OF assms(1,2)])
  obtain r1 gp1 where x: "ex r gp = Inr (r1, gp1)" using succeeds [OF r assms(3)] by blast
  have "model_size (tr_model r1) = model_size (tr_model tr)"
    using alike_size [OF harmless [OF x]] r by (simp add: ready_def)
  with x harmless [OF x] show thesis by (rule that)
qed

end

lemma exchange_harmless: "exchange_gradients f32 tr gp = Inr (tr1, gp1) \<Longrightarrow> alike tr tr1"
  using apply_aggregated_alike [of _ tr] alike_refl [of tr]
  by (auto simp: exchange_gradients_def Let_def ebind_Inr_iff case_prod_unfold split: if_splits)

interpretation agent_exchange: gossip_exchange "exchange_gradients f32" for f32
  by unfold_locales (use exchange_own exchange_harmless in \<open>blast+\<close>)

section \<open>Runs\<close>

text \<open>Agents whose trainers agree in everything that matters for training.\<close>

definition agents_alike :: "('o, 'e) agent \<Rightarrow> ('o, 'e) agent \<Rightarrow> bool" where
  "agents_alike a b \<longleftrightarrow>
     alike (ag_trainer a) (ag_trainer b) \<and> ag_env b = ag_env a \<and> ag_config b = ag_config a \<and>
     ag_running b = ag_running a \<and> ag_total_steps b = ag_total_steps a \<and>
     ag_total_episodes b = ag_total_episodes a"

lemma alike_sym: "alike s s' \<Longrightarrow> alike s' s"
proof -
  assume a: "alike s s'"
  obtain qs where qs: "tr_model s' = put_parameters (tr_model s) qs" "map pm_data qs = map pm_data (parameters (tr_model s))"
    "map pm_shape qs = map pm_shape (parameters (tr_model s))"
    using a by (auto simp: alike_def same_values_def)
  have len: "length qs = length (parameters (tr_model s))" by (rule map_eq_imp_length_eq [OF qs(2)])
  have "tr_model s = put_parameters (tr_model s') (parameters (tr_model s))"
    unfolding qs(1) by (simp add: put_parameters_twice len put_parameters_same)
  then have "same_values (tr_model s') (tr_model s)"
    unfolding same_values_def using qs(2,3) len by (intro exI [of _ "parameters (tr_model s)"]) (simp add: qs(1) parameters_put)
  with a show ?thesis unfolding alike_def by (cases s; cases s') simp
qed

text \<open>Both outcomes of an iteration, from the outcomes of its stages.\<close>

lemma turn_alike:
  assumes "torch_ok x" and "agents_alike a b" and "0 < model_size (tr_model (ag_trainer a))"
  shows "rel_result (\<lambda>a' b'. agents_alike a' b' \<and>
      model_size (tr_model (ag_trainer a')) = model_size (tr_model (ag_trainer a)))
    (agent_turn x v smp smp2 f32 a) (agent_turn x v smp smp2 f32 b)"
proof -
  have al: "alike (ag_trainer a) (ag_trainer b)" and eq: "ag_env b = ag_env a" "ag_config b = ag_config a"
    "ag_running b = ag_running a" "ag_total_steps b = ag_total_steps a" "ag_total_episodes b = ag_total_episodes a"
    using assms(2) by (simp_all add: agents_alike_def)
  let ?k = "tc_n_steps (cf_training (ag_config a))"
  note roll = collect_rollout_alike [OF al, of x v smp ?k "ag_env a"]
  show ?thesis
  proof (cases "collect_rollout x v smp ?k (ag_env a) (ag_trainer a)")
    case (Inl e)
    with roll show ?thesis
      by (cases "collect_rollout x v smp ?k (ag_env a) (ag_trainer b)") (simp_all add: agent_turn_def eq)
  next
    case (Inr p)
    then obtain e tr rew eps where p: "collect_rollout x v smp ?k (ag_env a) (ag_trainer a) = Inr (e, tr, rew, eps)"
      by (cases p) auto
    with roll obtain tr' where p': "collect_rollout x v smp ?k (ag_env a) (ag_trainer b) = Inr (e, tr', rew, eps)"
      "alike tr tr'"
      by (cases "collect_rollout x v smp ?k (ag_env a) (ag_trainer b)") auto
    have size: "model_size (tr_model tr) = model_size (tr_model (ag_trainer a))"
      by (subst rollout_gathers [OF p, THEN conjunct2, THEN conjunct2, THEN conjunct2]) simp
    note train = train_step_alike [OF p'(2), of x smp2]
    show ?thesis
    proof (cases "train_step x smp2 tr")
      case (Inl e')
      with train show ?thesis
        by (cases "train_step x smp2 tr'") (simp_all add: agent_turn_def eq p p')
    next
      case (Inr q)
      then obtain r st where q: "train_step x smp2 tr = Inr (r, st)" by (cases q) auto
      with train obtain r' where q': "train_step x smp2 tr' = Inr (r', st)" "alike r r'"
        by (cases "train_step x smp2 tr'") auto
      have pos: "0 < model_size (tr_model tr)" "0 < model_size (tr_model tr')"
        using size assms(3) alike_size [OF p'(2)] by simp_all
      obtain r1 gp1 where x1: "exchange_gradients f32 r (ag_gossip a) = Inr (r1, gp1)" "alike r r1"
        "model_size (tr_model r1) = model_size (tr_model tr)"
        by (rule agent_exchange.after_training [OF assms(1) q pos(1)])
      obtain r2 gp2 where x2: "exchange_gradients f32 r' (ag_gossip b) = Inr (r2, gp2)" "alike r' r2"
        by (rule agent_exchange.after_training [OF assms(1) q'(1) pos(2)])
      have "alike r1 r2" using alike_trans [OF alike_sym [OF x1(2)] alike_trans [OF q'(2) x2(2)]] .
      moreover have "model_size (tr_model r1) = model_size (tr_model (ag_trainer a))"
        using x1(3) size by simp
      ultimately show ?thesis
        by (simp add: agent_turn_def eq p p' q q' x1 x2 agents_alike_def Let_def)
    qed
  qed
qed

text \<open>The events other than those of gossip.\<close>

fun is_turn :: "event \<Rightarrow> bool" where
  "is_turn (Turn k) = True"
| "is_turn (Gossip f) = False"
| "is_turn Shutdown = True"

lemma run_events_alike:
  "torch_ok x \<Longrightarrow> agents_alike a b \<Longrightarrow> 0 < model_size (tr_model (ag_trainer a)) \<Longrightarrow>
     rel_result agents_alike (run_events x v smp f32 es a) (run_events x v smp f32 (filter is_turn es) b)"
proof (induction es arbitrary: a b)
  case (Cons ev es)
  show ?case
  proof (cases ev)
    case (Gossip f)
    have "agents_alike (a\<lparr>ag_gossip := f (ag_gossip a)\<rparr>) b" using Cons.prems(2) by (simp add: agents_alike_def)
    with Cons Gossip show ?thesis by simp
  next
    case Shutdown
    have "agents_alike (stop_agent a) (stop_agent b)"
      using Cons.prems(2) by (simp add: agents_alike_def stop_agent_def Let_def)
    from Cons.IH [OF Cons.prems(1) this] Cons.prems(3) Shutdown show ?thesis
      by (simp add: stop_agent_def Let_def)
  next
    case (Turn k)
    have run: "ag_running b = ag_running a" "ag_config b = ag_config a"
      using Cons.prems(2) by (simp_all add: agents_alike_def)
    show ?thesis
    proof (cases "ag_running a")
      case True
      note t = turn_alike [OF Cons.prems, of v "smp k" "smp k (nat (tc_n_steps (cf_training (ag_config a))))" f32]
      show ?thesis unfolding Turn using True run
        by (auto intro!: rel_ebind [OF t] Cons.IH Cons.prems(1) simp: Cons.prems(3))
    next
      case False
      with Turn run Cons.prems(2) show ?thesis by simp
    qed
  qed
qed simp

text \<open>What can be seen of the outcome of training.\<close>

lemma alike_outcome:
  "alike s s' \<Longrightarrow> get_parameters s' = get_parameters s \<and> trainer_privacy_spent s' = trainer_privacy_spent s"
  using same_values_parameters(1) [of "tr_model s" "tr_model s'"] alike_fields [of s s']
  by (simp add: get_parameters_def get_parameter_vector_def trainer_privacy_spent_def split: option.split)

text \<open>The counters of the trainer through a training step and a rollout.\<close>

lemma train_step_counters:
  assumes "train_step x smp s = Inr (s', st)"
  shows "tr_step s' = tr_step s + 1 \<and> tr_model_version s' = tr_model_version s \<and>
    tr_aggregated_gradients s' = tr_aggregated_gradients s"
proof -
  from assms obtain bs s1 t where r: "run_updates x bs (s, no_totals) = Inr (s1, t)" "s' = s1\<lparr>tr_step := tr_step s1 + 1\<rparr>"
    by (auto simp: train_step_def Let_def ebind_Inr_iff case_prod_unfold split: if_splits)
  from run_updates_counters [OF r(1)] show ?thesis by (simp add: r(2) counters_def)
qed

section \<open>Properties\<close>

definition demo_config :: config where
  "demo_config = default_config\<lparr>cf_training := default_training_config\<lparr>tc_n_steps := 1\<rparr>\<rparr>"

text \<open>An agent that has received a gradient from another one.\<close>

definition demo_agent :: "(nat, nat) agent" where
  "demo_agent =
     \<lparr>ag_config = demo_config, ag_env = 0, ag_trainer = demo_dp,
      ag_gossip = (new_protocol 0 100 3 True (agent_membership 0 demo_config) True)
        \<lparr>gradient_cache := [([98], \<lparr>gs_gradients = to_array [4, 4, 4, 4, 4, 4], gs_indices = None,
           gs_model_version = 1, gs_step = 1, gs_contributors = {[98]}, gs_timestamp = 0\<rparr>)]\<rparr>,
      ag_running = True, ag_total_steps = 0, ag_total_episodes = 0\<rparr>"

lemma demo_torch_ok: "torch_ok demo_torch"
proof -
  have "map length (map (\<lambda>p. replicate (numel p) (1::real)) ps) = map numel ps" for ps by simp
  then show ?thesis by (simp add: torch_ok_def demo_torch_def o_def)
qed

lemma demo_agent_size: "model_size (tr_model (ag_trainer demo_agent)) = 6"
  by (simp add: demo_agent_def model_size_def demo_parameters numel_def new_param_def)

lemma demo_rollout_one:
  "\<exists>e v lp. collect_rollout demo_torch demo_env (\<lambda>t d. Discrete 0) 1 0 demo_dp = Inr (e, demo_on 0 1 v lp True, 1, 1)"
proof -
  let ?a = "get_action_and_value (Phi demo_torch) (\<lambda>d. Discrete 0) demo_model [0] None False"
  obtain v lp ent where a: "?a = Inr (Discrete 0, v, lp, ent)" by (simp add: demo_action demo_forward)
  have "collect_rollout demo_torch demo_env (\<lambda>t d. Discrete 0) 1 0 demo_dp =
      Inr (4, demo_dp\<lparr>tr_buffer := rollout_add [0] (Discrete 0) 1 v lp True (rollout_clear (tr_buffer demo_dp))\<rparr>, 1, 1)"
    by (simp add: collect_rollout_def reset_obs_def demo_env_def a)
  then show ?thesis
    by (intro exI) (auto simp: demo_dp_def demo_on_def demo_trainer_def rollout_clear_def rollout_add_def new_rollout_def)
qed

lemma demo_turn: "\<exists>a'. agent_turn demo_torch demo_env (\<lambda>t d. Discrete 0) (\<lambda>d. Discrete 0) f32 demo_agent = Inr a'"
proof -
  obtain e v lp where c: "collect_rollout demo_torch demo_env (\<lambda>t d. Discrete 0) 1 0 demo_dp = Inr (e, demo_on 0 1 v lp True, 1, 1)"
    using demo_rollout_one by blast
  obtain r st where t: "train_step demo_torch (\<lambda>d. Discrete 0) (demo_on 0 1 v lp True) = Inr (r, st)"
    using demo_train by blast
  have "model_size demo_model = 6" using demo_agent_size by (simp add: demo_agent_def)
  then have "ready 6 r" using train_step_ready [OF demo_torch_ok t] by simp
  from exchange_own [OF this, of f32 "ag_gossip demo_agent"] obtain r1 gp where
    "exchange_gradients f32 r (ag_gossip demo_agent) = Inr (r1, gp)" by auto
  with c t show ?thesis
    by (simp add: agent_turn_def demo_agent_def demo_config_def)
qed



text \<open>
  C13. What an iteration publishes and takes back: gossip gets the gradients of this iteration with
  the model version before and the step after it, and the aggregate read back at once is these very
  gradients, whatever the other agents have sent; with a cached gradient the trainer stores them
  and counts a new model version, without one nothing is applied.
\<close>

theorem own_gradients_come_back:
  assumes "torch_ok x" and "0 < model_size (tr_model (ag_trainer a))"
    and "agent_turn x v smp smp2 f32 a = Inr a'"
  shows "ag_gossip a' = set_gradients f32 (to_array (get_gradients (ag_trainer a'))) None
      (tr_model_version (ag_trainer a)) (tr_step (ag_trainer a')) (ag_gossip a) \<and>
    tr_step (ag_trainer a') = tr_step (ag_trainer a) + 1 \<and>
    (if gradient_cache (ag_gossip a) = []
     then tr_model_version (ag_trainer a') = tr_model_version (ag_trainer a) \<and>
       tr_aggregated_gradients (ag_trainer a') = tr_aggregated_gradients (ag_trainer a)
     else tr_model_version (ag_trainer a') = tr_model_version (ag_trainer a) + 1 \<and>
       tr_aggregated_gradients (ag_trainer a') = Some (get_gradients (ag_trainer a')))"
proof -
  let ?k = "tc_n_steps (cf_training (ag_config a))"
  obtain e tr rew eps r st r1 gp where t: "collect_rollout x v smp ?k (ag_env a) (ag_trainer a) = Inr (e, tr, rew, eps)"
    "train_step x smp2 tr = Inr (r, st)" "exchange_gradients f32 r (ag_gossip a) = Inr (r1, gp)"
    "ag_trainer a' = r1" "ag_gossip a' = gp"
    using assms(3) by (auto simp: agent_turn_def Let_def ebind_Inr_iff)
  have tr: "tr = (ag_trainer a)\<lparr>tr_buffer := tr_buffer tr\<rparr>" using rollout_gathers [OF t(1)] by blast
  have f: "model_size (tr_model tr) = model_size (tr_model (ag_trainer a))" "tr_step tr = tr_step (ag_trainer a)"
    "tr_model_version tr = tr_model_version (ag_trainer a)"
    "tr_aggregated_gradients tr = tr_aggregated_gradients (ag_trainer a)"
    by (subst tr, simp)+
  have "ready (model_size (tr_model tr)) r" "0 < model_size (tr_model tr)"
    using train_step_ready [OF assms(1) t(2)] assms(2) f(1) by simp_all
  from exchange_own [OF this, of f32 "ag_gossip a"] t(3) have
    "gp = set_gradients f32 (to_array (get_gradients r)) None (tr_model_version r) (tr_step r) (ag_gossip a)"
    "tr_local_gradients r1 = tr_local_gradients r" "tr_step r1 = tr_step r"
    "if gradient_cache (ag_gossip a) = [] then r1 = r
     else tr_aggregated_gradients r1 = Some (get_gradients r) \<and> tr_model_version r1 = tr_model_version r + 1"
    by auto
  with train_step_counters [OF t(2)] f show ?thesis
    by (simp add: t(4,5) get_gradients_def split: if_splits)
qed

theorem own_gradients_come_back_witness:
  "\<exists>a'. agent_turn demo_torch demo_env (\<lambda>t d. Discrete 0) (\<lambda>d. Discrete 0) (\<lambda>x. x) demo_agent = Inr a' \<and>
     tr_aggregated_gradients (ag_trainer a') = Some (get_gradients (ag_trainer a')) \<and>
     tr_model_version (ag_trainer a') = tr_model_version (ag_trainer demo_agent) + 1"
proof -
  obtain a' where t: "agent_turn demo_torch demo_env (\<lambda>t d. Discrete 0) (\<lambda>d. Discrete 0) (\<lambda>x. x) demo_agent = Inr a'"
    using demo_turn by blast
  have "gradient_cache (ag_gossip demo_agent) \<noteq> []" by (simp add: demo_agent_def)
  with own_gradients_come_back [OF demo_torch_ok _ t] demo_agent_size t show ?thesis by auto
qed

end
