(* ===== verification/Agent_Progress.thy ===== *)
theory Agent_Progress
  imports Agent_Props
begin

text \<open>
  Runs of an agent do not raise: networks keep the sizes they were built with, rollouts hold what
  the networks accept, and every stage of a training step succeeds on them, with and without
  differential privacy. From the constructor on, every iteration that starts also ends.
\<close>

section \<open>Networks keep their sizes\<close>

definition dims :: "param \<Rightarrow> nat list \<times> nat" where
  "dims p = (pm_shape p, length (pm_data p))"

text \<open>A network for observations of size \<open>n\<close> and \<open>k\<close> actions.\<close>

definition net_fits :: "nat \<Rightarrow> nat \<Rightarrow> actor_critic \<Rightarrow> bool" where
  "net_fits n k m \<longleftrightarrow>
     ac_backbone m = None \<and> policy_shape n k False (ac_policy m) \<and> value_shape n (ac_value m)"

lemma linear_ok_dims:
  "linear_ok n m l \<Longrightarrow> dims w = dims (ln_weight l) \<Longrightarrow> dims b = dims (ln_bias l) \<Longrightarrow>
     linear_ok n m \<lparr>ln_weight = w, ln_bias = b\<rparr>"
  by (simp add: linear_ok_def dims_def)

lemma put_layers_dims:
  "layers_ok n ls m \<Longrightarrow> map dims ps = map dims (layer_params ls) \<Longrightarrow>
     layers_ok n (fst (put_layers ls (ps @ qs))) m"
proof (induction ls arbitrary: n ps rule: layer_params.induct)
  case (2 l ls)
  then obtain w b rest where ps: "ps = w # b # rest" "dims w = dims (ln_weight l)" "dims b = dims (ln_bias l)"
    "map dims rest = map dims (layer_params ls)" by (auto simp: map_eq_Cons_conv)
  have "pm_shape b = pm_shape (ln_bias l)" using ps(3) by (simp add: dims_def)
  with "2.prems"(1) "2.IH" [OF _ ps(4)] linear_ok_dims [OF _ ps(2,3)] show ?case
    by (simp add: ps(1) case_prod_beta)
qed (simp_all add: case_prod_beta)

lemma dims_pieces:
  assumes "map dims ps = map dims (layer_params (ls @ [Linear l]))"
  obtains as w b where "ps = as @ [w, b]" "map dims as = map dims (layer_params ls)"
    "dims w = dims (ln_weight l)" "dims b = dims (ln_bias l)"
    "snd (put_layers ls (as @ [w, b] @ qs)) = [w, b] @ qs"
proof -
  from assms have "map dims ps = map dims (layer_params ls) @ [dims (ln_weight l), dims (ln_bias l)]"
    by (simp add: layer_params_append)
  then obtain as bs where ps: "ps = as @ bs" "map dims as = map dims (layer_params ls)"
    "map dims bs = [dims (ln_weight l), dims (ln_bias l)]" by (auto simp: map_eq_append_conv)
  from ps(3) obtain w b where "bs = [w, b]" "dims w = dims (ln_weight l)" "dims b = dims (ln_bias l)"
    by (auto simp: map_eq_Cons_conv)
  with ps put_layers_params [of as ls "[w, b] @ qs"] map_eq_imp_length_eq [OF ps(2)] show thesis
    by (intro that [of as w b]) simp_all
qed

lemma layers_ok_snoc:
  "layers_ok n (ls @ [Linear l]) m \<longleftrightarrow> (\<exists>h. layers_ok n ls h \<and> linear_ok h m l)"
  by (induction n ls m rule: layers_ok.induct) (auto simp: linear_ok_bias)

lemma put_policy_dims:
  assumes "policy_shape n k False p" and "map dims ps = map dims (policy_params p)"
  shows "policy_shape n k False (fst (put_policy p (ps @ qs)))"
proof -
  have no: "pn_log_std p = None" using assms(1) by (auto simp: policy_shape_def split: option.splits)
  obtain h where h: "layers_ok n (pn_backbone p) h" "linear_ok h k (pn_head p)"
    using assms(1) by (auto simp: policy_shape_def)
  obtain as w b where ps: "ps = as @ [w, b]" "map dims as = map dims (layer_params (pn_backbone p))"
    "dims w = dims (ln_weight (pn_head p))" "dims b = dims (ln_bias (pn_head p))"
    "snd (put_layers (pn_backbone p) (as @ [w, b] @ qs)) = [w, b] @ qs"
    by (rule dims_pieces [of ps "pn_backbone p" "pn_head p" qs])
      (use assms(2) in \<open>simp_all add: policy_params_def no\<close>)
  with put_layers_dims [OF h(1) ps(2), of "[w, b] @ qs"] linear_ok_dims [OF h(2) ps(3,4)] show ?thesis
    by (auto simp: policy_shape_def put_policy_def put_linear_def no case_prod_beta)
qed

lemma put_value_dims:
  assumes "value_shape n v" and "map dims ps = map dims (value_params v)"
  shows "value_shape n (fst (put_value v (ps @ qs)))"
proof -
  obtain h where h: "layers_ok n (vn_layers v) h" "linear_ok h 1 (vn_final v)"
    using assms(1) by (auto simp: value_shape_def layers_ok_snoc)
  obtain as w b where ps: "ps = as @ [w, b]" "map dims as = map dims (layer_params (vn_layers v))"
    "dims w = dims (ln_weight (vn_final v))" "dims b = dims (ln_bias (vn_final v))"
    "snd (put_layers (vn_layers v) (as @ [w, b] @ qs)) = [w, b] @ qs"
    by (rule dims_pieces [of ps "vn_layers v" "vn_final v" qs])
      (use assms(2) in \<open>simp_all add: value_params_def\<close>)
  with put_layers_dims [OF h(1) ps(2), of "[w, b] @ qs"] linear_ok_dims [OF h(2) ps(3,4)] show ?thesis
    by (auto simp: value_shape_def layers_ok_snoc put_value_def put_linear_def case_prod_beta)
qed

lemma net_fits_put:
  assumes "net_fits n k m" and "map dims qs = map dims (parameters m)"
  shows "net_fits n k (put_parameters m qs)"
proof -
  have m: "ac_backbone m = None" "policy_shape n k False (ac_policy m)" "value_shape n (ac_value m)"
    using assms(1) by (simp_all add: net_fits_def)
  have "map dims qs = map dims (policy_params (ac_policy m)) @ map dims (value_params (ac_value m))"
    using assms(2) by (simp add: parameters_def m(1))
  then obtain xs ys where qs: "qs = xs @ ys" "map dims xs = map dims (policy_params (ac_policy m))"
    "map dims ys = map dims (value_params (ac_value m))" by (auto simp: map_eq_append_conv)
  have "snd (put_policy (ac_policy m) (xs @ ys)) = ys"
    using put_policy_params [of xs "ac_policy m" ys] map_eq_imp_length_eq [OF qs(2)] by simp
  with put_policy_dims [OF m(2) qs(2), of ys] put_value_dims [OF m(3) qs(3), of "[]"] m(1) show ?thesis
    by (simp add: net_fits_def put_parameters_def qs(1) case_prod_beta)
qed

lemma net_fits_same:
  assumes "same_values m m'" and "net_fits n k m"
  shows "net_fits n k m'"
proof -
  from assms(1) obtain qs where qs: "m' = put_parameters m qs" "map pm_data qs = map pm_data (parameters m)"
    "map pm_shape qs = map pm_shape (parameters m)" by (auto simp: same_values_def)
  have "map dims qs = map dims (parameters m)"
  proof (rule nth_equalityI)
    show "length (map dims qs) = length (map dims (parameters m))"
      using map_eq_imp_length_eq [OF qs(2)] by simp
    fix i assume "i < length (map dims qs)"
    then show "map dims qs ! i = map dims (parameters m) ! i"
      using arg_cong [OF qs(2), of "\<lambda>l. l ! i"] arg_cong [OF qs(3), of "\<lambda>l. l ! i"]
        map_eq_imp_length_eq [OF qs(2)] by (simp add: dims_def)
  qed
  with net_fits_put [OF assms(2)] qs(1) show ?thesis by simp
qed

lemma net_accepts:
  assumes "net_fits n k m" and "length obs = n"
  shows "\<exists>ls v. ac_forward phi m obs = Inr (Categorical ls, v) \<and> length ls = k"
proof -
  from assms have m: "ac_backbone m = None" "policy_shape n k False (ac_policy m)" "value_shape n (ac_value m)"
    by (simp_all add: net_fits_def)
  obtain d v where "get_distribution phi (ac_policy m) obs = Inr d" "dist_of_size k False d"
    "value_forward phi (ac_value m) obs = Inr v"
    using policy_fits(1) [OF m(2) assms(2)] value_fits [OF m(3) assms(2)] by blast
  then show ?thesis by (cases d) (simp_all add: ac_forward_def m(1) dist_of_size_def)
qed

section \<open>Rollouts the network accepts\<close>

text \<open>
  The environment and the distributions as documented: the observation space is a vector space, the
  actions are \<open>k\<close> numbers, each of which can be performed, observations have the size of the
  observation space; a sample of a categorical distribution is one of its indices.
\<close>

definition env_ok :: "nat \<Rightarrow> nat \<Rightarrow> 'e env \<Rightarrow> bool" where
  "env_ok n k v \<longleftrightarrow>
     env_obs_shape v = Some [n] \<and> env_action_space v = Space_N k \<and>
     (\<forall>e. length (snd (env_reset v e)) = n) \<and>
     (\<forall>e. \<forall>i < k. \<exists>e' obs r. env_step v e (Discrete i) = Inr (e', obs, r) \<and> length obs = n)"

definition legal :: "nat \<Rightarrow> action \<Rightarrow> bool" where
  "legal k a \<longleftrightarrow> (\<exists>i < k. a = Discrete i)"

definition draws_ok :: "nat \<Rightarrow> (dist \<Rightarrow> action) \<Rightarrow> bool" where
  "draws_ok k smp \<longleftrightarrow> (\<forall>ls. length ls = k \<longrightarrow> legal k (smp (Categorical ls)))"

definition rollout_legal :: "nat \<Rightarrow> nat \<Rightarrow> rollout \<Rightarrow> bool" where
  "rollout_legal n k b \<longleftrightarrow>
     (\<forall>obs \<in> set (ro_observations b). length obs = n) \<and> (\<forall>a \<in> set (ro_actions b). legal k a)"

lemma evaluates:
  assumes "net_fits n k m" and "length obs = n" and "legal k a"
  shows "\<exists>r. get_action_and_value phi smp m obs (Some a) d = Inr (a, r)"
proof -
  obtain ls v where "ac_forward phi m obs = Inr (Categorical ls, v)" "length ls = k"
    using net_accepts [OF assms(1,2)] by blast
  with assms(3) show ?thesis by (auto simp: get_action_and_value_def legal_def)
qed

lemma acts:
  assumes "net_fits n k m" and "length obs = n" and "draws_ok k smp"
  shows "\<exists>a r. get_action_and_value phi smp m obs None False = Inr (a, r) \<and> legal k a"
proof -
  obtain ls v where f: "ac_forward phi m obs = Inr (Categorical ls, v)" "length ls = k"
    using net_accepts [OF assms(1,2)] by blast
  with assms(3) have "legal k (smp (Categorical ls))" by (simp add: draws_ok_def)
  then show ?thesis using f by (auto simp: get_action_and_value_def legal_def)
qed

lemma collect_steps_succeeds:
  assumes "net_fits n k m" and "env_ok n k v" and "\<forall>t. draws_ok k (smp t)"
  shows "length obs = n \<Longrightarrow> rollout_legal n k b \<Longrightarrow>
    \<exists>e' b' tot' eps'. collect_steps x v smp m j e obs b tot eps = Inr (e', b', tot', eps') \<and> rollout_legal n k b'"
proof (induction j arbitrary: e obs b tot eps)
  case 0
  then show ?case by simp
next
  case (Suc j)
  obtain a val lp ent where a: "get_action_and_value (Phi x) (smp j) m obs None False = Inr (a, val, lp, ent)" "legal k a"
    using acts [OF assms(1) Suc.prems(1), of "smp j" "Phi x"] assms(3) by fastforce
  obtain i where "i < k" "a = Discrete i" using a(2) by (auto simp: legal_def)
  then obtain e1 obs1 r don tru where st: "env_step v e a = Inr (e1, obs1, r, don, tru)" "length obs1 = n"
    using assms(2) unfolding env_ok_def by (metis prod_cases3)
  obtain e2 obs2 where rs: "reset_obs v e1 = (e2, obs2)" by (cases "reset_obs v e1")
  have len: "length obs1 = n" "length obs2 = n"
    using assms(2) st(2) arg_cong [OF rs, of snd]
    unfolding env_ok_def reset_obs_def by (simp, metis snd_conv)
  have b1: "rollout_legal n k (rollout_add obs a r val lp (don \<or> tru) b)"
    using Suc.prems a(2) by (auto simp: rollout_legal_def rollout_add_def)
  show ?case
  proof (cases "don \<or> tru")
    case True
    with Suc.IH [OF len(2) b1] show ?thesis by (simp add: a(1) st rs Let_def)
  next
    case False
    with Suc.IH [OF len(1) b1] show ?thesis by (simp add: a(1) st Let_def)
  qed
qed

lemma collect_succeeds:
  assumes "net_fits n k (tr_model s)" and "env_ok n k v" and "\<forall>t. draws_ok k (smp t)"
  shows "\<exists>e' b tot eps. collect_rollout x v smp j e s = Inr (e', s\<lparr>tr_buffer := b\<rparr>, tot, eps) \<and>
    rollout_legal n k b \<and> rollout_ok b (nat j)"
proof -
  obtain e1 obs where r: "reset_obs v e = (e1, obs)" by (cases "reset_obs v e")
  have "length obs = n" using assms(2) r unfolding env_ok_def reset_obs_def by (metis snd_conv)
  moreover have "rollout_legal n k (rollout_clear (tr_buffer s))"
    by (simp add: rollout_legal_def rollout_clear_def)
  ultimately obtain e' b tot eps where c: "collect_steps x v smp (tr_model s) (nat j) e1 obs (rollout_clear (tr_buffer s)) 0 0 =
      Inr (e', b, tot, eps)" "rollout_legal n k b"
    using collect_steps_succeeds [OF assms] by blast
  from collect_steps_ok [OF c(1) rollout_ok_clear] have "rollout_ok b (nat j)" by simp
  with c show ?thesis by (intro exI [of _ e'] exI [of _ b]) (simp add: collect_rollout_def r)
qed

section \<open>Training steps\<close>

text \<open>The samples of an update: what the network evaluates.\<close>

definition batch_legal :: "nat \<Rightarrow> nat \<Rightarrow> sample list \<Rightarrow> bool" where
  "batch_legal n k batch \<longleftrightarrow> (\<forall>(obs, a, _) \<in> set batch. length obs = n \<and> legal k a)"

lemma forward_succeeds:
  assumes "net_fits n k m" and "batch_legal n k batch"
  shows "\<exists>outs. forward_batch phi batch m = Inr outs"
proof -
  let ?f = "\<lambda>(obs, a, old_log_prob, _, _).
       ebind (get_action_and_value phi best_action m obs (Some a) False) (\<lambda>(_, v, log_prob, entropy).
       Inr (exp (log_prob - old_log_prob), v, entropy))"
  have "?f x = Inr (projr (?f x))" if "x \<in> set batch" for x
  proof -
    obtain obs a lp adv ret where x: "x = (obs, a, lp, adv, ret)" by (cases x)
    then obtain r where "get_action_and_value phi best_action m obs (Some a) False = Inr (a, r)"
      using evaluates [OF assms(1)] assms(2) \<open>x \<in> set batch\<close> unfolding batch_legal_def by fastforce
    then show ?thesis by (cases r) (simp add: x)
  qed
  then show ?thesis unfolding forward_batch_def using results_map [of batch ?f "\<lambda>x. projr (?f x)"] by blast
qed

lemma schedule_indices:
  assumes "perm_ok x" and "ix \<in> set (batch_schedule x c n)" and "0 < tc_batch_size c" and "i \<in> set ix"
  shows "i < n"
proof -
  let ?b = "nat (tc_batch_size c)"
  have b: "0 < ?b" using assms(3) by simp
  obtain e where e: "ix \<in> set (minibatches ?b (permute x e n))"
    using assms(2,3) by (auto simp: batch_schedule_def)
  with assms(4) have "i \<in> set (concat (minibatches ?b (permute x e n)))" by auto
  then have "i \<in> set (permute x e n)" by (simp only: minibatches_ok(1) [OF b])
  moreover have "set (permute x e n) = {0..<n}"
    using assms(1) unfolding perm_ok_def by (metis mset_eq_setD set_upt)
  ultimately show ?thesis by simp
qed

lemma schedule_nonempty:
  assumes "0 < tc_batch_size c" and "0 < tc_n_epochs c" and "perm_ok x" and "0 < n"
  shows "batch_schedule x c n \<noteq> []"
proof -
  let ?b = "nat (tc_batch_size c)"
  have "length (permute x 0 n) = n"
    using assms(3) unfolding perm_ok_def by (metis length_upt minus_nat.diff_0 size_mset)
  then have "0 < length (minibatches ?b (permute x 0 n))"
    using minibatches_ok(2) [of ?b "permute x 0 n"] assms(1,4) by (simp add: div_greater_zero_iff)
  moreover have "0 \<in> set [0..<nat (tc_n_epochs c)]" using assms(2) by simp
  ultimately show ?thesis using assms(1) by (fastforce simp: batch_schedule_def)
qed

lemma samples_legal:
  assumes "rollout_legal n k b" and "rollout_ok b j"
  shows "length (fst (samples_of c lv b)) = j \<and> (i < j \<longrightarrow> batch_legal n k [fst (samples_of c lv b) ! i])"
proof -
  obtain adv ret where a: "compute_advantages c lv b = (adv, ret)" by (cases "compute_advantages c lv b")
  then have len: "length adv = j" "length ret = j"
    using assms(2) by (auto simp: compute_advantages_def normalise_advantages_def rollout_ok_def Let_def)
  have z: "length (ro_observations b) = j" "length (ro_actions b) = j" "length (ro_log_probs b) = j"
    using assms(2) by (simp_all add: rollout_ok_def)
  have "length obs = n" if "obs \<in> set (ro_observations b)" for obs
    using assms(1) that by (simp add: rollout_legal_def)
  moreover have "legal k act" if "act \<in> set (ro_actions b)" for act
    using assms(1) that by (simp add: rollout_legal_def)
  ultimately show ?thesis
    using len z by (simp add: samples_of_def a batch_legal_def)
qed

section \<open>Differential privacy\<close>

text \<open>
  The mechanism of a trainer: Gaussian with a positive multiplier, its own or one the scheduler
  hands out, and a clipping norm that is not negative.
\<close>

definition mech_sound :: "'o trainer \<Rightarrow> bool" where
  "mech_sound s \<longleftrightarrow>
     (case tr_mechanism s of None \<Rightarrow> True
      | Some mech \<Rightarrow> mech_kind mech = Gaussian \<and> 0 \<le> dp_clip_norm (params mech) \<and>
          (case tr_scheduler s of None \<Rightarrow> \<exists>c. dp_noise_multiplier (params mech) = Some c \<and> 0 < c
           | Some sch \<Rightarrow> scheduler_ok sch))"

lemma mech_sound_cong:
  "tr_mechanism s' = tr_mechanism s \<Longrightarrow> tr_scheduler s' = tr_scheduler s \<Longrightarrow> mech_sound s' = mech_sound s"
  by (simp only: mech_sound_def)

lemma schedule_succeeds:
  assumes "mech_sound s" and "tr_mechanism s = Some mech" and "0 \<le> tr_step s"
  shows "\<exists>sch mech1 c. schedule_noise g mech s = Inr (s\<lparr>tr_scheduler := sch\<rparr>, mech1) \<and>
    mech_kind mech1 = Gaussian \<and> 0 \<le> dp_clip_norm (params mech1) \<and>
    dp_noise_multiplier (params mech1) = Some c \<and> 0 < c \<and>
    mech_sound (s\<lparr>tr_scheduler := sch, tr_mechanism := Some mech1\<rparr>)"
proof (cases "tr_scheduler s")
  case None
  then have "s\<lparr>tr_scheduler := None\<rparr> = s" by simp
  with None assms(1,2) show ?thesis
    by (intro exI [of _ None] exI [of _ mech]) (auto simp: schedule_noise_def mech_sound_def)
next
  case (Some sch)
  have ok: "scheduler_ok sch" "mech_kind mech = Gaussian" "0 \<le> dp_clip_norm (params mech)"
    using assms(1,2) Some by (simp_all add: mech_sound_def)
  obtain sch1 c where c: "get_noise_multiplier (tr_step s) (Some (l2_norm g)) sch = Inr (sch1, c)"
    "scheduler_ok sch1" "min_noise_mult (sc_config sch) \<le> c"
    using get_noise_range [OF ok(1) assms(3)] by blast
  moreover have "0 < min_noise_mult (sc_config sch)" using ok(1) by (simp add: scheduler_ok_def config_ok_def)
  ultimately show ?thesis
    using Some ok(2,3)
    by (intro exI [of _ "Some sch1"] exI [of _ "mech\<lparr>params := (params mech)\<lparr>dp_noise_multiplier := Some c\<rparr>\<rparr>"]
        exI [of _ c]) (simp add: schedule_noise_def mech_sound_def)
qed

lemma track_succeeds:
  assumes "dp_noise_multiplier (params mech) = Some c" and "0 < c"
    and "rollout_len (tr_buffer s) \<noteq> 0" and "0 \<le> sample_rate s" and "sample_rate s \<le> 1"
  shows "\<exists>acc. track_privacy x mech s = Inr (s\<lparr>tr_mechanism := Some mech, tr_accountant := acc\<rparr>)"
proof (cases "tr_accountant s")
  case None
  then have "s\<lparr>tr_mechanism := Some mech, tr_accountant := None\<rparr> = s\<lparr>tr_mechanism := Some mech\<rparr>" by simp
  with None show ?thesis by (intro exI [of _ None]) (simp add: track_privacy_def)
next
  case (Some acc)
  obtain acc' where "rdp_step (gamma_ln x) c (sample_rate s) acc = Inr acc'"
    using rdp_step_eq [OF assms(2,4,5)] by blast
  with Some assms(1,3) show ?thesis
    by (intro exI [of _ "Some acc'"]) (simp add: track_privacy_def noise_multiplier_def sample_rate_def)
qed

lemma dp_progresses:
  assumes "mech_sound s" and "noise_ok x" and "ready n s" and "0 \<le> tr_step s"
    and "rollout_len (tr_buffer s) \<noteq> 0" and "0 \<le> sample_rate s"
    and "tr_mechanism s \<noteq> None \<longrightarrow> sample_rate s \<le> 1"
  shows "\<exists>s'. apply_dp_noise x u s = Inr s' \<and> mech_sound s' \<and> same_values (tr_model s) (tr_model s') \<and>
    tr_step s' = tr_step s \<and> tr_config s' = tr_config s \<and> tr_buffer s' = tr_buffer s \<and>
    (tr_mechanism s' = None \<longleftrightarrow> tr_mechanism s = None)"
proof (cases "tr_mechanism s")
  case None
  with assms(1) show ?thesis
    by (auto simp: apply_dp_noise_def same_values_refl split: option.split)
next
  case (Some mech)
  obtain g where g: "tr_local_gradients s = Some g" "gradient_size (tr_model s) \<le> length g"
    using assms(3) by (auto simp: ready_def)
  obtain sch mech1 c where sch: "schedule_noise g mech s = Inr (s\<lparr>tr_scheduler := sch\<rparr>, mech1)"
    "mech_kind mech1 = Gaussian" "0 \<le> dp_clip_norm (params mech1)"
    "dp_noise_multiplier (params mech1) = Some c" "0 < c"
    "mech_sound (s\<lparr>tr_scheduler := sch, tr_mechanism := Some mech1\<rparr>)"
    using schedule_succeeds [OF assms(1) Some assms(4)] by blast
  let ?noisy = "map2 (\<lambda>y n. y + to_f32 x n) (fst (clip_gradients (params mech1) g))
    (noise_at x u (c * dp_clip_norm (params mech1)) (length g))"
  obtain md where p: "privatize (noise_at x u) (to_f32 x) g mech1 = Inr (mech1, ?noisy, md)"
    using privatize_override [OF sch(2,4) _ sch(3)] sch(5) by fastforce
  have "gradient_size (tr_model s) \<le> length ?noisy" using assms(2) g(2) by (simp add: noise_ok_def)
  then obtain m where m: "set_gradient_vector (tr_model s) ?noisy = Inr m"
    using ac.gradients_set [of "tr_model s" ?noisy] by (auto simp: set_gradient_vector_def gradient_size_def)
  let ?s = "s\<lparr>tr_scheduler := sch, tr_model := m, tr_local_gradients := Some ?noisy\<rparr>"
  obtain acc where t: "track_privacy x mech1 ?s = Inr (?s\<lparr>tr_mechanism := Some mech1, tr_accountant := acc\<rparr>)"
    using track_succeeds [OF sch(4,5), of ?s x] assms(5-7) Some by (auto simp: sample_rate_def)
  have "apply_dp_noise x u s = Inr (?s\<lparr>tr_mechanism := Some mech1, tr_accountant := acc\<rparr>)"
    using g(1) Some sch(1) p m t by (simp add: apply_dp_noise_def)
  moreover have "mech_sound (?s\<lparr>tr_mechanism := Some mech1, tr_accountant := acc\<rparr>)"
    using sch(6) by (simp add: mech_sound_def)
  ultimately show ?thesis using set_gradient_values [OF m] Some by simp
qed

section \<open>Updates and training steps\<close>

text \<open>The optimiser writes into the parameters that are there.\<close>

definition in_place :: "'o torch \<Rightarrow> bool" where
  "in_place x \<longleftrightarrow> (\<forall>lr opt ps. map dims (snd (adam x lr opt ps)) = map dims ps)"

lemma dims_zero_grad: "map dims (zero_grad ps) = map dims ps"
  by (simp add: zero_grad_def dims_def)

lemma dims_backward: "length gs = length ps \<Longrightarrow> map dims (backward gs ps) = map dims ps"
proof (induction ps arbitrary: gs)
  case (Cons p ps)
  then obtain g gs' where "gs = g # gs'" "length gs' = length ps" by (cases gs) auto
  with Cons.IH [of gs'] show ?case by (simp add: backward_def dims_def)
qed (simp add: backward_def)

lemma dims_clip: "map dims (clip_grad_norm c ps) = map dims ps"
  by (simp add: clip_grad_norm_def Let_def dims_def)

lemma gradients_fit:
  assumes "torch_ok x" and "net_fits n k (tr_model s)"
  shows "net_fits n k (tr_model (compute_gradients x batch s))"
proof -
  let ?m = "put_parameters (tr_model s) (zero_grad (parameters (tr_model s)))"
  let ?gs = "grad_of x (loss_fun (Phi x) (tr_config s) batch) ?m"
  have m: "net_fits n k ?m" by (rule net_fits_put [OF assms(2) dims_zero_grad])
  have "map length ?gs = map numel (parameters ?m)" using assms(1) by (simp add: torch_ok_def)
  then have "map dims (backward ?gs (parameters ?m)) = map dims (parameters ?m)"
    by (intro dims_backward map_eq_imp_length_eq)
  with net_fits_put [OF m, of "backward ?gs (parameters ?m)"]
    net_fits_put [OF m, of "clip_grad_norm (tc_max_grad_norm (tr_config s)) (backward ?gs (parameters ?m))"]
  show ?thesis by (simp add: compute_gradients_def extract_gradients_def Let_def dims_clip)
qed

lemma optimizer_fits:
  assumes "in_place x" and "net_fits n k (tr_model s)"
  shows "net_fits n k (tr_model (optimizer_step x s))"
  using net_fits_put [OF assms(2), of "snd (adam x (tc_learning_rate (tr_config s)) (tr_optimizer s) (parameters (tr_model s)))"] assms(1)
  by (simp add: optimizer_step_def case_prod_beta in_place_def)

text \<open>A trainer for observations of size \<open>n\<close>, \<open>k\<close> actions and rollouts of \<open>j\<close> steps.\<close>

definition trainer_sound :: "nat \<Rightarrow> nat \<Rightarrow> nat \<Rightarrow> 'o trainer \<Rightarrow> bool" where
  "trainer_sound n k j s \<longleftrightarrow>
     net_fits n k (tr_model s) \<and> mech_sound s \<and> 0 \<le> tr_step s \<and>
     0 < tc_batch_size (tr_config s) \<and> 0 < tc_n_epochs (tr_config s) \<and>
     (tr_mechanism s \<noteq> None \<longrightarrow> tc_batch_size (tr_config s) \<le> int j)"

definition runs_ok :: "'o torch \<Rightarrow> bool" where
  "runs_ok x \<longleftrightarrow> torch_ok x \<and> in_place x \<and> noise_ok x \<and> perm_ok x"

lemma update_succeeds:
  assumes "runs_ok x" and "trainer_sound n k j s" and "rollout_ok (tr_buffer s) j" and "0 < j"
    and "batch_legal n k batch"
  shows "\<exists>s' t'. ppo_update x batch (s, t) = Inr (s', t') \<and> trainer_sound n k j s' \<and>
    tr_step s' = tr_step s \<and> tr_buffer s' = tr_buffer s"
proof -
  have x: "torch_ok x" "in_place x" "noise_ok x" using assms(1) by (simp_all add: runs_ok_def)
  have s: "net_fits n k (tr_model s)" "mech_sound s" "0 \<le> tr_step s" "0 < tc_batch_size (tr_config s)"
    "tr_mechanism s \<noteq> None \<longrightarrow> tc_batch_size (tr_config s) \<le> int j"
    using assms(2) by (simp_all add: trainer_sound_def)
  obtain outs where outs: "forward_batch (Phi x) batch (tr_model s) = Inr outs"
    using forward_succeeds [OF s(1) assms(5)] by blast
  define g where "g = compute_gradients x batch s"
  have g: "tr_step g = tr_step s" "tr_buffer g = tr_buffer s" "tr_config g = tr_config s"
    "tr_mechanism g = tr_mechanism s" "tr_scheduler g = tr_scheduler s"
    by (simp_all add: g_def compute_gradients_def extract_gradients_def Let_def)
  have fits: "net_fits n k (tr_model g)" unfolding g_def by (rule gradients_fit [OF x(1) s(1)])
  have ready: "ready (model_size (tr_model s)) g" unfolding g_def by (rule compute_gradients_ready [OF x(1)])
  have len: "rollout_len (tr_buffer s) = j" using assms(3) by (simp add: rollout_len_def rollout_ok_def)
  have sound: "mech_sound g" using s(2) mech_sound_cong [of g s] g by simp
  have "tr_mechanism g \<noteq> None \<longrightarrow> real_of_int (tc_batch_size (tr_config s)) \<le> real j"
    using s(5) by (auto simp: g)
  then have rate: "0 \<le> sample_rate g" "tr_mechanism g \<noteq> None \<longrightarrow> sample_rate g \<le> 1"
    using s(4) assms(4) by (simp_all add: sample_rate_def len g)
  have pos: "0 \<le> tr_step g" "rollout_len (tr_buffer g) \<noteq> 0" using s(3) assms(4) len g by simp_all
  obtain s1 where s1: "apply_dp_noise x (n_updates t) g = Inr s1" "mech_sound s1"
    "same_values (tr_model g) (tr_model s1)" "tr_step s1 = tr_step g" "tr_config s1 = tr_config g"
    "tr_buffer s1 = tr_buffer g" "tr_mechanism s1 = None \<longleftrightarrow> tr_mechanism g = None"
    using dp_progresses [OF sound x(3) ready pos rate, of "n_updates t"]
    by (elim exE conjE) (rule that; assumption)
  have "ppo_update x batch (s, t) = Inr (optimizer_step x s1, add_totals (tr_config s) batch outs t)"
    using outs s1(1) by (simp add: ppo_update_def g_def)
  moreover have "net_fits n k (tr_model (optimizer_step x s1))"
    by (rule optimizer_fits [OF x(2) net_fits_same [OF s1(3) fits]])
  moreover have "tr_scheduler (optimizer_step x s1) = tr_scheduler s1" "tr_step (optimizer_step x s1) = tr_step s1"
    "tr_config (optimizer_step x s1) = tr_config s1" "tr_buffer (optimizer_step x s1) = tr_buffer s1"
    "tr_mechanism (optimizer_step x s1) = tr_mechanism s1"
    by (simp_all add: optimizer_step_def case_prod_beta)
  ultimately show ?thesis
    using assms(2) s1(2,4-7) g mech_sound_cong [of "optimizer_step x s1" s1]
    by (auto simp: trainer_sound_def)
qed

lemma run_updates_succeed:
  assumes "runs_ok x" and "0 < j"
  shows "trainer_sound n k j s \<Longrightarrow> rollout_ok (tr_buffer s) j \<Longrightarrow> \<forall>b \<in> set bs. batch_legal n k b \<Longrightarrow>
    \<exists>s' t'. run_updates x bs (s, t) = Inr (s', t') \<and> trainer_sound n k j s' \<and>
      tr_step s' = tr_step s \<and> tr_buffer s' = tr_buffer s"
proof (induction bs arbitrary: s t)
  case (Cons b bs)
  then obtain s1 t1 where u: "ppo_update x b (s, t) = Inr (s1, t1)" "trainer_sound n k j s1"
    "tr_step s1 = tr_step s" "tr_buffer s1 = tr_buffer s"
    using update_succeeds [OF assms(1) Cons.prems(1,2) assms(2), of b t] by auto
  with Cons.IH [OF u(2), of t1] Cons.prems(2,3) show ?case by simp
qed simp

lemma train_step_succeeds:
  assumes "runs_ok x" and "trainer_sound n k j s" and "rollout_ok (tr_buffer s) j"
    and "rollout_legal n k (tr_buffer s)" and "0 < j" and "draws_ok k smp"
  shows "\<exists>s' st. train_step x smp s = Inr (s', st) \<and> trainer_sound n k j s' \<and> tr_step s' = tr_step s + 1"
proof -
  let ?c = "tr_config s" and ?b = "tr_buffer s"
  have x: "torch_ok x" "perm_ok x" using assms(1) by (simp_all add: runs_ok_def)
  have s: "net_fits n k (tr_model s)" "0 < tc_batch_size ?c" "0 < tc_n_epochs ?c"
    using assms(2) by (simp_all add: trainer_sound_def)
  have ne: "ro_observations ?b \<noteq> []" using assms(3,5) by (auto simp: rollout_ok_def)
  then have "length (last (ro_observations ?b)) = n" using assms(4) by (simp add: rollout_legal_def)
  then obtain a lv lp ent where a: "get_action_and_value (Phi x) smp (tr_model s) (last (ro_observations ?b)) None False =
      Inr (a, lv, lp, ent)"
    using acts [OF s(1) _ assms(6)] by fastforce
  obtain samples ret where r: "samples_of ?c lv ?b = (samples, ret)" by (cases "samples_of ?c lv ?b")
  note legal = samples_legal [OF assms(4,3), of ?c lv, unfolded r fst_conv]
  define bs where "bs = map (map (\<lambda>i. samples ! i)) (batch_schedule x ?c (length samples))"
  have "batch_legal n k b" if b: "b \<in> set bs" for b
  proof -
    obtain ix where ix: "ix \<in> set (batch_schedule x ?c (length samples))" "b = map (\<lambda>i. samples ! i) ix"
      using b by (auto simp: bs_def)
    have "batch_legal n k [samples ! i]" if "i \<in> set ix" for i
      using legal schedule_indices [OF x(2) ix(1) s(2) that] by auto
    then show ?thesis by (fastforce simp: batch_legal_def ix(2))
  qed
  then obtain s1 t where u: "run_updates x bs (s, no_totals) = Inr (s1, t)" "trainer_sound n k j s1"
    "tr_step s1 = tr_step s" "tr_buffer s1 = ?b"
    using run_updates_succeed [OF assms(1,5,2,3), of bs no_totals] by blast
  have "n_updates t = length bs" using run_updates_ready [OF x(1) u(1)] by (simp add: no_totals_def)
  moreover have "bs \<noteq> []" using schedule_nonempty [OF s(2,3) x(2)] legal assms(5) by (simp add: bs_def)
  ultimately obtain st where st: "stats_of (s1\<lparr>tr_step := tr_step s1 + 1\<rparr>) ret t = Inr st"
    by (auto simp: stats_of_def Let_def)
  have "train_step x smp s = Inr (s1\<lparr>tr_step := tr_step s1 + 1\<rparr>, st)"
    using ne a r u(1) s(2) st by (simp add: train_step_def bs_def Let_def)
  moreover have "trainer_sound n k j (s1\<lparr>tr_step := tr_step s1 + 1\<rparr>)"
    using u(2) mech_sound_cong [of "s1\<lparr>tr_step := tr_step s1 + 1\<rparr>" s1] by (simp add: trainer_sound_def)
  ultimately show ?thesis using u(3) by simp
qed

section \<open>Runs\<close>

lemma net_size:
  assumes "net_fits n k m"
  shows "0 < model_size m"
proof -
  obtain h where "linear_ok h 1 (vn_final (ac_value m))"
    using assms by (auto simp: net_fits_def value_shape_def layers_ok_snoc)
  then have "numel (ln_bias (vn_final (ac_value m))) = 1" by (simp add: linear_ok_def numel_def)
  then show ?thesis
    by (simp add: model_size_def parameters_def value_params_def layer_params_append data_size_def)
qed

definition agent_sound :: "nat \<Rightarrow> nat \<Rightarrow> ('o, 'e) agent \<Rightarrow> bool" where
  "agent_sound n k a \<longleftrightarrow>
     0 < tc_n_steps (cf_training (ag_config a)) \<and>
     trainer_sound n k (nat (tc_n_steps (cf_training (ag_config a)))) (ag_trainer a)"

text \<open>Collecting a rollout and training on it: what every loop over a trainer does.\<close>

lemma iteration_succeeds:
  assumes "runs_ok x" and "env_ok n k v" and "\<forall>t. draws_ok k (smp t)" and "draws_ok k smp2"
    and "trainer_sound n k (nat j) s" and "0 < j"
  obtains e' b tot eps r st where "collect_rollout x v smp j e s = Inr (e', s\<lparr>tr_buffer := b\<rparr>, tot, eps)"
    "train_step x smp2 (s\<lparr>tr_buffer := b\<rparr>) = Inr (r, st)" "trainer_sound n k (nat j) r"
    "tr_step r = tr_step s + 1" "0 < model_size (tr_model s)"
proof -
  have fits: "net_fits n k (tr_model s)" using assms(5) by (simp add: trainer_sound_def)
  obtain e' b tot eps where c: "collect_rollout x v smp j e s = Inr (e', s\<lparr>tr_buffer := b\<rparr>, tot, eps)"
    "rollout_legal n k b" "rollout_ok b (nat j)"
    using collect_succeeds [OF fits assms(2,3)] by blast
  let ?s = "s\<lparr>tr_buffer := b\<rparr>"
  have "trainer_sound n k (nat j) ?s"
    using assms(5) mech_sound_cong [of ?s s] by (simp add: trainer_sound_def)
  then obtain r st where "train_step x smp2 ?s = Inr (r, st)" "trainer_sound n k (nat j) r" "tr_step r = tr_step ?s + 1"
    using train_step_succeeds [OF assms(1) _ _ _ _ assms(4), of n "nat j" ?s] c(2,3) assms(6) by auto
  with c(1) net_size [OF fits] show thesis by (intro that) simp_all
qed

lemma turn_succeeds:
  assumes "runs_ok x" and "env_ok n k v" and "\<forall>t. draws_ok k (smp t)" and "draws_ok k smp2" and "agent_sound n k a"
  shows "\<exists>a'. agent_turn x v smp smp2 f32 a = Inr a' \<and> agent_sound n k a' \<and> ag_config a' = ag_config a \<and>
    ag_running a' = ag_running a \<and> tr_step (ag_trainer a') = tr_step (ag_trainer a) + 1 \<and>
    ag_total_steps a' = ag_total_steps a + tc_n_steps (cf_training (ag_config a))"
proof -
  let ?n = "tc_n_steps (cf_training (ag_config a))"
  let ?tr = "ag_trainer a"
  have s: "0 < ?n" "trainer_sound n k (nat ?n) ?tr" using assms(5) by (simp_all add: agent_sound_def)
  obtain e b tot eps r st where c: "collect_rollout x v smp ?n (ag_env a) ?tr = Inr (e, ?tr\<lparr>tr_buffer := b\<rparr>, tot, eps)"
    and t: "train_step x smp2 (?tr\<lparr>tr_buffer := b\<rparr>) = Inr (r, st)" "trainer_sound n k (nat ?n) r"
      "tr_step r = tr_step ?tr + 1" and pos: "0 < model_size (tr_model ?tr)"
    by (rule iteration_succeeds [OF assms(1-4) s(2,1)])
  have "torch_ok x" using assms(1) by (simp add: runs_ok_def)
  moreover have "0 < model_size (tr_model (?tr\<lparr>tr_buffer := b\<rparr>))" using pos by simp
  ultimately obtain r1 gp where x: "exchange_gradients f32 r (ag_gossip a) = Inr (r1, gp)" "alike r r1"
    by (rule agent_exchange.after_training [OF _ t(1)])
  note same = alike_fields [OF x(2)]
  have "trainer_sound n k (nat ?n) r1"
    using t(2) same net_fits_same [OF same(10)] mech_sound_cong [OF same(5,7)] by (simp add: trainer_sound_def)
  then show ?thesis
    using c t(1,3) x(1) s(1) same(4) by (simp add: agent_turn_def agent_sound_def Let_def)
qed

text \<open>The iterations of a run: those before the first signal.\<close>

fun iterations_of :: "event list \<Rightarrow> nat" where
  "iterations_of [] = 0"
| "iterations_of (Turn k # es) = Suc (iterations_of es)"
| "iterations_of (Gossip f # es) = iterations_of es"
| "iterations_of (Shutdown # es) = 0"

lemma stopped_run:
  "\<not> ag_running a \<Longrightarrow> \<exists>a'. run_events x v smp f32 es a = Inr a' \<and> ag_trainer a' = ag_trainer a \<and>
     ag_total_steps a' = ag_total_steps a \<and> ag_config a' = ag_config a"
proof (induction es arbitrary: a)
  case (Cons ev es)
  show ?case
  proof (cases ev)
    case (Turn k)
    with Cons.prems show ?thesis by simp
  next
    case (Gossip f)
    with Cons.IH [of "a\<lparr>ag_gossip := f (ag_gossip a)\<rparr>"] Cons.prems show ?thesis by simp
  next
    case Shutdown
    with Cons.IH [of "stop_agent a"] show ?thesis by (simp add: stop_agent_def Let_def)
  qed
qed simp

lemma run_succeeds:
  assumes "runs_ok x" and "env_ok n k v" and "\<forall>i t. draws_ok k (smp i t)"
  shows "agent_sound n k a \<Longrightarrow> ag_running a \<Longrightarrow>
    \<exists>a'. run_events x v smp f32 es a = Inr a' \<and> agent_sound n k a' \<and>
      tr_step (ag_trainer a') = tr_step (ag_trainer a) + int (iterations_of es) \<and>
      ag_total_steps a' = ag_total_steps a + tc_n_steps (cf_training (ag_config a)) * int (iterations_of es)"
proof (induction es arbitrary: a)
  case (Cons ev es)
  show ?case
  proof (cases ev)
    case (Turn i)
    obtain a1 where a1: "agent_turn x v (smp i) (smp i (nat (tc_n_steps (cf_training (ag_config a))))) f32 a = Inr a1"
      "agent_sound n k a1" "ag_config a1 = ag_config a" "ag_running a1 = ag_running a"
      "tr_step (ag_trainer a1) = tr_step (ag_trainer a) + 1"
      "ag_total_steps a1 = ag_total_steps a + tc_n_steps (cf_training (ag_config a))"
      using turn_succeeds [OF assms(1,2) _ _ Cons.prems(1), of "smp i"] assms(3) by blast
    with Cons.IH [OF a1(2)] Cons.prems(2) show ?thesis by (simp add: Turn algebra_simps)
  next
    case (Gossip f)
    let ?a = "a\<lparr>ag_gossip := f (ag_gossip a)\<rparr>"
    have "agent_sound n k ?a" using Cons.prems(1) by (simp add: agent_sound_def)
    with Cons.IH [of ?a] Cons.prems(2) show ?thesis by (simp add: Gossip)
  next
    case Shutdown
    obtain a' where "run_events x v smp f32 es (stop_agent a) = Inr a'" "ag_trainer a' = ag_trainer (stop_agent a)"
      "ag_total_steps a' = ag_total_steps (stop_agent a)" "ag_config a' = ag_config (stop_agent a)"
      using stopped_run [of "stop_agent a" x v smp f32 es] by (auto simp: stop_agent_def Let_def)
    with Cons.prems(1) show ?thesis by (simp add: Shutdown agent_sound_def stop_agent_def Let_def)
  qed
qed simp

section \<open>Construction\<close>

text \<open>
  A configuration an agent runs with: the log level exists, the learning rate is not negative, there
  are steps, batches and epochs; with privacy a batch is not larger than a rollout, the clipping
  norm is not negative and a fixed multiplier is positive, with a square that is a double.
\<close>

definition config_runs :: "config \<Rightarrow> bool" where
  "config_runs c \<longleftrightarrow>
     (let t = cf_training c; p = cf_privacy c in
      \<not> isl (log_level (lc_level (cf_logging c))) \<and> 0 \<le> tc_learning_rate t \<and>
      0 < tc_n_steps t \<and> 0 < tc_batch_size t \<and> 0 < tc_n_epochs t \<and>
      (pc_enabled p \<longrightarrow> tc_batch_size t \<le> tc_n_steps t \<and> 0 \<le> pc_clip_norm p \<and>
         (\<not> pc_adaptive_noise p \<longrightarrow> 1 / 10 ^ 100 \<le> pc_noise_multiplier p \<and> pc_noise_multiplier p \<le> 10 ^ 100)))"

text \<open>The documented behaviour of \<open>optim.Adam\<close>: it takes parameters and a learning rate that is not negative.\<close>

definition adam_ok :: "(real \<Rightarrow> param list \<Rightarrow> 'o result) \<Rightarrow> bool" where
  "adam_ok new_adam \<longleftrightarrow> (\<forall>lr ps. 0 \<le> lr \<and> ps \<noteq> [] \<longrightarrow> \<not> isl (new_adam lr ps))"

lemma new_model_fits:
  assumes "orth_ok orth" and "fresh_ok fresh"
    and "new_actor_critic fresh orth n k [256, 256] False False act = Inr m"
  shows "net_fits n k m"
proof -
  obtain h sp sv where p: "policy_ok h k False sp (ac_policy m)" and v: "value_ok h sv (ac_value m)"
    and b: "case ac_backbone m of Some ls \<Rightarrow> layers_ok n ls h | None \<Rightarrow> h = n"
    by (rule new_actor_critic_parts [OF assms])
  have "ac_backbone m = None" using assms(3) by (auto simp: new_actor_critic_def)
  with p v b show ?thesis by (simp add: net_fits_def policy_ok_def value_ok_def)
qed

lemma new_agent_sound:
  assumes "env_ok n k v" and "orth_ok orth" and "fresh_ok fresh" and "adam_ok new_adam" and "config_runs c"
  shows "\<exists>a. new_agent fresh orth new_adam now e v c = Inr a \<and> agent_sound n k a \<and>
    ag_config a = c \<and> tr_step (ag_trainer a) = 0 \<and> ag_total_steps a = 0"
proof -
  let ?p = "cf_privacy c"
  obtain m where m: "new_actor_critic fresh orth n k [256, 256] False False (lit ''tanh'') = Inr m"
    by (simp add: new_actor_critic_def)
  note fits = new_model_fits [OF assms(2,3) m]
  have "parameters m \<noteq> []" using net_size [OF fits] by (auto simp: model_size_def data_size_def)
  moreover have "0 \<le> tc_learning_rate (cf_training c)" using assms(5) by (simp add: config_runs_def Let_def)
  ultimately obtain opt where opt: "new_adam (tc_learning_rate (cf_training c)) (parameters m) = Inr opt"
    using assms(4) by (metis adam_ok_def sum.collapse(2))
  have "\<not> isl (log_level (lc_level (cf_logging c)))" using assms(5) by (simp add: config_runs_def Let_def)
  then obtain lvl where lvl: "log_level (lc_level (cf_logging c)) = Inr lvl" by (metis sum.collapse(2))
  have spaces: "env_obs_shape v = Some [n]" "env_action_space v = Space_N k"
    using assms(1) by (simp_all add: env_ok_def)
  note new = new_agent_def new_trainer_def m opt lvl spaces first_dim_def action_dim_of_def agent_sound_def
    trainer_sound_def mech_sound_def Let_def
  have c: "0 < tc_n_steps (cf_training c)" "0 < tc_batch_size (cf_training c)" "0 < tc_n_epochs (cf_training c)"
    using assms(5) by (simp_all add: config_runs_def Let_def)
  have priv: "tc_batch_size (cf_training c) \<le> tc_n_steps (cf_training c)" "0 \<le> pc_clip_norm ?p"
    "\<not> pc_adaptive_noise ?p \<Longrightarrow> 0 < pc_noise_multiplier ?p" if "pc_enabled ?p"
    using assms(5) that by (auto simp: config_runs_def Let_def intro: less_le_trans [of 0 "1 / 10 ^ 100"])
  let ?nc = "default_noise_config\<lparr>total_epsilon := pc_epsilon ?p, nc_delta := pc_delta ?p\<rparr>"
  have "config_ok ?nc" by (simp add: config_ok_def default_noise_config_def)
  then obtain sch where sch: "new_scheduler ?nc = Inr sch" "scheduler_ok sch" using new_scheduler_ok by blast
  show ?thesis
  proof (cases "pc_enabled ?p")
    case False
    then show ?thesis
      using c fits
      by (simp add: new)
  next
    case True
    then show ?thesis
      using c fits priv sch
      by (cases "pc_adaptive_noise ?p")
        (simp_all add: new setup_dp_def new_mechanism_def)
  qed
qed

section \<open>A concrete library\<close>

text \<open>The gradients of \<open>demo_torch\<close> are all one, so a step of descent subtracts the learning rate.\<close>

definition steady_torch :: "nat torch" where
  "steady_torch = demo_torch\<lparr>adam := (\<lambda>lr k ps. (k + 1, map (\<lambda>p. p\<lparr>pm_data := map (\<lambda>d. d - lr) (pm_data p)\<rparr>) ps))\<rparr>"

lemma steady_torch_ok: "runs_ok steady_torch"
  using demo_torch_ok demo_noise demo_torch_perm
  by (simp add: runs_ok_def torch_ok_def in_place_def noise_ok_def perm_ok_def steady_torch_def dims_def o_def)

lemma demo_env_ok: "env_ok 1 2 demo_env" "draws_ok 2 (\<lambda>d. Discrete 0)"
  by (auto simp: env_ok_def demo_env_def draws_ok_def legal_def less_2_cases_iff)

definition demo_adam :: "real \<Rightarrow> param list \<Rightarrow> nat result" where
  "demo_adam lr ps = (if lr < 0 \<or> ps = [] then Inl ValueError else Inr 0)"

lemma demo_adam_ok: "adam_ok demo_adam"
  by (simp add: adam_ok_def demo_adam_def)

lemma default_log_level: "log_level (lit ''INFO'') = Inr 20"
  by (simp add: log_level_def upper_def lit_def)

lemma default_config_runs: "config_runs default_config"
  by (simp add: config_runs_def default_config_def default_training_config_def default_privacy_config_def
      default_logging_config_def default_log_level)

section \<open>Properties\<close>

text \<open>
  C9. No exception in an environment with numbered actions: given a configuration as in \<open>config_runs\<close>
  (the default one is), an environment with vectors as observations that accepts each of its numbered
  actions (\<open>env_ok\<close>), and libraries as documented, the agent is created, and a run, whatever gossip
  does in between and with privacy or without, performs every iteration until it is stopped, one
  training step and \<open>n_steps\<close> steps of the environment each. In exact arithmetic, and as long as the
  checkpoint files can be written.
\<close>

theorem agent_never_raises:
  assumes "runs_ok x" and "env_ok n k v" and "\<forall>i t. draws_ok k (smp i t)"
    and "orth_ok orth" and "fresh_ok fresh" and "adam_ok new_adam" and "config_runs c"
  shows "\<exists>a a'. new_agent fresh orth new_adam now e v c = Inr a \<and>
    agent_run x v smp f32 es a = Inr a' \<and>
    tr_step (ag_trainer a') = int (iterations_of es) \<and>
    ag_total_steps a' = tc_n_steps (cf_training c) * int (iterations_of es)"
proof -
  obtain a where a: "new_agent fresh orth new_adam now e v c = Inr a" "agent_sound n k a"
    "ag_config a = c" "tr_step (ag_trainer a) = 0" "ag_total_steps a = 0"
    using new_agent_sound [OF assms(2,4-7), of now e] by (elim exE conjE) (rule that; assumption)
  have started: "agent_sound n k (start_agent a)" "ag_running (start_agent a)"
    using a(2) by (simp_all add: agent_sound_def start_agent_def)
  obtain b where "run_events x v smp f32 es (start_agent a) = Inr b"
    "tr_step (ag_trainer b) = tr_step (ag_trainer (start_agent a)) + int (iterations_of es)"
    "ag_total_steps b = ag_total_steps (start_agent a) +
       tc_n_steps (cf_training (ag_config (start_agent a))) * int (iterations_of es)"
    using run_succeeds [OF assms(1-3) started, of f32 es] by (elim exE conjE) (rule that; assumption)
  then show ?thesis
    using a by (intro exI [of _ a] exI [of _ "stop_agent b"])
      (simp add: agent_run_def start_agent_def stop_agent_def Let_def)
qed

theorem agent_never_raises_witness:
  "\<exists>a a'. new_agent demo_fresh demo_orth demo_adam 0 0 demo_env default_config = Inr a \<and>
     agent_run steady_torch demo_env (\<lambda>i t d. Discrete 0) (\<lambda>x. x)
       [Turn 0, Gossip (gossip_turn (\<lambda>x. x) (\<lambda>i. []) 1), Turn 1, Shutdown, Turn 2] a = Inr a' \<and>
     tr_step (ag_trainer a') = 2 \<and> ag_total_steps a' = 4096"
  using agent_never_raises [OF steady_torch_ok demo_env_ok(1) _ demo_init_ok demo_adam_ok default_config_runs,
      of "\<lambda>i t d. Discrete 0" 0 0 "\<lambda>x. x"
      "[Turn 0, Gossip (gossip_turn (\<lambda>x. x) (\<lambda>i. []) 1), Turn 1, Shutdown, Turn 2]"] demo_env_ok(2)
  by (simp add: default_config_def default_training_config_def)

text \<open>
  The categorical policy and a continuous action space: the agent sizes its network with the shape of
  the space and is created, but the actions it samples are numbers. In an environment that rejects
  them the first iteration raises.
\<close>

definition rejects_numbers :: "'e env \<Rightarrow> bool" where
  "rejects_numbers v \<longleftrightarrow> (\<forall>e i. isl (env_step v e (Discrete i)))"

lemma continuous_agent_raises:
  assumes "env_obs_shape v = Some [n]" and "env_action_space v = Space_Shape (Some (k # ks))"
    and "\<forall>e. length (snd (env_reset v e)) = n" and "rejects_numbers v" and "\<forall>i t. draws_ok k (smp i t)"
    and "orth_ok orth" and "fresh_ok fresh" and "adam_ok new_adam" and "config_runs c"
  shows "\<exists>a err. new_agent fresh orth new_adam now e v c = Inr a \<and> agent_run x v smp f32 (Turn i # es) a = Inl err"
proof -
  define w where "w = v\<lparr>env_action_space := Space_N k, env_step := (\<lambda>e a. Inr (e, replicate n 0, 0, True, True))\<rparr>"
  have w: "env_ok n k w" using assms(1,3) by (auto simp: env_ok_def w_def)
  obtain a where a: "new_agent fresh orth new_adam now e w c = Inr a" "agent_sound n k a" "ag_config a = c"
    using new_agent_sound [OF w assms(6-9), of now e] by (elim exE conjE) (rule that; assumption)
  have new: "new_agent fresh orth new_adam now e v c = Inr a"
    using a(1) assms(1,2) by (simp add: new_agent_def w_def action_dim_of_def first_dim_def)
  let ?tr = "ag_trainer a"
  have pos: "0 < tc_n_steps (cf_training c)" and fits: "net_fits n k (tr_model ?tr)"
    using a(2,3) by (simp_all add: agent_sound_def trainer_sound_def)
  then obtain j where j: "nat (tc_n_steps (cf_training c)) = Suc j" by (cases "nat (tc_n_steps (cf_training c))") auto
  obtain e1 obs where r: "reset_obs v (ag_env a) = (e1, obs)" by (cases "reset_obs v (ag_env a)")
  then have "length obs = n" using assms(3) unfolding reset_obs_def by (metis snd_conv)
  then obtain act out where act: "get_action_and_value (Phi x) (smp i j) (tr_model ?tr) obs None False = Inr (act, out)"
    "legal k act"
    using acts [OF fits] assms(5) by blast
  then obtain err where "env_step v e1 act = Inl err"
    using assms(4) by (auto simp: rejects_numbers_def legal_def isl_def)
  with act(1) j r a(3) have "agent_turn x v (smp i) (smp i (nat (tc_n_steps (cf_training c)))) f32 (start_agent a) = Inl err"
    by (cases out) (simp add: agent_turn_def collect_rollout_def start_agent_def)
  with new a(3) show ?thesis by (simp add: agent_run_def start_agent_def)
qed

text \<open>The inverted pendulum: three numbers observed, an action of one component.\<close>

definition pendulum_env :: "nat env" where
  "pendulum_env =
     \<lparr>env_obs_shape = Some [3], env_action_space = Space_Shape (Some [1]), env_reset = (\<lambda>e. (e, [1, 0, 0])),
      env_step = (\<lambda>e a. case a of Discrete i \<Rightarrow> Inl IndexError | _ \<Rightarrow> Inr (e, [1, 0, 0], - 1, False, False))\<rparr>"

lemma continuous_agent_raises_witness:
  "\<exists>a err. new_agent demo_fresh demo_orth demo_adam 0 0 pendulum_env default_config = Inr a \<and>
     agent_run steady_torch pendulum_env (\<lambda>i t d. Discrete 0) (\<lambda>x. x) [Turn 0] a = Inl err"
  by (rule continuous_agent_raises [OF _ _ _ _ _ demo_init_ok demo_adam_ok default_config_runs])
    (auto simp: pendulum_env_def rejects_numbers_def draws_ok_def legal_def)

end
