(* ===== verification/Simulation.thy ===== *)
theory Simulation
  imports Agent
begin

text \<open>
  The scripts that run several agents in one process: \<open>scripts/launch_multi_agent.py\<close> and
  \<open>scripts/benchmark_efficiency.py\<close>, with the statistics they print, and the loading of a
  checkpoint in \<open>scripts/export_model.py\<close>. The clock, the user who stops the script and the
  turns of the gossip task between the iterations of an agent are a list of events per agent;
  the script reads the clock where an event carries its value. Formatting, files, argument
  parsing and the exporters of PyTorch are left out.
\<close>

section \<open>Agents\<close>

definition agent_name :: "int \<Rightarrow> pystr" where
  "agent_name i = lit ''agent-'' @ int_str i"

text \<open>\<open>base\<close> is what \<open>load_config\<close> returns for \<open>configs/agent.yaml\<close>.\<close>

definition create_agent_config :: "config result \<Rightarrow> int \<Rightarrow> int \<Rightarrow> config result" where
  "create_agent_config base base_port agent_id =
     ebind base (\<lambda>c.
     Inr (c\<lparr>cf_agent := (cf_agent c)\<lparr>agc_id := agent_name agent_id\<rparr>,
            cf_network := (cf_network c)\<lparr>nc_rpc_port := base_port + agent_id\<rparr>,
            cf_privacy := (cf_privacy c)\<lparr>pc_epsilon := 10\<rparr>\<rparr>))"

text \<open>The agents, created one after the other; \<open>new\<close> is \<open>new_agent\<close> with its arguments for agent \<open>i\<close>.\<close>

definition create_agents ::
  "config result \<Rightarrow> int \<Rightarrow> (nat \<Rightarrow> config \<Rightarrow> ('o, 'e) agent result) \<Rightarrow> nat \<Rightarrow> ('o, 'e) agent list result" where
  "create_agents base base_port new num_agents =
     results (map (\<lambda>i. ebind (create_agent_config base base_port (int i)) (new i)) [0..<num_agents])"

section \<open>The launcher\<close>

text \<open>
  \<open>Iteration k on now\<close>: the loop tests its condition with \<open>self.running\<close> being \<open>on\<close> at time \<open>now\<close>
  and, if it holds, runs the body with the samples of \<open>k\<close>. \<open>Gossip_Task\<close> is a turn of the gossip
  loop with its draws and its time.
\<close>

datatype sim_event = Iteration nat bool real | Gossip_Task "nat \<Rightarrow> nat list" real

record ('o, 'e) simulated =
  sm_agent :: "('o, 'e) agent"
  sm_steps :: int
  sm_episodes :: int
  sm_reward :: real

definition sim_iteration ::
  "'o torch \<Rightarrow> 'e env \<Rightarrow> (nat \<Rightarrow> dist \<Rightarrow> action) \<Rightarrow> (dist \<Rightarrow> action) \<Rightarrow> (real \<Rightarrow> real) \<Rightarrow>
     ('o, 'e) simulated \<Rightarrow> ('o, 'e) simulated result"
where
  "sim_iteration x v smp smp_last f32 r =
     (let a = sm_agent r in
      ebind (collect_rollout x v smp (tc_n_steps (cf_training (ag_config a))) (ag_env a) (ag_trainer a))
        (\<lambda>(e, tr, reward, episodes).
      ebind (train_step x smp_last tr) (\<lambda>(tr1, stats).
      ebind (exchange_gradients f32 tr1 (ag_gossip a)) (\<lambda>(tr2, gp).
      Inr (r\<lparr>sm_agent := a\<lparr>ag_env := e, ag_trainer := tr2, ag_gossip := gp\<rparr>,
             sm_steps := sm_steps r + 1, sm_episodes := sm_episodes r + episodes,
             sm_reward := sm_reward r + reward\<rparr>)))))"

definition gossip_task :: "(real \<Rightarrow> real) \<Rightarrow> (nat \<Rightarrow> nat list) \<Rightarrow> real \<Rightarrow> ('o, 'e) agent \<Rightarrow> ('o, 'e) agent" where
  "gossip_task f32 ds now a = a\<lparr>ag_gossip := gossip_turn f32 ds now (ag_gossip a)\<rparr>"

fun sim_loop ::
  "'o torch \<Rightarrow> 'e env \<Rightarrow> (nat \<Rightarrow> nat \<Rightarrow> dist \<Rightarrow> action) \<Rightarrow> (real \<Rightarrow> real) \<Rightarrow> real \<Rightarrow> real \<Rightarrow> sim_event list \<Rightarrow>
     ('o, 'e) simulated \<Rightarrow> ('o, 'e) simulated result"
where
  "sim_loop x v smp f32 start duration [] r = Inr r"
| "sim_loop x v smp f32 start duration (Iteration k on now # es) r =
     (if on \<and> now - start < duration
      then ebind (sim_iteration x v (smp k) (smp k (nat (tc_n_steps (cf_training (ag_config (sm_agent r)))))) f32 r)
             (sim_loop x v smp f32 start duration es)
      else Inr r)"
| "sim_loop x v smp f32 start duration (Gossip_Task ds now # es) r =
     sim_loop x v smp f32 start duration es (r\<lparr>sm_agent := gossip_task f32 ds now (sm_agent r)\<rparr>)"

text \<open>The dictionary the launcher returns for an agent, or the one for an exception.\<close>

record sim_report =
  rp_agent_id :: pystr
  rp_steps :: int
  rp_episodes :: int
  rp_avg_reward :: real
  rp_gossip_rounds :: int
  rp_peers_contacted :: int

datatype sim_result = Completed sim_report | Failed pystr py_error

definition lookup_stat :: "pystr \<Rightarrow> (pystr \<times> int) list \<Rightarrow> int result" where
  "lookup_stat k stats = (case map_of stats k of Some n \<Rightarrow> Inr n | None \<Rightarrow> Inl KeyError)"

definition sim_report_of :: "('o, 'e) simulated \<Rightarrow> sim_report result" where
  "sim_report_of r =
     (let stats = get_stats (ag_gossip (sm_agent r)) in
      ebind (lookup_stat (lit ''rounds_completed'') stats) (\<lambda>rounds.
      Inr \<lparr>rp_agent_id = agc_id (cf_agent (ag_config (sm_agent r))), rp_steps = sm_steps r,
           rp_episodes = sm_episodes r,
           rp_avg_reward = sm_reward r / real_of_int (max (sm_episodes r) 1),
           rp_gossip_rounds = rounds,
           rp_peers_contacted = (case map_of stats (lit ''peers_contacted'') of Some n \<Rightarrow> n | None \<Rightarrow> 0)\<rparr>))"

text \<open>\<open>membership.start()\<close> and \<open>gossip.start()\<close>; the probe task finds nobody to probe.\<close>

definition simulated_from :: "('o, 'e) agent \<Rightarrow> ('o, 'e) simulated" where
  "simulated_from a =
     \<lparr>sm_agent = a\<lparr>ag_gossip := start_protocol (ag_gossip a)\<rparr>, sm_steps = 0, sm_episodes = 0, sm_reward = 0\<rparr>"

definition run_agent ::
  "'o torch \<Rightarrow> 'e env \<Rightarrow> (nat \<Rightarrow> nat \<Rightarrow> dist \<Rightarrow> action) \<Rightarrow> (real \<Rightarrow> real) \<Rightarrow> real \<Rightarrow> real \<Rightarrow> sim_event list \<Rightarrow>
     ('o, 'e) agent \<Rightarrow> sim_result"
where
  "run_agent x v smp f32 start duration es a =
     (case ebind (sim_loop x v smp f32 start duration es (simulated_from a)) sim_report_of of
        Inl e \<Rightarrow> Failed (agc_id (cf_agent (ag_config a))) e
      | Inr rp \<Rightarrow> Completed rp)"

text \<open>The summary of \<open>print_results\<close>: \<open>None\<close> when no agent was successful.\<close>

record sim_summary =
  su_completed :: int
  su_failed :: int
  su_steps :: int
  su_episodes :: int
  su_gossip :: int
  su_avg_reward :: real
  su_top :: "sim_report list"

definition completed_reports :: "sim_result list \<Rightarrow> sim_report list" where
  "completed_reports rs = concat (map (\<lambda>r. case r of Completed rp \<Rightarrow> [rp] | Failed i e \<Rightarrow> []) rs)"

text \<open>\<open>sorted(..., reverse=True)\<close> is stable too: equal keys stay in their order.\<close>

definition sim_summary_of :: "sim_result list \<Rightarrow> sim_summary option" where
  "sim_summary_of rs =
     (let ok = completed_reports rs in
      if ok = [] then None
      else Some \<lparr>su_completed = int (length ok), su_failed = int (length rs - length ok),
                 su_steps = sum_list (map rp_steps ok), su_episodes = sum_list (map rp_episodes ok),
                 su_gossip = sum_list (map rp_gossip_rounds ok),
                 su_avg_reward = sum_list (map rp_avg_reward ok) / real (length ok),
                 su_top = take 10 (sort_key (\<lambda>r. - rp_steps r) ok)\<rparr>)"

text \<open>The simulation: the agents share nothing, so each runs with its own events \<open>ess i\<close>.\<close>

definition run_simulation ::
  "config result \<Rightarrow> int \<Rightarrow> (nat \<Rightarrow> config \<Rightarrow> ('o, 'e) agent result) \<Rightarrow> nat \<Rightarrow>
     (nat \<Rightarrow> 'o torch) \<Rightarrow> (nat \<Rightarrow> 'e env) \<Rightarrow> (nat \<Rightarrow> nat \<Rightarrow> nat \<Rightarrow> dist \<Rightarrow> action) \<Rightarrow> (real \<Rightarrow> real) \<Rightarrow>
     (nat \<Rightarrow> real) \<Rightarrow> real \<Rightarrow> (nat \<Rightarrow> sim_event list) \<Rightarrow> sim_result list result"
where
  "run_simulation base base_port new num_agents x v smp f32 start duration ess =
     ebind (create_agents base base_port new num_agents) (\<lambda>agents.
     Inr (map (\<lambda>(i, a). run_agent (x i) (v i) (smp i) f32 (start i) duration (ess i) a)
            (zip [0..<num_agents] agents)))"

end
