(* ===== verification/Simulation_Props.thy ===== *)
theory Simulation_Props
  imports Simulation Agent_Progress
begin

text \<open>
  What the launcher simulates. Its agents are never introduced to each other (\<open>add_peer\<close> is not
  called), so they stay isolated, and each of them trains exactly as it would without the gossip.
\<close>

section \<open>Isolated agents\<close>

definition isolated :: "protocol \<Rightarrow> bool" where
  "isolated s \<longleftrightarrow>
     peers (membership_of s) = [] \<and> gradient_cache s = [] \<and> messages_sent s = 0 \<and> messages_received s = 0"

lemma isolated_turn:
  "isolated s \<Longrightarrow> gossip_turn f32 ds now s =
     (if gp_running s then s\<lparr>rounds_completed := rounds_completed s + 1\<rparr> else s)"
  by (cases "current_gradients s")
    (simp_all add: gossip_turn_def gossip_round_def select_gossip_peers_def available_def get_alive_peers_def
      isolated_def Let_def)

lemma isolated_gossip: "isolated s \<Longrightarrow> isolated (gossip_turn f32 ds now s)"
  by (simp add: isolated_turn) (simp add: isolated_def)

lemma isolated_set: "isolated s \<Longrightarrow> isolated (set_gradients f32 g idx v st s)"
  by (simp add: isolated_def set_gradients_def)

lemma isolated_start: "isolated (start_protocol s) = isolated s"
  by (simp add: isolated_def start_protocol_def)

lemma new_agent_isolated:
  "new_agent fresh orth new_adam now e v c = Inr a \<Longrightarrow>
     isolated (ag_gossip a) \<and> rounds_completed (ag_gossip a) = 0 \<and> ag_config a = c"
  by (auto simp: new_agent_def Let_def ebind_Inr_iff isolated_def new_protocol_def agent_membership_def
      new_membership_def)

text \<open>A single contributor is not applied: the trainer stays as it is.\<close>

lemma exchange_isolated:
  assumes "isolated gp"
  shows "\<exists>gp1. exchange_gradients f32 tr gp = Inr (tr, gp1) \<and> isolated gp1 \<and>
    rounds_completed gp1 = rounds_completed gp \<and> gp_running gp1 = gp_running gp"
proof -
  let ?gp = "if get_gradients tr \<noteq> []
    then set_gradients f32 (to_array (get_gradients tr)) None (tr_model_version tr) (tr_step tr) gp else gp"
  have gp: "isolated ?gp" "rounds_completed ?gp = rounds_completed gp" "gp_running ?gp = gp_running gp"
    using assms isolated_set [OF assms] by (simp_all add: set_gradients_def)
  have "snd (get_aggregated_gradients s) \<le> 1" if "isolated s" for s
    using that by (simp add: isolated_def get_aggregated_gradients_def split: option.split)
  from this [OF gp(1)] have "exchange_gradients f32 tr gp = Inr (tr, ?gp)"
    unfolding exchange_gradients_def Let_def case_prod_unfold by simp
  with gp show ?thesis by blast
qed

section \<open>Training alone\<close>

text \<open>The reference: the same loop with nothing but the trainer and its environment.\<close>

record ('o, 'e) lone =
  ln_env :: 'e
  ln_trainer :: "'o trainer"
  ln_steps :: int
  ln_episodes :: int
  ln_reward :: real

definition lone_iteration ::
  "'o torch \<Rightarrow> 'e env \<Rightarrow> (nat \<Rightarrow> dist \<Rightarrow> action) \<Rightarrow> (dist \<Rightarrow> action) \<Rightarrow> int \<Rightarrow> ('o, 'e) lone \<Rightarrow> ('o, 'e) lone result"
where
  "lone_iteration x v smp smp_last n l =
     ebind (collect_rollout x v smp n (ln_env l) (ln_trainer l)) (\<lambda>(e, tr, reward, episodes).
     ebind (train_step x smp_last tr) (\<lambda>(tr1, _).
     Inr \<lparr>ln_env = e, ln_trainer = tr1, ln_steps = ln_steps l + 1, ln_episodes = ln_episodes l + episodes,
          ln_reward = ln_reward l + reward\<rparr>))"

text \<open>The samples of the iterations that are run: those before the first failing test.\<close>

fun is_iteration :: "sim_event \<Rightarrow> bool" where
  "is_iteration (Iteration k on now) = True"
| "is_iteration (Gossip_Task ds now) = False"

fun goes_on :: "real \<Rightarrow> real \<Rightarrow> sim_event \<Rightarrow> bool" where
  "goes_on start duration (Iteration k on now) \<longleftrightarrow> on \<and> now - start < duration"
| "goes_on start duration (Gossip_Task ds now) \<longleftrightarrow> True"

fun sample_of :: "sim_event \<Rightarrow> nat" where
  "sample_of (Iteration k on now) = k"
| "sample_of (Gossip_Task ds now) = 0"

definition performed :: "real \<Rightarrow> real \<Rightarrow> sim_event list \<Rightarrow> sim_event list" where
  "performed start duration es = takeWhile (goes_on start duration) es"

definition iterations :: "real \<Rightarrow> real \<Rightarrow> sim_event list \<Rightarrow> nat list" where
  "iterations start duration es = map sample_of (filter is_iteration (performed start duration es))"

lemma performed_simps [simp]:
  "performed start duration [] = []"
  "performed start duration (ev # es) = (if goes_on start duration ev then ev # performed start duration es else [])"
  by (simp_all add: performed_def)

lemma iterations_simps [simp]:
  "iterations start duration [] = []"
  "iterations start duration (Iteration k on now # es) =
     (if on \<and> now - start < duration then k # iterations start duration es else [])"
  "iterations start duration (Gossip_Task ds now # es) = iterations start duration es"
  by (simp_all add: iterations_def)

fun train_alone ::
  "'o torch \<Rightarrow> 'e env \<Rightarrow> (nat \<Rightarrow> nat \<Rightarrow> dist \<Rightarrow> action) \<Rightarrow> int \<Rightarrow> nat list \<Rightarrow> ('o, 'e) lone \<Rightarrow> ('o, 'e) lone result" where
  "train_alone x v smp n [] l = Inr l"
| "train_alone x v smp n (k # ks) l =
     ebind (lone_iteration x v (smp k) (smp k (nat n)) n l) (train_alone x v smp n ks)"

definition lone_of :: "('o, 'e) simulated \<Rightarrow> ('o, 'e) lone" where
  "lone_of r =
     \<lparr>ln_env = ag_env (sm_agent r), ln_trainer = ag_trainer (sm_agent r), ln_steps = sm_steps r,
      ln_episodes = sm_episodes r, ln_reward = sm_reward r\<rparr>"

text \<open>What an event of an isolated agent leaves in place.\<close>

definition sim_rel :: "('o, 'e) simulated \<Rightarrow> ('o, 'e) lone \<Rightarrow> bool" where
  "sim_rel r l \<longleftrightarrow> l = lone_of r \<and> isolated (ag_gossip (sm_agent r)) \<and> gp_running (ag_gossip (sm_agent r))"

definition same_run :: "('o, 'e) simulated \<Rightarrow> ('o, 'e) simulated \<Rightarrow> bool" where
  "same_run r r' \<longleftrightarrow>
     ag_config (sm_agent r') = ag_config (sm_agent r) \<and>
     rounds_completed (ag_gossip (sm_agent r')) = rounds_completed (ag_gossip (sm_agent r))"

lemma iteration_alone:
  assumes "isolated (ag_gossip (sm_agent r))" and "gp_running (ag_gossip (sm_agent r))"
  shows "rel_result (\<lambda>r' l'. sim_rel r' l' \<and> same_run r r')
    (sim_iteration x v smp smp2 f32 r)
    (lone_iteration x v smp smp2 (tc_n_steps (cf_training (ag_config (sm_agent r)))) (lone_of r))"
proof -
  have ex: "\<exists>gp1. exchange_gradients f32 tr (ag_gossip (sm_agent r)) = Inr (tr, gp1) \<and> isolated gp1 \<and>
      rounds_completed gp1 = rounds_completed (ag_gossip (sm_agent r)) \<and> gp_running gp1" for tr
    using exchange_isolated [OF assms(1), of f32 tr] assms(2) by auto
  show ?thesis
    unfolding sim_iteration_def lone_iteration_def Let_def case_prod_unfold
  proof (simp add: lone_of_def, intro rel_ebind_same)
    fix p :: "'b \<times> 'a trainer \<times> real \<times> int" and q :: "'a trainer \<times> ppo_stats"
    show "rel_result (\<lambda>r' l'. sim_rel r' l' \<and> same_run r r') (ebind (exchange_gradients f32 (fst q) (ag_gossip (sm_agent r)))
        (\<lambda>y. Inr (r\<lparr>sm_agent := sm_agent r\<lparr>ag_env := fst p, ag_trainer := fst y, ag_gossip := snd y\<rparr>,
            sm_steps := sm_steps r + 1, sm_episodes := sm_episodes r + snd (snd (snd p)),
            sm_reward := sm_reward r + fst (snd (snd p))\<rparr>)))
        (Inr \<lparr>ln_env = fst p, ln_trainer = fst q, ln_steps = sm_steps r + 1,
            ln_episodes = sm_episodes r + snd (snd (snd p)), ln_reward = sm_reward r + fst (snd (snd p))\<rparr>)"
      using ex [of "fst q"] by (auto simp: sim_rel_def same_run_def lone_of_def)
  qed
qed

definition gossip_turns :: "real \<Rightarrow> real \<Rightarrow> sim_event list \<Rightarrow> nat" where
  "gossip_turns start duration es = length (filter (\<lambda>ev. \<not> is_iteration ev) (performed start duration es))"

lemma gossip_turns_simps [simp]:
  "gossip_turns start duration [] = 0"
  "gossip_turns start duration (Iteration k on now # es) =
     (if on \<and> now - start < duration then gossip_turns start duration es else 0)"
  "gossip_turns start duration (Gossip_Task ds now # es) = gossip_turns start duration es + 1"
  by (simp_all add: gossip_turns_def)

definition after_events :: "('o, 'e) simulated \<Rightarrow> nat \<Rightarrow> ('o, 'e) simulated \<Rightarrow> bool" where
  "after_events r n r' \<longleftrightarrow>
     ag_config (sm_agent r') = ag_config (sm_agent r) \<and>
     rounds_completed (ag_gossip (sm_agent r')) = rounds_completed (ag_gossip (sm_agent r)) + int n"

lemma loop_alone:
  "isolated (ag_gossip (sm_agent r)) \<Longrightarrow> gp_running (ag_gossip (sm_agent r)) \<Longrightarrow>
   rel_result (\<lambda>r' l'. sim_rel r' l' \<and> after_events r (gossip_turns start duration es) r')
     (sim_loop x v smp f32 start duration es r)
     (train_alone x v smp (tc_n_steps (cf_training (ag_config (sm_agent r)))) (iterations start duration es) (lone_of r))"
proof (induction es arbitrary: r)
  case Nil
  then show ?case by (simp add: sim_rel_def after_events_def)
next
  case (Cons ev es)
  show ?case
  proof (cases ev)
    case (Iteration k on now)
    show ?thesis
    proof (cases "on \<and> now - start < duration")
      case True
      let ?n = "tc_n_steps (cf_training (ag_config (sm_agent r)))"
      note it = iteration_alone [OF Cons.prems, of x v "smp k" "smp k (nat ?n)" f32]
      have step: "rel_result (\<lambda>r' l'. sim_rel r' l' \<and> after_events r (gossip_turns start duration es) r')
          (sim_loop x v smp f32 start duration es r1) (train_alone x v smp ?n (iterations start duration es) l1)"
        if r1: "sim_rel r1 l1 \<and> same_run r r1" for r1 l1
        using Cons.IH [of r1] r1 by (auto simp: sim_rel_def same_run_def after_events_def)
      show ?thesis unfolding Iteration using True by (auto intro: rel_ebind [OF it step])
    next
      case False
      with Cons.prems show ?thesis by (auto simp: Iteration sim_rel_def after_events_def)
    qed
  next
    case (Gossip_Task ds now)
    let ?r = "r\<lparr>sm_agent := gossip_task f32 ds now (sm_agent r)\<rparr>"
    have t: "ag_gossip (sm_agent ?r) = (ag_gossip (sm_agent r))\<lparr>rounds_completed := rounds_completed (ag_gossip (sm_agent r)) + 1\<rparr>"
      using Cons.prems by (simp add: gossip_task_def isolated_turn)
    have "isolated (ag_gossip (sm_agent ?r))" "gp_running (ag_gossip (sm_agent ?r))"
      unfolding t using Cons.prems by (simp_all add: isolated_def)
    note IH = Cons.IH [OF this]
    have "lone_of ?r = lone_of r" "ag_config (sm_agent ?r) = ag_config (sm_agent r)"
      by (simp_all add: lone_of_def gossip_task_def)
    moreover have "after_events ?r n r' = after_events r (n + 1) r'" for n r'
      unfolding after_events_def t by (auto simp: gossip_task_def)
    ultimately show ?thesis using IH by (simp add: Gossip_Task)
  qed
qed

lemma train_alone_counters:
  "train_alone x v smp n ks l = Inr l' \<Longrightarrow> ln_steps l' = ln_steps l + int (length ks) \<and>
     tr_step (ln_trainer l') = tr_step (ln_trainer l) + int (length ks) \<and>
     tr_model_version (ln_trainer l') = tr_model_version (ln_trainer l)"
proof (induction ks arbitrary: l)
  case (Cons k ks)
  then obtain l1 where l1: "lone_iteration x v (smp k) (smp k (nat n)) n l = Inr l1" "train_alone x v smp n ks l1 = Inr l'"
    by (auto simp: ebind_Inr_iff)
  then obtain e tr rew eps tr1 st where t: "collect_rollout x v (smp k) n (ln_env l) (ln_trainer l) = Inr (e, tr, rew, eps)"
    "train_step x (smp k (nat n)) tr = Inr (tr1, st)" "ln_steps l1 = ln_steps l + 1" "ln_trainer l1 = tr1"
    by (auto simp: lone_iteration_def ebind_Inr_iff)
  have "tr = (ln_trainer l)\<lparr>tr_buffer := tr_buffer tr\<rparr>" using rollout_gathers [OF t(1)] by blast
  then have "tr_step tr = tr_step (ln_trainer l)" "tr_model_version tr = tr_model_version (ln_trainer l)"
    by (metis trainer.select_convs(6,7) trainer.surjective trainer.update_convs(5))+
  with train_step_counters [OF t(2)] Cons.IH [OF l1(2)] t(3,4) show ?case by simp
qed simp

lemma new_agent_counters:
  "new_agent fresh orth new_adam now e v c = Inr a \<Longrightarrow>
     tr_step (ag_trainer a) = 0 \<and> tr_model_version (ag_trainer a) = 0"
  by (auto simp: new_agent_def new_trainer_def setup_dp_def Let_def ebind_Inr_iff split: option.splits if_splits)

text \<open>With a sensible configuration the training loop does not raise.\<close>

lemma train_alone_succeeds:
  assumes "runs_ok x" and "env_ok n k v" and "\<forall>i t. draws_ok k (smp i t)" and "0 < j"
  shows "trainer_sound n k (nat j) (ln_trainer l) \<Longrightarrow>
    \<exists>l'. train_alone x v smp j is l = Inr l' \<and> trainer_sound n k (nat j) (ln_trainer l')"
proof (induction "is" arbitrary: l)
  case (Cons i "is")
  have draws: "\<forall>t. draws_ok k (smp i t)" "draws_ok k (smp i (nat j))" using assms(3) by simp_all
  obtain e b tot eps r st where
    "collect_rollout x v (smp i) j (ln_env l) (ln_trainer l) = Inr (e, (ln_trainer l)\<lparr>tr_buffer := b\<rparr>, tot, eps)"
    "train_step x (smp i (nat j)) ((ln_trainer l)\<lparr>tr_buffer := b\<rparr>) = Inr (r, st)" "trainer_sound n k (nat j) r"
    by (rule iteration_succeeds [OF assms(1,2) draws Cons.prems assms(4)])
  with Cons.IH show ?case by (simp add: lone_iteration_def)
qed simp

section \<open>Properties\<close>

definition lone_start :: "('o, 'e) agent \<Rightarrow> ('o, 'e) lone" where
  "lone_start a = \<lparr>ln_env = ag_env a, ln_trainer = ag_trainer a, ln_steps = 0, ln_episodes = 0, ln_reward = 0\<rparr>"

text \<open>
  C38. The simulation of many agents is a set of agents that train alone: whatever the gossip tasks
  do, an agent of the launcher fails with the error of the training loop without gossip, or ends with
  the trainer and the environment of that loop (the same parameters, optimiser, counters and
  privacy) and reports its steps, episodes and rewards. The launcher's trainer has made one step per
  iteration and its model version is still zero, because no aggregate is ever applied; the agent
  counts one gossip round per turn of its task and has contacted nobody.
\<close>

theorem launched_agents_train_alone:
  assumes "new_agent fresh orth new_adam now e v c = Inr a"
  shows "case train_alone x v smp (tc_n_steps (cf_training c)) (iterations start duration es) (lone_start a) of
      Inl err \<Rightarrow> sim_loop x v smp f32 start duration es (simulated_from a) = Inl err \<and>
        run_agent x v smp f32 start duration es a = Failed (agc_id (cf_agent c)) err
    | Inr l \<Rightarrow> \<exists>r. sim_loop x v smp f32 start duration es (simulated_from a) = Inr r \<and>
        ag_trainer (sm_agent r) = ln_trainer l \<and> ag_env (sm_agent r) = ln_env l \<and>
        tr_step (ag_trainer (sm_agent r)) = int (length (iterations start duration es)) \<and>
        tr_model_version (ag_trainer (sm_agent r)) = 0 \<and>
        run_agent x v smp f32 start duration es a =
        Completed \<lparr>rp_agent_id = agc_id (cf_agent c), rp_steps = int (length (iterations start duration es)),
          rp_episodes = ln_episodes l, rp_avg_reward = ln_reward l / real_of_int (max (ln_episodes l) 1),
          rp_gossip_rounds = int (gossip_turns start duration es), rp_peers_contacted = 0\<rparr>"
proof -
  let ?r = "simulated_from a" and ?n = "tc_n_steps (cf_training c)"
  note a = new_agent_isolated [OF assms]
  have r: "isolated (ag_gossip (sm_agent ?r))" "gp_running (ag_gossip (sm_agent ?r))"
    "rounds_completed (ag_gossip (sm_agent ?r)) = 0" "ag_config (sm_agent ?r) = c" "lone_of ?r = lone_start a"
    using a by (simp_all add: simulated_from_def isolated_start lone_of_def lone_start_def)
      (simp_all add: start_protocol_def)
  note loop = loop_alone [OF r(1,2), of start duration es x v smp f32]
  show ?thesis
  proof (cases "train_alone x v smp ?n (iterations start duration es) (lone_start a)")
    case (Inl err)
    with loop r a show ?thesis
      by (cases "sim_loop x v smp f32 start duration es ?r") (simp_all add: run_agent_def)
  next
    case (Inr l)
    with loop r obtain r' where r': "sim_loop x v smp f32 start duration es ?r = Inr r'" "l = lone_of r'"
      "ag_config (sm_agent r') = c" "rounds_completed (ag_gossip (sm_agent r')) = int (gossip_turns start duration es)"
      by (cases "sim_loop x v smp f32 start duration es ?r") (auto simp: sim_rel_def after_events_def)
    note n = train_alone_counters [OF Inr]
    have steps: "sm_steps r' = int (length (iterations start duration es))" "sm_episodes r' = ln_episodes l"
      "sm_reward r' = ln_reward l"
      using n by (simp_all add: r'(2) lone_of_def lone_start_def)
    have "ag_trainer (sm_agent r') = ln_trainer l" "ag_env (sm_agent r') = ln_env l"
      by (simp_all add: r'(2) lone_of_def)
    with Inr r'(1,3,4) n steps new_agent_counters [OF assms] show ?thesis
      by (simp add: run_agent_def sim_report_of_def get_stats_def lookup_stat_def lit_def lone_start_def)
  qed
qed

text \<open>Two iterations with the default configuration, and one with empty rollouts.\<close>

definition idle_config :: config where
  "idle_config = default_config\<lparr>cf_privacy := default_privacy_config\<lparr>pc_enabled := False\<rparr>,
     cf_training := default_training_config\<lparr>tc_n_steps := 0\<rparr>\<rparr>"

theorem launched_agents_train_alone_witness:
  "(\<exists>a rp. new_agent demo_fresh demo_orth demo_adam 0 0 demo_env default_config = Inr a \<and>
     run_agent steady_torch demo_env (\<lambda>k t d. Discrete 0) (\<lambda>x. x) 0 60
       [Iteration 0 True 10, Gossip_Task (\<lambda>i. []) 11, Iteration 1 True 20, Iteration 2 True 70] a = Completed rp \<and>
     rp_steps rp = 2 \<and> rp_gossip_rounds rp = 1 \<and>
     (\<exists>r. sim_loop steady_torch demo_env (\<lambda>k t d. Discrete 0) (\<lambda>x. x) 0 60
        [Iteration 0 True 10, Gossip_Task (\<lambda>i. []) 11, Iteration 1 True 20, Iteration 2 True 70] (simulated_from a) = Inr r \<and>
        tr_step (ag_trainer (sm_agent r)) = 2 \<and> tr_model_version (ag_trainer (sm_agent r)) = 0)) \<and>
   (\<exists>a. new_agent demo_fresh demo_orth demo_adam 0 0 demo_env idle_config = Inr a \<and>
     run_agent demo_torch demo_env (\<lambda>k t d. Discrete 0) (\<lambda>x. x) 0 60 [Iteration 0 True 50] a =
       Failed (lit ''agent-1'') IndexError)"
proof
  let ?es = "[Iteration 0 True 10, Gossip_Task (\<lambda>i. []) 11, Iteration 1 True 20, Iteration 2 True 70]"
  obtain a where a: "new_agent demo_fresh demo_orth demo_adam 0 0 demo_env default_config = Inr a"
    "agent_sound 1 2 a" "ag_config a = default_config"
    using new_agent_sound [OF demo_env_ok(1) demo_init_ok demo_adam_ok default_config_runs, of 0 0]
    by (elim exE conjE) (rule that; assumption)
  obtain l where "train_alone steady_torch demo_env (\<lambda>k t d. Discrete 0) (tc_n_steps (cf_training default_config))
      [0, 1] (lone_start a) = Inr l"
    using train_alone_succeeds [OF steady_torch_ok demo_env_ok(1), of "\<lambda>k t d. Discrete 0"
        "tc_n_steps (cf_training default_config)" "lone_start a" "[0, 1]"] demo_env_ok(2) a(2,3)
    by (auto simp: agent_sound_def lone_start_def)
  with launched_agents_train_alone [OF a(1), of steady_torch "\<lambda>k t d. Discrete 0" "\<lambda>x. x" 0 60 ?es] a(1)
  show "\<exists>a rp. new_agent demo_fresh demo_orth demo_adam 0 0 demo_env default_config = Inr a \<and>
      run_agent steady_torch demo_env (\<lambda>k t d. Discrete 0) (\<lambda>x. x) 0 60 ?es a = Completed rp \<and>
      rp_steps rp = 2 \<and> rp_gossip_rounds rp = 1 \<and>
      (\<exists>r. sim_loop steady_torch demo_env (\<lambda>k t d. Discrete 0) (\<lambda>x. x) 0 60 ?es (simulated_from a) = Inr r \<and>
        tr_step (ag_trainer (sm_agent r)) = 2 \<and> tr_model_version (ag_trainer (sm_agent r)) = 0)"
    by (auto simp: gossip_turns_def)
next
  obtain a where a: "new_agent demo_fresh demo_orth demo_adam 0 0 demo_env idle_config = Inr a"
    by (auto simp: new_agent_def new_trainer_def new_actor_critic_def idle_config_def demo_env_def first_dim_def
        action_dim_of_def demo_adam_def parameters_def policy_params_def layer_params_append Let_def
        default_config_def default_logging_config_def default_log_level default_training_config_def)
  have "agc_id (cf_agent idle_config) = lit ''agent-1''" "tc_n_steps (cf_training idle_config) = 0"
    by (simp_all add: idle_config_def default_config_def default_agent_config_def)
  moreover have "lone_iteration demo_torch demo_env smp smp2 0 l = Inl IndexError" for smp smp2 and l :: "(nat, nat) lone"
    by (simp add: lone_iteration_def collect_rollout_def case_prod_unfold Let_def train_step_def rollout_clear_def)
  ultimately show "\<exists>a. new_agent demo_fresh demo_orth demo_adam 0 0 demo_env idle_config = Inr a \<and>
      run_agent demo_torch demo_env (\<lambda>k t d. Discrete 0) (\<lambda>x. x) 0 60 [Iteration 0 True 50] a =
        Failed (lit ''agent-1'') IndexError"
    using launched_agents_train_alone [OF a, of demo_torch "\<lambda>k t d. Discrete 0" "\<lambda>x. x" 0 60 "[Iteration 0 True 50]"] a
    by (auto simp: lone_start_def)
qed

end
