(* ===== verification/Benchmark.thy ===== *)
theory Benchmark
  imports Simulation
begin

text \<open>
  \<open>scripts/benchmark_efficiency.py\<close>: the metrics an agent collects while it runs, also when it
  fails, and their aggregation; and how \<open>scripts/export_model.py\<close> loads a model. A failure leaves
  the metrics as they were at that point, because the script catches the exception of an agent.
\<close>

section \<open>Metrics\<close>

record agent_metrics =
  am_agent_id :: pystr
  am_training_steps :: int
  am_episodes_completed :: int
  am_total_reward :: real
  am_gossip_rounds :: int
  am_privacy_epsilon_spent :: pyfloat
  am_start_time :: real
  am_end_time :: real
  am_avg_step_time_ms :: real
  am_rewards_history :: "real list"

definition new_metrics :: "pystr \<Rightarrow> agent_metrics" where
  "new_metrics i =
     \<lparr>am_agent_id = i, am_training_steps = 0, am_episodes_completed = 0, am_total_reward = 0,
      am_gossip_rounds = 0, am_privacy_epsilon_spent = Fin 0, am_start_time = 0, am_end_time = 0,
      am_avg_step_time_ms = 0, am_rewards_history = []\<rparr>"

record ('o, 'e) benched =
  bn_agent :: "('o, 'e) agent"
  bn_metrics :: agent_metrics
  bn_step_times :: "real list"

text \<open>The aggregate is applied whenever there is one, unlike in the agent and the launcher.\<close>

definition exchange_always :: "(real \<Rightarrow> real) \<Rightarrow> 'o trainer \<Rightarrow> protocol \<Rightarrow> ('o trainer \<times> protocol) result" where
  "exchange_always f32 tr gp =
     (let g = get_gradients tr;
          gp1 = (if g \<noteq> [] then set_gradients f32 (to_array g) None (tr_model_version tr) (tr_step tr) gp else gp);
          (aggregated, _) = get_aggregated_gradients gp1
      in if nd_data aggregated \<noteq> []
         then ebind (apply_aggregated_gradients (nd_data aggregated) tr) (\<lambda>tr1. Inr (tr1, gp1))
         else Inr (tr, gp1))"

text \<open>
  One iteration, begun at \<open>t0\<close> and ended at \<open>t1\<close> (in seconds). The first component is the
  exception, the second the state in which it or the end of the iteration leaves the agent.
\<close>

definition bench_iteration ::
  "'o torch \<Rightarrow> 'e env \<Rightarrow> (nat \<Rightarrow> dist \<Rightarrow> action) \<Rightarrow> (dist \<Rightarrow> action) \<Rightarrow> (real \<Rightarrow> real) \<Rightarrow> real \<Rightarrow> real \<Rightarrow>
     ('o, 'e) benched \<Rightarrow> py_error option \<times> ('o, 'e) benched"
where
  "bench_iteration x v smp smp_last f32 t0 t1 b =
     (let a = bn_agent b in
      case collect_rollout x v smp (tc_n_steps (cf_training (ag_config a))) (ag_env a) (ag_trainer a) of
        Inl err \<Rightarrow> (Some err, b)
      | Inr (e, tr, reward, episodes) \<Rightarrow>
          (let m = bn_metrics b;
               m1 = m\<lparr>am_episodes_completed := am_episodes_completed m + episodes,
                      am_total_reward := am_total_reward m + reward,
                      am_rewards_history := am_rewards_history m @ [reward / real_of_int (max episodes 1)]\<rparr>;
               b1 = b\<lparr>bn_agent := a\<lparr>ag_env := e, ag_trainer := tr\<rparr>, bn_metrics := m1\<rparr>
           in case train_step x smp_last tr of
                Inl err \<Rightarrow> (Some err, b1)
              | Inr (tr1, stats) \<Rightarrow>
                  (let m2 = m1\<lparr>am_training_steps := am_training_steps m1 + 1\<rparr>;
                       b2 = b1\<lparr>bn_agent := a\<lparr>ag_env := e, ag_trainer := tr1\<rparr>, bn_metrics := m2\<rparr>
                   in case exchange_always f32 tr1 (ag_gossip a) of
                        Inl err \<Rightarrow> (Some err, b2)
                      | Inr (tr2, gp) \<Rightarrow>
                          (None, b2\<lparr>bn_agent := a\<lparr>ag_env := e, ag_trainer := tr2, ag_gossip := gp\<rparr>,
                                    bn_step_times := bn_step_times b2 @ [(t1 - t0) * 1000]\<rparr>))))"

datatype bench_event =
    Bench_Iteration nat bool real real real | Bench_Gossip "nat \<Rightarrow> nat list" real

fun bench_loop ::
  "'o torch \<Rightarrow> 'e env \<Rightarrow> (nat \<Rightarrow> nat \<Rightarrow> dist \<Rightarrow> action) \<Rightarrow> (real \<Rightarrow> real) \<Rightarrow> real \<Rightarrow> bench_event list \<Rightarrow>
     ('o, 'e) benched \<Rightarrow> py_error option \<times> ('o, 'e) benched"
where
  "bench_loop x v smp f32 duration [] b = (None, b)"
| "bench_loop x v smp f32 duration (Bench_Iteration k on now t0 t1 # es) b =
     (if on \<and> now - am_start_time (bn_metrics b) < duration
      then case bench_iteration x v (smp k) (smp k (nat (tc_n_steps (cf_training (ag_config (bn_agent b))))))
                  f32 t0 t1 b of
             (Some err, b1) \<Rightarrow> (Some err, b1)
           | (None, b1) \<Rightarrow> bench_loop x v smp f32 duration es b1
      else (None, b))"
| "bench_loop x v smp f32 duration (Bench_Gossip ds now # es) b =
     bench_loop x v smp f32 duration es (b\<lparr>bn_agent := gossip_task f32 ds now (bn_agent b)\<rparr>)"

text \<open>What follows the loop; an exception skips it.\<close>

definition finish_metrics :: "real \<Rightarrow> ('o, 'e) benched \<Rightarrow> agent_metrics" where
  "finish_metrics end_time b =
     (let m = (bn_metrics b)\<lparr>am_end_time := end_time,
                 am_gossip_rounds := rounds_completed (ag_gossip (bn_agent b)),
                 am_privacy_epsilon_spent := fst (trainer_privacy_spent (ag_trainer (bn_agent b)))\<rparr>
      in if bn_step_times b \<noteq> [] then m\<lparr>am_avg_step_time_ms := list_mean (bn_step_times b)\<rparr> else m)"

definition run_agent_benchmark ::
  "'o torch \<Rightarrow> 'e env \<Rightarrow> (nat \<Rightarrow> nat \<Rightarrow> dist \<Rightarrow> action) \<Rightarrow> (real \<Rightarrow> real) \<Rightarrow> real \<Rightarrow> real \<Rightarrow> real \<Rightarrow>
     bench_event list \<Rightarrow> agent_metrics \<Rightarrow> ('o, 'e) agent \<Rightarrow> agent_metrics"
where
  "run_agent_benchmark x v smp f32 start duration end_time es m a =
     (case bench_loop x v smp f32 duration es
             \<lparr>bn_agent = a\<lparr>ag_gossip := start_protocol (ag_gossip a)\<rparr>,
              bn_metrics = m\<lparr>am_start_time := start\<rparr>, bn_step_times = []\<rparr> of
        (Some err, b) \<Rightarrow> bn_metrics b
      | (None, b) \<Rightarrow> finish_metrics end_time b)"

section \<open>Aggregation\<close>

record agent_row =
  ar_agent_id :: pystr
  ar_steps :: int
  ar_episodes :: int
  ar_avg_reward :: real
  ar_gossip_rounds :: int
  ar_epsilon_spent :: pyfloat
  ar_avg_step_time_ms :: real

record benchmark_results =
  br_num_agents :: int
  br_duration_seconds :: real
  br_environment :: pystr
  br_total_training_steps :: int
  br_total_episodes :: int
  br_steps_per_second :: real
  br_episodes_per_second :: real
  br_avg_reward :: real
  br_max_reward :: real
  br_min_reward :: real
  br_reward_std :: real
  br_total_gossip_rounds :: int
  br_gossip_rounds_per_agent :: real
  br_gossip_efficiency :: real
  br_avg_epsilon_spent :: pyfloat
  br_max_epsilon_spent :: pyfloat
  br_privacy_efficiency :: real
  br_agents_completed :: int
  br_throughput_per_agent :: real
  br_agent_metrics :: "agent_row list"
  br_wall_clock_time :: real

definition new_results :: "int \<Rightarrow> real \<Rightarrow> pystr \<Rightarrow> real \<Rightarrow> benchmark_results" where
  "new_results n duration env_name wall =
     \<lparr>br_num_agents = n, br_duration_seconds = duration, br_environment = env_name,
      br_total_training_steps = 0, br_total_episodes = 0, br_steps_per_second = 0,
      br_episodes_per_second = 0, br_avg_reward = 0, br_max_reward = 0, br_min_reward = 0,
      br_reward_std = 0, br_total_gossip_rounds = 0, br_gossip_rounds_per_agent = 0,
      br_gossip_efficiency = 0, br_avg_epsilon_spent = Fin 0, br_max_epsilon_spent = Fin 0,
      br_privacy_efficiency = 0, br_agents_completed = 0, br_throughput_per_agent = 0,
      br_agent_metrics = [], br_wall_clock_time = wall\<rparr>"

text \<open>The mean of floats one of which may be infinite.\<close>

definition fin_value :: "pyfloat \<Rightarrow> real" where
  "fin_value z = (case z of Fin r \<Rightarrow> r | PInf \<Rightarrow> 0)"

definition pf_mean :: "pyfloat list \<Rightarrow> pyfloat" where
  "pf_mean zs = (if PInf \<in> set zs then PInf else Fin (list_mean (map fin_value zs)))"

definition completed_agents :: "agent_metrics list \<Rightarrow> agent_metrics list" where
  "completed_agents ms = filter (\<lambda>m. am_training_steps m > 0) ms"

text \<open>The reward per episode of the agents that have finished one.\<close>

definition all_rewards :: "agent_metrics list \<Rightarrow> real list" where
  "all_rewards ms =
     map (\<lambda>m. am_total_reward m / real_of_int (am_episodes_completed m))
       (filter (\<lambda>m. am_episodes_completed m > 0) ms)"

definition spent_epsilons :: "agent_metrics list \<Rightarrow> pyfloat list" where
  "spent_epsilons ms = filter (\<lambda>z. z > Fin 0) (map am_privacy_epsilon_spent ms)"

definition row_of :: "agent_metrics \<Rightarrow> agent_row" where
  "row_of m =
     \<lparr>ar_agent_id = am_agent_id m, ar_steps = am_training_steps m, ar_episodes = am_episodes_completed m,
      ar_avg_reward = am_total_reward m / real_of_int (max (am_episodes_completed m) 1),
      ar_gossip_rounds = am_gossip_rounds m, ar_epsilon_spent = am_privacy_epsilon_spent m,
      ar_avg_step_time_ms = am_avg_step_time_ms m\<rparr>"

definition aggregate_rewards :: "real list \<Rightarrow> benchmark_results \<Rightarrow> benchmark_results" where
  "aggregate_rewards rewards r =
     (if rewards = [] then r
      else r\<lparr>br_avg_reward := list_mean rewards, br_max_reward := Max (set rewards),
             br_min_reward := Min (set rewards), br_reward_std := list_std rewards\<rparr>)"

definition aggregate_privacy :: "pyfloat list \<Rightarrow> benchmark_results \<Rightarrow> benchmark_results" where
  "aggregate_privacy eps r =
     (if eps = [] then r
      else
        let avg = pf_mean eps;
            r1 = r\<lparr>br_avg_epsilon_spent := avg, br_max_epsilon_spent := Max (set eps)\<rparr>
        in if avg > Fin 0
           then r1\<lparr>br_privacy_efficiency := (case avg of Fin z \<Rightarrow> br_avg_reward r1 / z | PInf \<Rightarrow> 0)\<rparr>
           else r1)"

text \<open>A wall clock time of zero raises; the number of completed agents is not zero there.\<close>

definition aggregate_results :: "agent_metrics list \<Rightarrow> benchmark_results \<Rightarrow> benchmark_results result" where
  "aggregate_results ms r =
     (let completed = completed_agents ms;
          r1 = r\<lparr>br_agents_completed := int (length completed)\<rparr>
      in if completed = [] then Inr r1
         else if br_wall_clock_time r = 0 then Inl ZeroDivisionError
         else
           let n = real (length completed);
               steps = sum_list (map am_training_steps completed);
               episodes = sum_list (map am_episodes_completed completed);
               rounds = sum_list (map am_gossip_rounds completed);
               eps_per_second = real_of_int episodes / br_wall_clock_time r;
               r2 = aggregate_rewards (all_rewards completed)
                 (r1\<lparr>br_total_training_steps := steps, br_total_episodes := episodes,
                     br_steps_per_second := real_of_int steps / br_wall_clock_time r,
                     br_episodes_per_second := eps_per_second\<rparr>);
               r3 = r2\<lparr>br_total_gossip_rounds := rounds, br_gossip_rounds_per_agent := real_of_int rounds / n\<rparr>;
               r4 = (if steps > 0 then r3\<lparr>br_gossip_efficiency := real_of_int rounds / real_of_int steps\<rparr> else r3);
               r5 = aggregate_privacy (spent_epsilons completed) r4
           in Inr (r5\<lparr>br_throughput_per_agent := eps_per_second / n,
                      br_agent_metrics := map row_of completed\<rparr>))"

text \<open>\<open>print_results\<close>: the success rate and the best five agents.\<close>

definition success_rate :: "benchmark_results \<Rightarrow> real result" where
  "success_rate r =
     (if br_num_agents r = 0 then Inl ZeroDivisionError
      else Inr (100 * real_of_int (br_agents_completed r) / real_of_int (br_num_agents r)))"

definition top_agents :: "benchmark_results \<Rightarrow> agent_row list" where
  "top_agents r = take 5 (sort_key (\<lambda>a. - ar_episodes a) (br_agent_metrics r))"

text \<open>
  \<open>run_benchmark\<close>: the environment reported is that of the last agent created; every agent has its
  own events and end time.
\<close>

definition run_benchmark ::
  "config result \<Rightarrow> int \<Rightarrow> (nat \<Rightarrow> config \<Rightarrow> ('o, 'e) agent result) \<Rightarrow> nat \<Rightarrow>
     (nat \<Rightarrow> 'o torch) \<Rightarrow> (nat \<Rightarrow> 'e env) \<Rightarrow> (nat \<Rightarrow> nat \<Rightarrow> nat \<Rightarrow> dist \<Rightarrow> action) \<Rightarrow> (real \<Rightarrow> real) \<Rightarrow>
     (nat \<Rightarrow> real) \<Rightarrow> real \<Rightarrow> (nat \<Rightarrow> real) \<Rightarrow> (nat \<Rightarrow> bench_event list) \<Rightarrow> real \<Rightarrow> benchmark_results result"
where
  "run_benchmark base base_port new num_agents x v smp f32 start duration stop_at ess wall =
     ebind (create_agents base base_port new num_agents) (\<lambda>agents.
     let ms = map (\<lambda>(i, a). run_agent_benchmark (x i) (v i) (smp i) f32 (start i) duration (stop_at i) (ess i)
                (new_metrics (agent_name (int i))) a) (zip [0..<num_agents] agents);
         env_name = (if agents = [] then [] else ec_name (cf_environment (ag_config (last agents))))
     in aggregate_results ms (new_results (int num_agents) duration env_name wall))"

section \<open>Export\<close>

text \<open>\<open>load_checkpoint\<close> of the export script: a new network of the trainer's architecture.\<close>

definition export_load ::
  "fresh_init \<Rightarrow> orth_init \<Rightarrow> nat \<Rightarrow> nat \<Rightarrow> 'o checkpoint \<Rightarrow> actor_critic result" where
  "export_load fresh orth obs_dim action_dim c =
     ebind (new_actor_critic fresh orth obs_dim action_dim [256, 256] False False (lit ''tanh'')) 
       (load_state_dict (cp_model c))"

end
