(* ===== verification/Benchmark_Props.thy ===== *)
theory Benchmark_Props
  imports Benchmark Simulation_Props
begin

text \<open>
  The statistics of the benchmark, what it does with the aggregate of gossip, and which agents it
  counts.
\<close>

section \<open>Means\<close>

lemma list_mean_between:
  assumes "xs \<noteq> []" and "\<And>x. x \<in> set xs \<Longrightarrow> lo \<le> x \<and> x \<le> hi"
  shows "lo \<le> list_mean xs \<and> list_mean xs \<le> hi"
proof -
  have "real (length xs) * lo \<le> sum_list xs \<and> sum_list xs \<le> real (length xs) * hi"
    using assms(2) by (induction xs) (auto simp: algebra_simps intro: add_mono)
  moreover have "0 < real (length xs)" using assms(1) by simp
  ultimately show ?thesis
    by (simp add: list_mean_def pos_le_divide_eq pos_divide_le_eq mult.commute)
qed

lemma list_std_range:
  assumes "xs \<noteq> []" and "\<And>x. x \<in> set xs \<Longrightarrow> lo \<le> x \<and> x \<le> hi"
  shows "list_std xs \<le> hi - lo"
proof -
  have m: "lo \<le> list_mean xs" "list_mean xs \<le> hi" using list_mean_between [OF assms] by auto
  have "(x - list_mean xs)\<^sup>2 \<le> (hi - lo)\<^sup>2" if "x \<in> set xs" for x
    using assms(2) [OF that] m by (intro power2_le_iff_abs_le [THEN iffD2]) auto
  then have "list_mean (map (\<lambda>x. (x - list_mean xs)\<^sup>2) xs) \<le> (hi - lo)\<^sup>2"
    using list_mean_between [of "map (\<lambda>x. (x - list_mean xs)\<^sup>2) xs" 0 "(hi - lo)\<^sup>2"] assms(1) by fastforce
  then have "list_std xs \<le> sqrt ((hi - lo)\<^sup>2)" unfolding list_std_def by (rule real_sqrt_le_mono)
  moreover have "lo \<le> hi" using m by simp
  ultimately show ?thesis by simp
qed

lemma pyfloat_le_PInf [simp]: "z \<le> PInf"
  by (cases z) simp_all

lemma pf_mean_max:
  assumes "zs \<noteq> []" and "\<And>z. z \<in> set zs \<Longrightarrow> Fin 0 < z"
  shows "Fin 0 < pf_mean zs \<and> pf_mean zs \<le> Max (set zs)"
proof (cases "PInf \<in> set zs")
  case True
  then have "Max (set zs) = PInf" by (intro Max_eqI) auto
  with True show ?thesis by (simp add: pf_mean_def)
next
  case False
  let ?rs = "map fin_value zs"
  have fin: "Fin (fin_value z) = z" if "z \<in> set zs" for z
  proof -
    have "z \<noteq> PInf" using that False by auto
    then show ?thesis by (cases z) (simp_all add: fin_value_def)
  qed
  obtain w where w: "w \<in> set zs" "Max (set zs) = w" using assms(1) Max_in [of "set zs"] by blast
  have "r \<le> fin_value w" if r: "r \<in> set ?rs" for r
  proof -
    obtain z where z: "z \<in> set zs" "r = fin_value z" using r by auto
    then have "Fin (fin_value z) \<le> Fin (fin_value w)" using fin [OF z(1)] fin [OF w(1)] w(2) by (metis List.finite_set Max_ge)
    then show ?thesis using z(2) by simp
  qed
  then have b: "Min (set ?rs) \<le> list_mean ?rs \<and> list_mean ?rs \<le> fin_value w"
    using assms(1) by (intro list_mean_between) auto
  have "Min (set ?rs) \<in> set ?rs" using assms(1) by (intro Min_in) auto
  then obtain z where "z \<in> set zs" "Min (set ?rs) = fin_value z" by auto
  with assms(2) [of z] fin [of z] have "0 < Min (set ?rs)" by (metis pyfloat_less_simps(1))
  with b have "0 < list_mean ?rs" by simp
  moreover have "Fin (list_mean ?rs) \<le> w" using b fin [OF w(1)] by (metis less_eq_pyfloat.simps(1))
  ultimately show ?thesis using False w(2) by (simp add: pf_mean_def)
qed

section \<open>Aggregation\<close>

lemma rewards_fields:
  "br_total_training_steps (aggregate_rewards xs r) = br_total_training_steps r"
  "br_total_episodes (aggregate_rewards xs r) = br_total_episodes r"
  "br_episodes_per_second (aggregate_rewards xs r) = br_episodes_per_second r"
  "br_steps_per_second (aggregate_rewards xs r) = br_steps_per_second r"
  "br_agents_completed (aggregate_rewards xs r) = br_agents_completed r"
  "br_avg_epsilon_spent (aggregate_rewards xs r) = br_avg_epsilon_spent r"
  "br_max_epsilon_spent (aggregate_rewards xs r) = br_max_epsilon_spent r"
  by (simp_all add: aggregate_rewards_def)

lemma privacy_fields:
  "br_total_training_steps (aggregate_privacy zs r) = br_total_training_steps r"
  "br_total_episodes (aggregate_privacy zs r) = br_total_episodes r"
  "br_episodes_per_second (aggregate_privacy zs r) = br_episodes_per_second r"
  "br_steps_per_second (aggregate_privacy zs r) = br_steps_per_second r"
  "br_agents_completed (aggregate_privacy zs r) = br_agents_completed r"
  "br_avg_reward (aggregate_privacy zs r) = br_avg_reward r"
  "br_max_reward (aggregate_privacy zs r) = br_max_reward r"
  "br_min_reward (aggregate_privacy zs r) = br_min_reward r"
  "br_reward_std (aggregate_privacy zs r) = br_reward_std r"
  "br_total_gossip_rounds (aggregate_privacy zs r) = br_total_gossip_rounds r"
  by (simp_all add: aggregate_privacy_def Let_def)

lemma rewards_bounds:
  assumes "br_avg_reward r = 0 \<and> br_min_reward r = 0 \<and> br_max_reward r = 0 \<and> br_reward_std r = 0"
  shows "br_min_reward (aggregate_rewards xs r) \<le> br_avg_reward (aggregate_rewards xs r) \<and>
    br_avg_reward (aggregate_rewards xs r) \<le> br_max_reward (aggregate_rewards xs r) \<and>
    0 \<le> br_reward_std (aggregate_rewards xs r) \<and>
    br_reward_std (aggregate_rewards xs r) \<le>
      br_max_reward (aggregate_rewards xs r) - br_min_reward (aggregate_rewards xs r)"
proof (cases "xs = []")
  case False
  then have "Min (set xs) \<le> list_mean xs \<and> list_mean xs \<le> Max (set xs)"
    by (intro list_mean_between) auto
  moreover have "list_std xs \<le> Max (set xs) - Min (set xs)"
    using False by (intro list_std_range) auto
  ultimately show ?thesis using False list_std_nonneg [of xs] by (simp add: aggregate_rewards_def)
qed (simp add: aggregate_rewards_def assms)

lemma privacy_bounds:
  assumes "br_avg_epsilon_spent r = Fin 0 \<and> br_max_epsilon_spent r = Fin 0"
  shows "Fin 0 \<le> br_avg_epsilon_spent (aggregate_privacy (spent_epsilons ms) r) \<and>
    br_avg_epsilon_spent (aggregate_privacy (spent_epsilons ms) r) \<le>
      br_max_epsilon_spent (aggregate_privacy (spent_epsilons ms) r)"
proof (cases "spent_epsilons ms = []")
  case False
  have "Fin 0 < pf_mean (spent_epsilons ms) \<and> pf_mean (spent_epsilons ms) \<le> Max (set (spent_epsilons ms))"
    using False by (intro pf_mean_max) (auto simp: spent_epsilons_def)
  with False show ?thesis by (auto simp: aggregate_privacy_def Let_def)
qed (simp add: aggregate_privacy_def assms)

section \<open>Runs\<close>

lemma exchange_always_own:
  assumes "ready n tr" and "0 < n"
  shows "\<exists>tr1 gp1. exchange_always f32 tr gp = Inr (tr1, gp1) \<and> alike tr tr1 \<and>
    tr_local_gradients tr1 = tr_local_gradients tr \<and> tr_step tr1 = tr_step tr \<and>
    tr_aggregated_gradients tr1 = Some (get_gradients tr) \<and> tr_model_version tr1 = tr_model_version tr + 1"
  using own_nonempty [OF assms] apply_own [OF assms(1)]
  by (auto simp: exchange_always_def own_aggregate)

lemma always_harmless: "exchange_always f32 tr gp = Inr (tr1, gp1) \<Longrightarrow> alike tr tr1"
  using apply_aggregated_alike [of _ tr] alike_refl [of tr]
  by (auto simp: exchange_always_def Let_def ebind_Inr_iff case_prod_unfold split: if_splits)

interpretation bench_exchange: gossip_exchange "exchange_always f32" for f32
  by unfold_locales (use exchange_always_own always_harmless in \<open>blast+\<close>)

text \<open>What an iteration does to the counters, whether it fails or not.\<close>

definition version_gap :: "('o, 'e) benched \<Rightarrow> int" where
  "version_gap b = tr_model_version (ag_trainer (bn_agent b)) - am_training_steps (bn_metrics b)"

definition own_applied :: "('o, 'e) benched \<Rightarrow> bool" where
  "own_applied b \<longleftrightarrow>
     tr_aggregated_gradients (ag_trainer (bn_agent b)) = Some (get_gradients (ag_trainer (bn_agent b)))"

definition bench_size :: "('o, 'e) benched \<Rightarrow> nat" where
  "bench_size b = model_size (tr_model (ag_trainer (bn_agent b)))"

lemma bench_iteration_step:
  assumes "torch_ok x" and "0 < bench_size b" and "bench_iteration x v smp smp2 f32 t0 t1 b = (err, b')"
  shows "version_gap b' = version_gap b \<and>
    (err = None \<longrightarrow> bench_size b' = bench_size b \<and> own_applied b' \<and>
       am_training_steps (bn_metrics b') = am_training_steps (bn_metrics b) + 1)"
proof (cases "collect_rollout x v smp (tc_n_steps (cf_training (ag_config (bn_agent b)))) (ag_env (bn_agent b)) (ag_trainer (bn_agent b))")
  case (Inl e)
  with assms(3) show ?thesis by (auto simp: bench_iteration_def)
next
  case (Inr p)
  then obtain e tr rew eps where c: "collect_rollout x v smp (tc_n_steps (cf_training (ag_config (bn_agent b))))
      (ag_env (bn_agent b)) (ag_trainer (bn_agent b)) = Inr (e, tr, rew, eps)" by (cases p) auto
  have tr: "tr = (ag_trainer (bn_agent b))\<lparr>tr_buffer := tr_buffer tr\<rparr>" using rollout_gathers [OF c] by blast
  have f: "tr_model tr = tr_model (ag_trainer (bn_agent b))" "tr_model_version tr = tr_model_version (ag_trainer (bn_agent b))"
    by (subst tr, simp)+
  show ?thesis
  proof (cases "train_step x smp2 tr")
    case (Inl e')
    with assms(3) c f show ?thesis by (auto simp: bench_iteration_def Let_def version_gap_def)
  next
    case (Inr q)
    then obtain tr1 st where t: "train_step x smp2 tr = Inr (tr1, st)" by (cases q) auto
    have r: "ready (bench_size b) tr1" using train_step_ready [OF assms(1) t] f by (simp add: bench_size_def)
    obtain tr2 gp where o: "exchange_always f32 tr1 (ag_gossip (bn_agent b)) = Inr (tr2, gp)" "alike tr1 tr2"
      "tr_local_gradients tr2 = tr_local_gradients tr1" "tr_aggregated_gradients tr2 = Some (get_gradients tr1)"
      "tr_model_version tr2 = tr_model_version tr1 + 1"
      using exchange_always_own [OF r assms(2)] by blast
    have "model_size (tr_model tr2) = bench_size b" using alike_size [OF o(2)] r by (simp add: ready_def)
    then show ?thesis
      using assms(3) c t o f train_step_counters [OF t]
      by (auto simp: bench_iteration_def Let_def version_gap_def own_applied_def bench_size_def get_gradients_def)
  qed
qed

lemma bench_loop_step:
  "torch_ok x \<Longrightarrow> 0 < bench_size b \<Longrightarrow> bench_loop x v smp f32 duration es b = (err, b') \<Longrightarrow>
     version_gap b' = version_gap b \<and>
     (err = None \<longrightarrow> am_training_steps (bn_metrics b) \<le> am_training_steps (bn_metrics b') \<and>
        (own_applied b \<or> am_training_steps (bn_metrics b) < am_training_steps (bn_metrics b') \<longrightarrow> own_applied b'))"
proof (induction es arbitrary: b)
  case (Cons ev es)
  show ?case
  proof (cases ev)
    case (Bench_Iteration k on now t0 t1)
    show ?thesis
    proof (cases "on \<and> now - am_start_time (bn_metrics b) < duration")
      case True
      obtain e b1 where b1: "bench_iteration x v (smp k) (smp k (nat (tc_n_steps (cf_training (ag_config (bn_agent b))))))
          f32 t0 t1 b = (e, b1)" by fastforce
      note step = bench_iteration_step [OF Cons.prems(1,2) b1]
      show ?thesis
      proof (cases e)
        case None
        with Cons.prems(3) True b1 have "bench_loop x v smp f32 duration es b1 = (err, b')" by (simp add: Bench_Iteration)
        from Cons.IH [OF Cons.prems(1) _ this] Cons.prems(2) step None show ?thesis by auto
      next
        case (Some e')
        with Cons.prems(3) True b1 step show ?thesis by (auto simp: Bench_Iteration)
      qed
    next
      case False
      with Cons.prems(3) show ?thesis by (auto simp: Bench_Iteration)
    qed
  next
    case (Bench_Gossip ds now)
    let ?b = "b\<lparr>bn_agent := gossip_task f32 ds now (bn_agent b)\<rparr>"
    have "version_gap ?b = version_gap b" "own_applied ?b = own_applied b" "bench_size ?b = bench_size b"
      by (simp_all add: version_gap_def own_applied_def bench_size_def gossip_task_def)
    with Cons.IH [of ?b] Cons.prems show ?thesis by (simp add: Bench_Gossip)
  qed
qed simp

section \<open>Training alone\<close>

text \<open>The benchmark next to the loop without gossip, started with the same counters.\<close>

definition bench_rel :: "('o, 'e) lone \<Rightarrow> ('o, 'e) benched \<Rightarrow> bool" where
  "bench_rel l b \<longleftrightarrow>
     alike (ln_trainer l) (ag_trainer (bn_agent b)) \<and> ln_env l = ag_env (bn_agent b) \<and>
     ln_steps l = am_training_steps (bn_metrics b) \<and> ln_episodes l = am_episodes_completed (bn_metrics b) \<and>
     ln_reward l = am_total_reward (bn_metrics b) \<and> 0 < bench_size b"

definition bench_lone :: "('o, 'e) benched \<Rightarrow> ('o, 'e) lone" where
  "bench_lone b =
     \<lparr>ln_env = ag_env (bn_agent b), ln_trainer = ag_trainer (bn_agent b),
      ln_steps = am_training_steps (bn_metrics b), ln_episodes = am_episodes_completed (bn_metrics b),
      ln_reward = am_total_reward (bn_metrics b)\<rparr>"

definition same_setting :: "('o, 'e) benched \<Rightarrow> ('o, 'e) benched \<Rightarrow> bool" where
  "same_setting b b' \<longleftrightarrow>
     ag_config (bn_agent b') = ag_config (bn_agent b) \<and> am_start_time (bn_metrics b') = am_start_time (bn_metrics b)"

text \<open>The exception or the state of the benchmark, as a result.\<close>

definition bench_result :: "py_error option \<times> ('o, 'e) benched \<Rightarrow> ('o, 'e) benched result" where
  "bench_result r = (case r of (Some e, b) \<Rightarrow> Inl e | (None, b) \<Rightarrow> Inr b)"

lemma bench_iteration_alone:
  assumes "torch_ok x" and "bench_rel l b"
  shows "rel_result (\<lambda>l' b'. bench_rel l' b' \<and> same_setting b b')
    (lone_iteration x v smp smp2 (tc_n_steps (cf_training (ag_config (bn_agent b)))) l)
    (bench_result (bench_iteration x v smp smp2 f32 t0 t1 b))"
proof -
  let ?n = "tc_n_steps (cf_training (ag_config (bn_agent b)))" and ?t = "ag_trainer (bn_agent b)"
  have al: "alike (ln_trainer l) ?t" and l: "ln_env l = ag_env (bn_agent b)" "ln_steps l = am_training_steps (bn_metrics b)"
    "ln_episodes l = am_episodes_completed (bn_metrics b)" "ln_reward l = am_total_reward (bn_metrics b)" "0 < bench_size b"
    using assms(2) by (simp_all add: bench_rel_def)
  note roll = collect_rollout_alike [OF al, of x v smp ?n "ag_env (bn_agent b)"]
  show ?thesis
  proof (cases "collect_rollout x v smp ?n (ag_env (bn_agent b)) ?t")
    case (Inl e)
    with roll show ?thesis
      by (cases "collect_rollout x v smp ?n (ag_env (bn_agent b)) (ln_trainer l)")
        (simp_all add: lone_iteration_def bench_iteration_def bench_result_def l)
  next
    case (Inr p)
    then obtain e tr rew eps where c: "collect_rollout x v smp ?n (ag_env (bn_agent b)) ?t = Inr (e, tr, rew, eps)"
      by (cases p) auto
    with roll obtain tr0 where c0: "collect_rollout x v smp ?n (ag_env (bn_agent b)) (ln_trainer l) = Inr (e, tr0, rew, eps)"
      "alike tr0 tr"
      by (cases "collect_rollout x v smp ?n (ag_env (bn_agent b)) (ln_trainer l)") auto
    have size: "0 < model_size (tr_model tr)" "model_size (tr_model tr) = bench_size b"
      using l(5) by (subst rollout_gathers [OF c, THEN conjunct2, THEN conjunct2, THEN conjunct2], simp add: bench_size_def)+
    note train = train_step_alike [OF c0(2), of x smp2]
    show ?thesis
    proof (cases "train_step x smp2 tr")
      case (Inl e')
      with train c c0(1) show ?thesis
        by (cases "train_step x smp2 tr0")
          (simp_all add: lone_iteration_def bench_iteration_def bench_result_def l Let_def)
    next
      case (Inr q)
      then obtain r st where q: "train_step x smp2 tr = Inr (r, st)" by (cases q) auto
      with train obtain r0 st0 where q0: "train_step x smp2 tr0 = Inr (r0, st0)" "alike r0 r"
        by (cases "train_step x smp2 tr0") auto
      obtain r1 gp where x1: "exchange_always f32 r (ag_gossip (bn_agent b)) = Inr (r1, gp)" "alike r r1"
        "model_size (tr_model r1) = model_size (tr_model tr)"
        by (rule bench_exchange.after_training [OF assms(1) q size(1)])
      have "alike r0 r1" by (rule alike_trans [OF q0(2) x1(2)])
      with c c0(1) q q0(1) x1 size l show ?thesis
        by (simp add: lone_iteration_def bench_iteration_def bench_result_def Let_def bench_rel_def same_setting_def
            bench_size_def)
    qed
  qed
qed

text \<open>The samples of the iterations before the first failing test.\<close>

fun bench_iterations :: "real \<Rightarrow> real \<Rightarrow> bench_event list \<Rightarrow> nat list" where
  "bench_iterations start duration [] = []"
| "bench_iterations start duration (Bench_Iteration k on now t0 t1 # es) =
     (if on \<and> now - start < duration then k # bench_iterations start duration es else [])"
| "bench_iterations start duration (Bench_Gossip ds now # es) = bench_iterations start duration es"

lemma bench_loop_alone:
  "torch_ok x \<Longrightarrow> bench_rel l b \<Longrightarrow>
   rel_result bench_rel
     (train_alone x v smp (tc_n_steps (cf_training (ag_config (bn_agent b))))
        (bench_iterations (am_start_time (bn_metrics b)) duration es) l)
     (bench_result (bench_loop x v smp f32 duration es b))"
proof (induction es arbitrary: l b)
  case Nil
  then show ?case by (simp add: bench_result_def)
next
  case (Cons ev es)
  show ?case
  proof (cases ev)
    case (Bench_Iteration k on now t0 t1)
    let ?n = "tc_n_steps (cf_training (ag_config (bn_agent b)))" and ?start = "am_start_time (bn_metrics b)"
    let ?it = "bench_iteration x v (smp k) (smp k (nat ?n)) f32 t0 t1 b"
    show ?thesis
    proof (cases "on \<and> now - ?start < duration")
      case True
      note it = bench_iteration_alone [OF Cons.prems, of v "smp k" "smp k (nat ?n)" f32 t0 t1]
      obtain e b1 where b1: "?it = (e, b1)" by fastforce
      show ?thesis
      proof (cases e)
        case (Some err)
        with it b1 True show ?thesis
          by (cases "lone_iteration x v (smp k) (smp k (nat ?n)) ?n l") (simp_all add: Bench_Iteration bench_result_def)
      next
        case None
        with it b1 obtain l1 where l1: "lone_iteration x v (smp k) (smp k (nat ?n)) ?n l = Inr l1" "bench_rel l1 b1"
          "same_setting b b1"
          by (cases "lone_iteration x v (smp k) (smp k (nat ?n)) ?n l") (auto simp: bench_result_def)
        from Cons.IH [OF Cons.prems(1) l1(2)] show ?thesis
          using True l1 b1 None by (simp add: Bench_Iteration same_setting_def)
      qed
    next
      case False
      then show ?thesis using Cons.prems(2) by (auto simp: Bench_Iteration bench_result_def)
    qed
  next
    case (Bench_Gossip ds now)
    let ?b = "b\<lparr>bn_agent := gossip_task f32 ds now (bn_agent b)\<rparr>"
    have "bench_rel l ?b" using Cons.prems(2) by (simp add: bench_rel_def bench_size_def gossip_task_def)
    from Cons.IH [OF Cons.prems(1) this] show ?thesis by (simp add: Bench_Gossip gossip_task_def)
  qed
qed

lemma bench_lone_rel: "0 < bench_size b \<Longrightarrow> bench_rel (bench_lone b) b"
  by (simp add: bench_rel_def bench_lone_def alike_refl)

text \<open>The metrics an exception leaves: those set after the loop keep their first values.\<close>

definition unfinished :: "agent_metrics \<Rightarrow> bool" where
  "unfinished m \<longleftrightarrow>
     am_gossip_rounds m = 0 \<and> am_privacy_epsilon_spent m = Fin 0 \<and> am_end_time m = 0 \<and> am_avg_step_time_ms m = 0"

lemma unfinished_updates [simp]:
  "unfinished (m\<lparr>am_training_steps := i\<rparr>) = unfinished m"
  "unfinished (m\<lparr>am_episodes_completed := i, am_total_reward := r, am_rewards_history := h\<rparr>) = unfinished m"
  "unfinished (m\<lparr>am_episodes_completed := i, am_total_reward := r, am_rewards_history := h, am_training_steps := j\<rparr>) = unfinished m"
  "unfinished (m\<lparr>am_start_time := r\<rparr>) = unfinished m" "unfinished (new_metrics a)"
  by (simp_all add: unfinished_def new_metrics_def)

lemma bench_iteration_unfinished:
  "bench_iteration x v smp smp2 f32 t0 t1 b = (err, b') \<Longrightarrow> unfinished (bn_metrics b') = unfinished (bn_metrics b)"
  by (auto simp: bench_iteration_def Let_def split: sum.splits prod.splits)

lemma bench_loop_unfinished:
  "bench_loop x v smp f32 duration es b = (err, b') \<Longrightarrow> unfinished (bn_metrics b') = unfinished (bn_metrics b)"
proof (induction es arbitrary: b)
  case (Cons ev es)
  show ?case
  proof (cases ev)
    case (Bench_Iteration k on now t0 t1)
    with Cons.prems show ?thesis
      by (auto split: if_splits prod.splits option.splits dest!: bench_iteration_unfinished Cons.IH)
  next
    case (Bench_Gossip ds now)
    with Cons.prems Cons.IH [of "b\<lparr>bn_agent := gossip_task f32 ds now (bn_agent b)\<rparr>"] show ?thesis by simp
  qed
qed simp

section \<open>Properties\<close>

text \<open>
  The aggregated statistics of the benchmark are consistent: the sums are those over the agents
  with at least one step, the average reward lies between the extremes, the deviation is at most
  their distance, the average privacy cost is at most the largest, the rates are the totals over a
  wall clock time that is not zero, and there are at most as many completed agents as agents.
\<close>

lemma benchmark_statistics:
  assumes "aggregate_results ms (new_results n duration env_name wall) = Inr r"
  shows "br_agents_completed r = int (length (completed_agents ms)) \<and> br_agents_completed r \<le> int (length ms) \<and>
    br_total_training_steps r = sum_list (map am_training_steps (completed_agents ms)) \<and>
    br_total_episodes r = sum_list (map am_episodes_completed (completed_agents ms)) \<and>
    br_min_reward r \<le> br_avg_reward r \<and> br_avg_reward r \<le> br_max_reward r \<and>
    0 \<le> br_reward_std r \<and> br_reward_std r \<le> br_max_reward r - br_min_reward r \<and>
    Fin 0 \<le> br_avg_epsilon_spent r \<and> br_avg_epsilon_spent r \<le> br_max_epsilon_spent r \<and>
    (completed_agents ms \<noteq> [] \<longrightarrow> wall \<noteq> 0 \<and>
       br_steps_per_second r * wall = real_of_int (br_total_training_steps r) \<and>
       br_episodes_per_second r * wall = real_of_int (br_total_episodes r) \<and>
       br_throughput_per_agent r * real (length (completed_agents ms)) = br_episodes_per_second r)"
proof (cases "completed_agents ms = []")
  case True
  with assms show ?thesis by (auto simp: aggregate_results_def new_results_def Let_def)
next
  case False
  let ?r0 = "new_results n duration env_name wall"
  have wall: "wall \<noteq> 0" using assms False by (auto simp: aggregate_results_def new_results_def Let_def)
  have len: "length (completed_agents ms) \<le> length ms" by (simp add: completed_agents_def)
  have r0: "br_avg_reward ?r0 = 0 \<and> br_min_reward ?r0 = 0 \<and> br_max_reward ?r0 = 0 \<and> br_reward_std ?r0 = 0"
    "br_avg_epsilon_spent ?r0 = Fin 0 \<and> br_max_epsilon_spent ?r0 = Fin 0" "br_wall_clock_time ?r0 = wall"
    by (simp_all add: new_results_def)
  show ?thesis
    using assms False wall len r0
      rewards_bounds [where xs = "all_rewards (completed_agents ms)"]
      privacy_bounds [where ms = "completed_agents ms"]
    by (auto simp: aggregate_results_def Let_def rewards_fields privacy_fields)
qed

definition demo_metrics :: "agent_metrics list" where
  "demo_metrics =
     [(new_metrics (lit ''a''))\<lparr>am_training_steps := 2, am_episodes_completed := 4, am_total_reward := 20,
        am_privacy_epsilon_spent := Fin 3\<rparr>,
      new_metrics (lit ''b''),
      (new_metrics (lit ''c''))\<lparr>am_training_steps := 1, am_episodes_completed := 1, am_total_reward := 9\<rparr>]"

lemma benchmark_statistics_witness:
  "\<exists>r. aggregate_results demo_metrics (new_results 3 60 [] 10) = Inr r \<and> br_agents_completed r = 2 \<and>
     br_total_episodes r = 5 \<and> br_min_reward r \<le> br_avg_reward r"
proof -
  have c: "length (completed_agents demo_metrics) = 2" "sum_list (map am_episodes_completed (completed_agents demo_metrics)) = 5"
    "completed_agents demo_metrics \<noteq> []"
    by (simp_all add: completed_agents_def demo_metrics_def new_metrics_def)
  then obtain r where r: "aggregate_results demo_metrics (new_results 3 60 [] 10) = Inr r"
    by (auto simp: aggregate_results_def new_results_def Let_def)
  from benchmark_statistics [OF r] r c show ?thesis by auto
qed

text \<open>
  C40. The benchmark applies an agent's own gradients as if they were the aggregate: the model version
  of its trainer grows by one with every training step, peers or not (the launcher leaves it at
  zero). This has no effect on what is learnt: the run ends with the error, or with the parameters,
  the privacy cost, the episodes and the rewards, of the training loop without gossip.
\<close>

theorem benchmark_applies_own_gradients:
  assumes "torch_ok x" and "0 < model_size (tr_model (ag_trainer (bn_agent b)))"
    and "bench_loop x v smp f32 duration es b = (err, b')"
  shows "tr_model_version (ag_trainer (bn_agent b')) - tr_model_version (ag_trainer (bn_agent b)) =
      am_training_steps (bn_metrics b') - am_training_steps (bn_metrics b) \<and>
    (err = None \<and> am_training_steps (bn_metrics b) < am_training_steps (bn_metrics b') \<longrightarrow>
      tr_aggregated_gradients (ag_trainer (bn_agent b')) = Some (get_gradients (ag_trainer (bn_agent b')))) \<and>
    (case train_alone x v smp (tc_n_steps (cf_training (ag_config (bn_agent b))))
        (bench_iterations (am_start_time (bn_metrics b)) duration es) (bench_lone b) of
      Inl e \<Rightarrow> err = Some e
    | Inr l \<Rightarrow> err = None \<and> get_parameters (ag_trainer (bn_agent b')) = get_parameters (ln_trainer l) \<and>
        trainer_privacy_spent (ag_trainer (bn_agent b')) = trainer_privacy_spent (ln_trainer l) \<and>
        am_training_steps (bn_metrics b') = ln_steps l \<and> am_episodes_completed (bn_metrics b') = ln_episodes l \<and>
        am_total_reward (bn_metrics b') = ln_reward l)"
proof -
  have size: "0 < bench_size b" using assms(2) by (simp add: bench_size_def)
  note step = bench_loop_step [OF assms(1) size assms(3)]
  note alone = bench_loop_alone [OF assms(1) bench_lone_rel [OF size], of v smp duration es f32]
  have "case train_alone x v smp (tc_n_steps (cf_training (ag_config (bn_agent b))))
        (bench_iterations (am_start_time (bn_metrics b)) duration es) (bench_lone b) of
      Inl e \<Rightarrow> err = Some e | Inr l \<Rightarrow> err = None \<and> bench_rel l b'"
    using alone by (auto simp: assms(3) bench_result_def elim!: rel_sum.cases split: option.splits)
  moreover have "bench_rel l b' \<Longrightarrow> get_parameters (ag_trainer (bn_agent b')) = get_parameters (ln_trainer l) \<and>
      trainer_privacy_spent (ag_trainer (bn_agent b')) = trainer_privacy_spent (ln_trainer l)" for l
    using alike_outcome by (auto simp: bench_rel_def)
  ultimately show ?thesis
    using step by (auto simp: version_gap_def own_applied_def bench_rel_def split: sum.splits)
qed

definition demo_bench :: "(nat, nat) benched" where
  "demo_bench = \<lparr>bn_agent = demo_agent, bn_metrics = new_metrics (lit ''a''), bn_step_times = []\<rparr>"

lemma demo_bench_step:
  "\<exists>b'. bench_iteration demo_torch demo_env (\<lambda>t d. Discrete 0) (\<lambda>d. Discrete 0) (\<lambda>x. x) t0 t1 demo_bench = (None, b')"
proof -
  obtain e v lp where c: "collect_rollout demo_torch demo_env (\<lambda>t d. Discrete 0) 1 0 demo_dp = Inr (e, demo_on 0 1 v lp True, 1, 1)"
    using demo_rollout_one by blast
  obtain r st where t: "train_step demo_torch (\<lambda>d. Discrete 0) (demo_on 0 1 v lp True) = Inr (r, st)"
    using demo_train by blast
  have size: "model_size demo_model = 6" using demo_agent_size by (simp add: demo_agent_def)
  then have "ready 6 r" using train_step_ready [OF demo_torch_ok t] by simp
  then obtain r1 gp where "exchange_always (\<lambda>x. x) r (ag_gossip demo_agent) = Inr (r1, gp)"
    using exchange_always_own [of 6 r "\<lambda>x. x" "ag_gossip demo_agent"] by auto
  with c t show ?thesis
    by (simp add: bench_iteration_def demo_bench_def demo_agent_def demo_config_def Let_def)
qed

theorem benchmark_applies_own_gradients_witness:
  "\<exists>b'. bench_loop demo_torch demo_env (\<lambda>k t d. Discrete 0) (\<lambda>x. x) 60 [Bench_Iteration 0 True 1 1 2] demo_bench = (None, b') \<and>
     tr_model_version (ag_trainer (bn_agent b')) =
       tr_model_version (ag_trainer (bn_agent demo_bench)) + am_training_steps (bn_metrics b')"
proof -
  have m: "am_start_time (bn_metrics demo_bench) = 0" "am_training_steps (bn_metrics demo_bench) = 0"
    by (simp_all add: demo_bench_def new_metrics_def)
  obtain b' where b': "bench_loop demo_torch demo_env (\<lambda>k t d. Discrete 0) (\<lambda>x. x) 60 [Bench_Iteration 0 True 1 1 2] demo_bench = (None, b')"
    using demo_bench_step [of 1 2] m by auto
  have "0 < model_size (tr_model (ag_trainer (bn_agent demo_bench)))"
    using demo_agent_size by (simp add: demo_bench_def)
  from benchmark_applies_own_gradients [OF demo_torch_ok this b'] b' m show ?thesis by auto
qed

text \<open>
  An agent that fails is reported with the metrics of that moment: no gossip round, no privacy
  cost and no end time; after a first training step it still counts as completed, and its missing
  privacy cost is left out of the average.
\<close>

lemma failed_agents_count:
  assumes "bench_loop x v smp f32 duration es
      \<lparr>bn_agent = a\<lparr>ag_gossip := start_protocol (ag_gossip a)\<rparr>,
       bn_metrics = (new_metrics i)\<lparr>am_start_time := start\<rparr>, bn_step_times = []\<rparr> = (Some err, b)"
  shows "run_agent_benchmark x v smp f32 start duration end_time es (new_metrics i) a = bn_metrics b \<and>
    am_gossip_rounds (bn_metrics b) = 0 \<and> am_privacy_epsilon_spent (bn_metrics b) = Fin 0 \<and>
    am_end_time (bn_metrics b) = 0 \<and>
    length (completed_agents (bn_metrics b # ms)) =
      (if 0 < am_training_steps (bn_metrics b) then 1 else 0) + length (completed_agents ms) \<and>
    spent_epsilons (completed_agents (bn_metrics b # ms)) = spent_epsilons (completed_agents ms)"
proof -
  have u: "unfinished (bn_metrics b)" using bench_loop_unfinished [OF assms] by simp
  have "run_agent_benchmark x v smp f32 start duration end_time es (new_metrics i) a = bn_metrics b"
    by (simp add: run_agent_benchmark_def assms)
  with u show ?thesis by (simp add: unfinished_def completed_agents_def spent_epsilons_def)
qed

lemma failed_agents_count_witness:
  "run_agent_benchmark demo_torch demo_env (\<lambda>k t d. Discrete 0) (\<lambda>x. x) 0 60 70 [Bench_Iteration 0 True 1 1 2]
     (new_metrics (lit ''a'')) (demo_agent\<lparr>ag_config := idle_config\<rparr>) =
     (new_metrics (lit ''a''))\<lparr>am_rewards_history := [0]\<rparr>"
proof -
  let ?a = "demo_agent\<lparr>ag_config := idle_config\<rparr>"
  let ?b = "\<lparr>bn_agent = ?a\<lparr>ag_gossip := start_protocol (ag_gossip ?a)\<rparr>,
       bn_metrics = (new_metrics (lit ''a''))\<lparr>am_start_time := 0\<rparr>, bn_step_times = []\<rparr>"
  obtain b where b: "bench_loop demo_torch demo_env (\<lambda>k t d. Discrete 0) (\<lambda>x. x) 60 [Bench_Iteration 0 True 1 1 2] ?b =
      (Some IndexError, b)" "bn_metrics b = (new_metrics (lit ''a''))\<lparr>am_rewards_history := [0]\<rparr>"
    by (simp add: bench_iteration_def idle_config_def Let_def collect_rollout_def case_prod_unfold train_step_def
        rollout_clear_def new_metrics_def)
  from failed_agents_count [OF b(1)] b(2) show ?thesis by simp
qed

end
