(* ===== verification/Export_Props.thy ===== *)
theory Export_Props
  imports Benchmark Simulation_Props Agent_Progress
begin

text \<open>
  The exported model: training changes the values of the parameters and nothing else of the network,
  so a network that the export script builds and loads from a checkpoint acts as the trainer's.
\<close>

section \<open>The shape of a network\<close>

definition same_shape :: "actor_critic \<Rightarrow> actor_critic \<Rightarrow> bool" where
  "same_shape m m' \<longleftrightarrow> (\<exists>qs. m' = put_parameters m qs \<and> map pm_shape qs = map pm_shape (parameters m))"

lemma same_shape_put: "map pm_shape qs = map pm_shape (parameters m) \<Longrightarrow> same_shape m (put_parameters m qs)"
  by (auto simp: same_shape_def)

lemma same_shape_refl: "same_shape m m"
  unfolding same_shape_def by (intro exI [of _ "parameters m"]) (simp add: put_parameters_same)

lemma same_shape_parameters:
  "same_shape m m' \<Longrightarrow> map pm_shape (parameters m') = map pm_shape (parameters m) \<and>
     (\<forall>rs. length rs = length (parameters m) \<longrightarrow> put_parameters m' rs = put_parameters m rs)"
proof -
  assume "same_shape m m'"
  then obtain qs where qs: "m' = put_parameters m qs" "map pm_shape qs = map pm_shape (parameters m)"
    by (auto simp: same_shape_def)
  have "length qs = length (parameters m)" by (rule map_eq_imp_length_eq [OF qs(2)])
  with qs show ?thesis by (simp add: parameters_put put_parameters_twice)
qed

lemma same_shape_trans:
  assumes "same_shape m m'" and "same_shape m' m''"
  shows "same_shape m m''"
proof -
  obtain rs where rs: "m'' = put_parameters m' rs" "map pm_shape rs = map pm_shape (parameters m')"
    using assms(2) by (auto simp: same_shape_def)
  note m' = same_shape_parameters [OF assms(1)]
  have s: "map pm_shape rs = map pm_shape (parameters m)" using rs(2) m' by simp
  with m' rs(1) show ?thesis
    unfolding same_shape_def using map_eq_imp_length_eq [OF s] by (intro exI [of _ rs]) simp
qed

lemma same_values_shape: "same_values m m' \<Longrightarrow> same_shape m m'"
  by (auto simp: same_values_def same_shape_def)

section \<open>Training keeps it\<close>

definition keeps_shape :: "'o trainer \<Rightarrow> 'o trainer \<Rightarrow> bool" where
  "keeps_shape s s' \<longleftrightarrow> same_shape (tr_model s) (tr_model s')"

lemma keeps_shape_trans: "keeps_shape s s' \<Longrightarrow> keeps_shape s' s'' \<Longrightarrow> keeps_shape s s''"
  unfolding keeps_shape_def by (rule same_shape_trans)

lemma gradients_shape:
  assumes "torch_ok x"
  shows "keeps_shape s (compute_gradients x batch s)"
proof -
  obtain ps where c: "compute_gradients x batch s = extract_gradients (s\<lparr>tr_model := put_parameters (cleared (tr_model s)) ps\<rparr>)"
    and ps: "length ps = length (parameters (tr_model s))" "map pm_shape ps = map pm_shape (parameters (tr_model s))"
    by (rule computed_gradients [OF assms])
  have "put_parameters (cleared (tr_model s)) ps = put_parameters (tr_model s) ps"
    unfolding cleared_def using ps(1) by (intro put_parameters_twice) simp_all
  with same_shape_put [OF ps(2)] show ?thesis by (simp add: keeps_shape_def c extract_gradients_def)
qed

lemma dp_shape:
  assumes "apply_dp_noise x u s = Inr s'"
  shows "keeps_shape s s'"
proof (cases "tr_local_gradients s = None \<or> tr_mechanism s = None")
  case True
  with assms show ?thesis
    by (auto simp: apply_dp_noise_def keeps_shape_def same_shape_refl split: option.splits)
next
  case False
  then obtain g mech where g: "tr_local_gradients s = Some g" "tr_mechanism s = Some mech" by auto
  obtain s1 mech1 mech2 noisy m where st: "schedule_noise g mech s = Inr (s1, mech1)"
    "set_gradient_vector (tr_model s) noisy = Inr m"
    "track_privacy x mech2 (s1\<lparr>tr_model := m, tr_local_gradients := Some noisy\<rparr>) = Inr s'"
    using dp_stages [OF assms g] by metis
  have "tr_model s' = m" by (subst track_frame(1) [OF st(3)]) simp
  with same_values_shape [OF set_gradient_values [OF st(2)]] show ?thesis by (simp add: keeps_shape_def)
qed

lemma optimizer_shape:
  assumes "torch_ok x"
  shows "keeps_shape s (optimizer_step x s)"
proof -
  let ?ps = "parameters (tr_model s)"
  obtain opt qs where a: "adam x (tc_learning_rate (tr_config s)) (tr_optimizer s) ?ps = (opt, qs)"
    by (cases "adam x (tc_learning_rate (tr_config s)) (tr_optimizer s) ?ps")
  have "map pm_shape qs = map pm_shape ?ps" using assms a unfolding torch_ok_def by (metis snd_conv)
  then show ?thesis by (simp add: keeps_shape_def optimizer_step_def a same_shape_put)
qed

lemma updates_shape:
  "torch_ok x \<Longrightarrow> run_updates x bs (s, t) = Inr (s', t') \<Longrightarrow> keeps_shape s s'"
proof (induction bs arbitrary: s t)
  case Nil
  then show ?case by (simp add: keeps_shape_def same_shape_refl)
next
  case (Cons b bs)
  then obtain s1 t1 where 1: "ppo_update x b (s, t) = Inr (s1, t1)" "run_updates x bs (s1, t1) = Inr (s', t')"
    by (auto simp: ebind_Inr_iff)
  then obtain s2 where 2: "apply_dp_noise x (n_updates t) (compute_gradients x b s) = Inr s2" "s1 = optimizer_step x s2"
    by (auto simp: ppo_update_def ebind_Inr_iff)
  have "keeps_shape s s1" unfolding 2(2)
    by (rule keeps_shape_trans [OF keeps_shape_trans [OF gradients_shape dp_shape [OF 2(1)]] optimizer_shape])
      (rule Cons.prems(1))+
  from keeps_shape_trans [OF this Cons.IH [OF Cons.prems(1) 1(2)]] show ?case .
qed

lemma train_step_shape:
  assumes "torch_ok x" and "train_step x smp s = Inr (s', st)"
  shows "keeps_shape s s'"
proof -
  from assms(2) obtain bs s1 t where "run_updates x bs (s, no_totals) = Inr (s1, t)" "s' = s1\<lparr>tr_step := tr_step s1 + 1\<rparr>"
    by (auto simp: train_step_def Let_def ebind_Inr_iff case_prod_unfold split: if_splits)
  with updates_shape [OF assms(1)] show ?thesis by (simp add: keeps_shape_def)
qed

lemma exchange_shape: "exchange_gradients f32 tr gp = Inr (tr1, gp1) \<Longrightarrow> keeps_shape tr tr1"
  unfolding keeps_shape_def by (intro same_values_shape alike_fields agent_exchange.harmless)

lemma turn_shape:
  assumes "torch_ok x" and "agent_turn x v smp smp2 f32 a = Inr a'"
  shows "keeps_shape (ag_trainer a) (ag_trainer a')"
proof -
  obtain e tr rew eps r st r1 gp where t: "collect_rollout x v smp (tc_n_steps (cf_training (ag_config a))) (ag_env a) (ag_trainer a) = Inr (e, tr, rew, eps)"
    "train_step x smp2 tr = Inr (r, st)" "exchange_gradients f32 r (ag_gossip a) = Inr (r1, gp)" "ag_trainer a' = r1"
    using assms(2) by (auto simp: agent_turn_def Let_def ebind_Inr_iff)
  have "tr = (ag_trainer a)\<lparr>tr_buffer := tr_buffer tr\<rparr>" using rollout_gathers [OF t(1)] by blast
  then have "tr_model tr = tr_model (ag_trainer a)" by (cases "ag_trainer a"; cases tr) simp
  with keeps_shape_trans [OF train_step_shape [OF assms(1) t(2)] exchange_shape [OF t(3)]] show ?thesis
    by (simp add: keeps_shape_def t(4))
qed

lemma run_shape:
  "torch_ok x \<Longrightarrow> run_events x v smp f32 es a = Inr a' \<Longrightarrow> keeps_shape (ag_trainer a) (ag_trainer a')"
proof (induction es arbitrary: a)
  case Nil
  then show ?case by (simp add: keeps_shape_def same_shape_refl)
next
  case (Cons ev es)
  show ?case
  proof (cases ev)
    case (Turn k)
    show ?thesis
    proof (cases "ag_running a")
      case True
      with Cons.prems(2) obtain a1 where a1: "agent_turn x v (smp k) (smp k (nat (tc_n_steps (cf_training (ag_config a))))) f32 a = Inr a1"
        "run_events x v smp f32 es a1 = Inr a'" by (auto simp: Turn ebind_Inr_iff)
      from turn_shape [OF Cons.prems(1) a1(1)] Cons.IH [OF Cons.prems(1) a1(2)] show ?thesis by (rule keeps_shape_trans)
    next
      case False
      with Cons.prems show ?thesis by (simp add: Turn keeps_shape_def same_shape_refl)
    qed
  next
    case (Gossip f)
    with Cons.IH [of "a\<lparr>ag_gossip := f (ag_gossip a)\<rparr>"] Cons.prems show ?thesis by simp
  next
    case Shutdown
    with Cons.IH [of "stop_agent a"] Cons.prems show ?thesis by (simp add: stop_agent_def Let_def)
  qed
qed

lemma agent_run_shape:
  assumes "torch_ok x" and "agent_run x v smp f32 es a = Inr a'"
  shows "keeps_shape (ag_trainer a) (ag_trainer a')"
proof -
  from assms(2) obtain b where "run_events x v smp f32 es (start_agent a) = Inr b" "a' = stop_agent b"
    by (auto simp: agent_run_def ebind_Inr_iff)
  with run_shape [OF assms(1) this(1)] show ?thesis by (simp add: start_agent_def stop_agent_def Let_def)
qed

section \<open>New networks\<close>

text \<open>A network without its numbers.\<close>

definition bare :: "param \<Rightarrow> param" where
  "bare p = p\<lparr>pm_data := [], pm_grad := None\<rparr>"

lemma new_networks_bare:
  assumes "new_actor_critic fresh orth obs_dim action_dim [256, 256] False False act = Inr m"
    and "new_actor_critic fresh' orth' obs_dim action_dim [256, 256] False False act = Inr m'"
  shows "map_model bare m = map_model bare m'"
  using assms
  by (auto simp: new_actor_critic_def new_policy_def new_value_net_def map_model_def map_linear_def bare_def
      init_linear_def new_linear_def new_param_def Let_def)

lemma put_bare:
  "length rs = length (parameters m) \<Longrightarrow> put_parameters (map_model bare m) rs = put_parameters m rs"
  unfolding put_parameters_map [symmetric] by (rule put_parameters_twice) simp_all

lemma parameters_bare: "map bare (parameters m) = parameters (map_model bare m)"
  unfolding put_parameters_map [symmetric] by (simp add: parameters_put)

lemma new_networks_shape:
  assumes "new_actor_critic fresh orth obs_dim action_dim [256, 256] False False act = Inr m"
    and "new_actor_critic fresh' orth' obs_dim action_dim [256, 256] False False act = Inr m'"
  shows "map pm_shape (parameters m') = map pm_shape (parameters m)"
    and "length rs = length (parameters m) \<Longrightarrow> put_parameters m' rs = put_parameters m rs"
proof -
  have b: "map bare (parameters m') = map bare (parameters m)"
    unfolding parameters_bare new_networks_bare [OF assms] ..
  have "map pm_shape (map bare ps) = map pm_shape ps" for ps by (simp add: bare_def o_def)
  with b show shape: "map pm_shape (parameters m') = map pm_shape (parameters m)" by metis
  show "put_parameters m' rs = put_parameters m rs" if "length rs = length (parameters m)"
    using put_bare [of rs m] put_bare [of rs m'] new_networks_bare [OF assms] that map_eq_imp_length_eq [OF shape]
    by simp
qed

lemma new_agent_model:
  "new_agent fresh orth new_adam now e v c = Inr a \<Longrightarrow> first_dim (env_obs_shape v) = Inr obs_dim \<Longrightarrow>
     action_dim_of (env_action_space v) = Inr action_dim \<Longrightarrow> new_actor_critic fresh orth obs_dim action_dim [256, 256] False False (lit ''tanh'') = Inr (tr_model (ag_trainer a))"
  by (auto simp: new_agent_def new_trainer_def setup_dp_def Let_def ebind_Inr_iff split: option.splits if_splits)

section \<open>Properties\<close>

text \<open>
  C39. Export: whatever run an agent has had since its creation, the network the export script
  builds, with other initial weights, and loads from the checkpoint of the trainer has the
  parameters of the trainer and acts as the trainer's: for every observation the same values,
  actions, log probabilities and entropies.
\<close>

theorem export_acts_as_trained:
  assumes "torch_ok x" and "new_agent fresh orth new_adam now e v c = Inr a"
    and "first_dim (env_obs_shape v) = Inr obs_dim" and "action_dim_of (env_action_space v) = Inr action_dim"
    and "agent_run x v smp f32 es a = Inr a'"
  shows "\<exists>m. export_load fresh' orth' obs_dim action_dim (save_checkpoint (ag_trainer a')) = Inr m \<and>
    get_parameter_vector m = get_parameters (ag_trainer a') \<and>
    (\<forall>phi smp obs given deterministic. get_action_and_value phi smp m obs given deterministic =
       get_action_and_value phi smp (tr_model (ag_trainer a')) obs given deterministic)"
proof -
  let ?m0 = "tr_model (ag_trainer a)" and ?M = "tr_model (ag_trainer a')"
  note m0 = new_agent_model [OF assms(2-4)]
  obtain m1 where m1: "new_actor_critic fresh' orth' obs_dim action_dim [256, 256] False False (lit ''tanh'') = Inr m1"
    by (simp add: new_actor_critic_def)
  have M: "same_shape ?m0 ?M" using agent_run_shape [OF assms(1,5)] by (simp add: keeps_shape_def)
  note shape = same_shape_parameters [OF M]
  have "map pm_shape (parameters m1) = map pm_shape (parameters ?M)"
    using new_networks_shape(1) [OF m0 m1] shape by simp
  from load_saved [OF this] obtain m where m: "load_state_dict (cp_model (save_checkpoint (ag_trainer a'))) m1 = Inr m"
    "m = put_parameters m1 (parameters m)" "map pm_data (parameters m) = map pm_data (parameters ?M)"
    "map pm_shape (parameters m) = map pm_shape (parameters ?M)" by blast
  have len: "length (parameters m) = length (parameters ?m0)"
    using m(4) shape by (metis length_map)
  have "m = put_parameters ?M (parameters m)"
    using m(2) new_networks_shape(2) [OF m0 m1 len] shape len by simp
  then have "same_values ?M m" unfolding same_values_def using m(3,4) by blast
  moreover have "export_load fresh' orth' obs_dim action_dim (save_checkpoint (ag_trainer a')) = Inr m"
    by (simp add: export_load_def m1 m(1))
  ultimately show ?thesis
    using m(3) action_same [of ?M m] by (simp add: get_parameters_def get_parameter_vector_def)
qed

theorem export_acts_as_trained_witness:
  "\<exists>a a' m. new_agent demo_fresh demo_orth demo_adam 0 0 demo_env default_config = Inr a \<and>
     agent_run steady_torch demo_env (\<lambda>i t d. Discrete 0) (\<lambda>x. x) [Turn 0, Shutdown] a = Inr a' \<and>
     tr_step (ag_trainer a') = 1 \<and>
     export_load (\<lambda>n m. ([], [])) demo_orth 1 2 (save_checkpoint (ag_trainer a')) = Inr m \<and>
     get_parameter_vector m = get_parameters (ag_trainer a')"
proof -
  obtain a where a: "new_agent demo_fresh demo_orth demo_adam 0 0 demo_env default_config = Inr a" "agent_sound 1 2 a"
    "tr_step (ag_trainer a) = 0"
    using new_agent_sound [OF demo_env_ok(1) demo_init_ok demo_adam_ok default_config_runs, of 0 0]
    by (elim exE conjE) (rule that; assumption)
  have "agent_sound 1 2 (start_agent a)" "ag_running (start_agent a)"
    using a(2) by (simp_all add: agent_sound_def start_agent_def)
  note run = run_succeeds [OF steady_torch_ok demo_env_ok(1) _ this, of "\<lambda>i t d. Discrete 0" "\<lambda>x. x" "[Turn 0, Shutdown]"]
  obtain b where b: "run_events steady_torch demo_env (\<lambda>i t d. Discrete 0) (\<lambda>x. x) [Turn 0, Shutdown] (start_agent a) = Inr b"
    "tr_step (ag_trainer b) = 1"
    using run demo_env_ok(2) a(3) by (auto simp: start_agent_def)
  have run': "agent_run steady_torch demo_env (\<lambda>i t d. Discrete 0) (\<lambda>x. x) [Turn 0, Shutdown] a = Inr (stop_agent b)"
    using b(1) by (simp add: agent_run_def)
  have "torch_ok steady_torch" using steady_torch_ok by (simp add: runs_ok_def)
  from export_acts_as_trained [OF this a(1) _ _ run', of 1 2 "\<lambda>n m. ([], [])" demo_orth] a(1) run' b(2)
  show ?thesis by (auto simp: stop_agent_def Let_def demo_env_def first_dim_def action_dim_of_def)
qed

end
